(* ===== verification/Prelude.thy ===== *)
theory Prelude
  imports Complex_Main
begin

text \<open>
  Vocabulary shared by every component: Python exceptions as values, sequencing of fallible
  computations, and the string operations of Python that the code uses (\<open>join\<close>, \<open>split\<close>,
  \<open>lower\<close>, \<open>format\<close> of integers, \<open>textwrap.indent\<close>).  Strings are lists of characters; the text
  the program handles is ASCII (identifiers are checked to be), so a character is a code point.
\<close>

section \<open>Errors as values\<close>

text \<open>
  The exceptions the modelled code can raise.  \<open>OutOfFuel\<close> is not an exception of the program: it is
  the value of a recursion that was given too little fuel, and each component that uses fuel proves
  how much is enough.
\<close>

datatype py_error =
    RecordFluxError string
  | PyRFLXError "string list"
  | FatalError string
  | AssertionError
  | NotImplementedError
  | OverflowError
  | TypeError
  | Z3Exception
  | AttributeError
  | ValueError
  | ZeroDivisionError
  | IndexError
  | UnboundLocalError
  | KeyError string
  | OutOfFuel

type_synonym 'a res = "py_error + 'a"

definition bind_res :: "'a res \<Rightarrow> ('a \<Rightarrow> 'b res) \<Rightarrow> 'b res" where
  "bind_res m f = (case m of Inl e \<Rightarrow> Inl e | Inr x \<Rightarrow> f x)"

fun seq_res :: "'a res list \<Rightarrow> 'a list res" where
  "seq_res [] = Inr []"
| "seq_res (m # ms) = bind_res m (\<lambda>x. bind_res (seq_res ms) (\<lambda>xs. Inr (x # xs)))"

definition map_res :: "('a \<Rightarrow> 'b res) \<Rightarrow> 'a list \<Rightarrow> 'b list res" where
  "map_res f xs = seq_res (map f xs)"

text \<open>\<open>any\<close> and \<open>all\<close> over a test that can raise, with Python's short-circuit order.\<close>

fun any_res :: "('a \<Rightarrow> bool res) \<Rightarrow> 'a list \<Rightarrow> bool res" where
  "any_res f [] = Inr False"
| "any_res f (x # xs) = bind_res (f x) (\<lambda>b. if b then Inr True else any_res f xs)"

definition assert_res :: "bool \<Rightarrow> 'a res \<Rightarrow> 'a res" where
  "assert_res b m = (if b then m else Inl AssertionError)"

named_theorems res_simps \<open>equations that run the error monad\<close>

lemma bind_res_Inl [simp, res_simps]: "bind_res (Inl e) f = Inl e"
  by (simp add: bind_res_def)

lemma bind_res_Inr [simp, res_simps]: "bind_res (Inr x) f = f x"
  by (simp add: bind_res_def)

lemma bind_res_eq_Inr: "bind_res m f = Inr y \<longleftrightarrow> (\<exists>x. m = Inr x \<and> f x = Inr y)"
  by (simp add: bind_res_def split: sum.splits)

lemma bind_res_eq_Inl:
  "bind_res m f = Inl e \<longleftrightarrow> m = Inl e \<or> (\<exists>x. m = Inr x \<and> f x = Inl e)"
  by (simp add: bind_res_def split: sum.splits)

lemma bind_res_cong [fundef_cong]:
  "m = m' \<Longrightarrow> (\<And>x. m' = Inr x \<Longrightarrow> f x = g x) \<Longrightarrow> bind_res m f = bind_res m' g"
  by (simp add: bind_res_def split: sum.splits)

lemma seq_res_Inr_iff:
  "seq_res ms = Inr xs \<longleftrightarrow> ms = map Inr xs"
  by (induction ms arbitrary: xs) (auto simp: bind_res_eq_Inr)

lemma seq_res_Inl_mem: "seq_res ms = Inl e \<Longrightarrow> Inl e \<in> set ms"
  by (induction ms) (auto simp: bind_res_eq_Inl bind_res_eq_Inr)

lemma seq_res_map_mem:
  assumes "seq_res (map f xs) = Inr r" "q \<in> set r"
  shows "\<exists>x\<in>set xs. f x = Inr q"
proof -
  from assms have "Inr q \<in> set (map f xs)"
    by (simp add: seq_res_Inr_iff)
  then show ?thesis by force
qed

lemma map_res_Nil [simp]: "map_res f [] = Inr []"
  by (simp add: map_res_def)

lemma map_res_Cons [simp]:
  "map_res f (x # xs) = bind_res (f x) (\<lambda>y. bind_res (map_res f xs) (\<lambda>ys. Inr (y # ys)))"
  by (simp add: map_res_def)

lemma map_res_Inr_iff:
  "map_res f xs = Inr ys \<longleftrightarrow> list_all2 (\<lambda>x y. f x = Inr y) xs ys"
  by (induction xs arbitrary: ys) (auto simp: bind_res_eq_Inr list_all2_Cons1)

lemma map_res_Inl_mem: "map_res f xs = Inl e \<Longrightarrow> \<exists>x\<in>set xs. f x = Inl e"
  by (induction xs) (auto simp: bind_res_eq_Inl bind_res_eq_Inr)

lemma map_res_all_Inr:
  "(\<And>x. x \<in> set xs \<Longrightarrow> f x = Inr (g x)) \<Longrightarrow> map_res f xs = Inr (map g xs)"
  by (induction xs) auto

lemma map_res_cong [fundef_cong]:
  "xs = ys \<Longrightarrow> (\<And>x. x \<in> set ys \<Longrightarrow> f x = g x) \<Longrightarrow> map_res f xs = map_res g ys"
  by (simp add: map_res_def cong: map_cong)

lemma any_res_all_Inr:
  "(\<And>x. x \<in> set xs \<Longrightarrow> f x = Inr (P x)) \<Longrightarrow> any_res f xs = Inr (\<exists>x\<in>set xs. P x)"
  by (induction xs) auto

lemma any_res_Inl_mem: "any_res f xs = Inl e \<Longrightarrow> \<exists>x\<in>set xs. f x = Inl e"
  by (induction xs) (auto simp: bind_res_eq_Inl split: if_splits)

lemma any_res_cong [fundef_cong]:
  "xs = ys \<Longrightarrow> (\<And>x. x \<in> set ys \<Longrightarrow> f x = g x) \<Longrightarrow> any_res f xs = any_res g ys"
proof (induction xs arbitrary: ys)
  case Nil
  then show ?case by simp
next
  case (Cons x xs)
  show ?case
    using Cons.prems Cons.IH [of xs] by (auto intro!: bind_res_cong)
qed

section \<open>Results of fuelled computations\<close>

text \<open>
  \<open>returns P m\<close>: the computation had enough fuel, and its value, if it has one, satisfies \<open>P\<close>.
\<close>

definition returns :: "('a \<Rightarrow> bool) \<Rightarrow> 'a res \<Rightarrow> bool" where
  "returns P m = (case m of Inl e \<Rightarrow> e \<noteq> OutOfFuel | Inr x \<Rightarrow> P x)"

lemma returns_Inr [simp]: "returns P (Inr x) = P x"
  by (simp add: returns_def)

lemma returns_Inl [simp]: "returns P (Inl e) = (e \<noteq> OutOfFuel)"
  by (simp add: returns_def)

lemma returns_bind:
  "returns Q m \<Longrightarrow> (\<And>x. m = Inr x \<Longrightarrow> Q x \<Longrightarrow> returns P (f x)) \<Longrightarrow> returns P (bind_res m f)"
  by (cases m) auto

lemma returns_mono: "returns Q m \<Longrightarrow> (\<And>x. m = Inr x \<Longrightarrow> Q x \<Longrightarrow> P x) \<Longrightarrow> returns P m"
  by (cases m) auto

lemma returnsD: "returns P m \<Longrightarrow> m = Inr x \<Longrightarrow> P x"
  by simp

lemma returns_not_fuel: "returns P m \<Longrightarrow> m \<noteq> Inl OutOfFuel"
  by auto

lemma returns_seq_res:
  "(\<And>m. m \<in> set ms \<Longrightarrow> returns (\<lambda>_. True) m) \<Longrightarrow> returns (\<lambda>_. True) (seq_res ms)"
  by (induction ms) (auto intro!: returns_bind [where Q = "\<lambda>_. True"])

lemma returns_map:
  "(\<And>x. x \<in> set xs \<Longrightarrow> returns (P x) (f x)) \<Longrightarrow>
   returns (\<lambda>ys. list_all2 P xs ys) (seq_res (map f xs))"
  by (induction xs) (auto intro!: returns_bind [where Q = "P _"] returns_bind [where Q = "\<lambda>ys. list_all2 P _ ys"])

lemma returns_map_res:
  "(\<And>x. x \<in> set xs \<Longrightarrow> returns (\<lambda>_. True) (f x)) \<Longrightarrow> returns (\<lambda>_. True) (map_res f xs)"
  unfolding map_res_def by (rule returns_seq_res) auto

lemma returns_any_res:
  "(\<And>x. x \<in> set xs \<Longrightarrow> returns (\<lambda>_. True) (f x)) \<Longrightarrow> returns (\<lambda>_. True) (any_res f xs)"
  by (induction xs) (auto intro!: returns_bind [where Q = "\<lambda>_. True"])

section \<open>More fuel does not change a result\<close>

text \<open>\<open>approx m m'\<close>: \<open>m\<close> ran out of fuel or is \<open>m'\<close>.\<close>

definition approx :: "'a res \<Rightarrow> 'a res \<Rightarrow> bool" where
  "approx m m' = (m = Inl OutOfFuel \<or> m = m')"

named_theorems approx_intros \<open>monotonicity of the error monad in its fuel\<close>

lemma approx_refl [approx_intros, simp]: "approx m m"
  by (simp add: approx_def)

lemma approx_bind [approx_intros]:
  "approx m m' \<Longrightarrow> (\<And>x. approx (f x) (f' x)) \<Longrightarrow> approx (bind_res m f) (bind_res m' f')"
  by (cases m; cases m') (auto simp: approx_def)

lemma approx_bind_Inr:
  "approx m m' \<Longrightarrow> (\<And>x. m = Inr x \<Longrightarrow> approx (f x) (f' x)) \<Longrightarrow> approx (bind_res m f) (bind_res m' f')"
  by (cases m; cases m') (auto simp: approx_def)

lemma approx_if [approx_intros]:
  "approx m m' \<Longrightarrow> approx k k' \<Longrightarrow> approx (if b then m else k) (if b then m' else k')"
  by simp

lemma approx_seq_map [approx_intros]:
  "(\<And>x. x \<in> set xs \<Longrightarrow> approx (f x) (f' x)) \<Longrightarrow> approx (seq_res (map f xs)) (seq_res (map f' xs))"
  by (induction xs) (auto intro!: approx_intros)

lemma approx_option [approx_intros]:
  "approx m m' \<Longrightarrow> (\<And>x. approx (f x) (f' x)) \<Longrightarrow>
   approx (case v of None \<Rightarrow> m | Some x \<Rightarrow> f x) (case v of None \<Rightarrow> m' | Some x \<Rightarrow> f' x)"
  by (cases v) auto

lemma approx_prod [approx_intros]:
  "(\<And>x y. approx (f x y) (f' x y)) \<Longrightarrow>
   approx (case v of (x, y) \<Rightarrow> f x y) (case v of (x, y) \<Rightarrow> f' x y)"
  by (cases v) auto

lemma approx_list [approx_intros]:
  "approx m m' \<Longrightarrow> (\<And>x y. approx (f x y) (f' x y)) \<Longrightarrow>
   approx (case v of [] \<Rightarrow> m | x # y \<Rightarrow> f x y) (case v of [] \<Rightarrow> m' | x # y \<Rightarrow> f' x y)"
  by (cases v) auto

lemma approx_trans: "approx a b \<Longrightarrow> approx b c \<Longrightarrow> approx a c"
  by (auto simp: approx_def)

section \<open>Characters and strings\<close>

abbreviation newline_char :: char where
  "newline_char \<equiv> CHR 0x0A"

definition char_code :: "char \<Rightarrow> nat" where
  "char_code c = of_char c"

text \<open>ASCII lower case, as \<open>str.lower\<close> on ASCII text and Rust's \<open>eq_ignore_ascii_case\<close>.\<close>

definition lower_char :: "char \<Rightarrow> char" where
  "lower_char c = (if 65 \<le> char_code c \<and> char_code c \<le> 90 then char_of (char_code c + 32) else c)"

definition lower :: "string \<Rightarrow> string" where
  "lower s = map lower_char s"

fun join_str :: "string \<Rightarrow> string list \<Rightarrow> string" where
  "join_str sep [] = []"
| "join_str sep [s] = s"
| "join_str sep (s # t # ts) = s @ sep @ join_str sep (t # ts)"

text \<open>\<open>s.split(c)\<close> for a one-character separator: always at least one piece.\<close>

fun split_char :: "char \<Rightarrow> string \<Rightarrow> string list" where
  "split_char c [] = [[]]"
| "split_char c (x # xs) =
     (if x = c then [] # split_char c xs
      else (case split_char c xs of [] \<Rightarrow> [[x]] | p # ps \<Rightarrow> (x # p) # ps))"

lemma split_char_nonempty [simp]: "split_char c s \<noteq> []"
  by (induction s) (auto split: list.splits)

lemma split_char_join: "join_str [c] (split_char c s) = s"
proof (induction s)
  case Nil
  then show ?case by simp
next
  case (Cons x xs)
  then show ?case
    by (cases "split_char c xs"; cases "tl (split_char c xs)")
       (auto split: list.splits)
qed

text \<open>The whitespace characters of \<open>str.split()\<close> and \<open>str.strip()\<close> (ASCII).\<close>

definition is_space :: "char \<Rightarrow> bool" where
  "is_space c = (char_code c = 32 \<or> (9 \<le> char_code c \<and> char_code c \<le> 13)
     \<or> (28 \<le> char_code c \<and> char_code c \<le> 31))"

text \<open>\<open>s.split()\<close>: the maximal runs of non-space characters.\<close>

fun split_ws :: "string \<Rightarrow> string list" where
  "split_ws [] = []"
| "split_ws (x # xs) =
     (if is_space x then split_ws xs
      else (case xs of
              [] \<Rightarrow> [[x]]
            | y # _ \<Rightarrow> if is_space y then [x] # split_ws xs
                     else (case split_ws xs of [] \<Rightarrow> [[x]] | p # ps \<Rightarrow> (x # p) # ps)))"

text \<open>\<open>rflx.common.indent_next\<close>: every line but the first is indented.\<close>

fun indent_next :: "string \<Rightarrow> nat \<Rightarrow> string" where
  "indent_next [] n = []"
| "indent_next (c # cs) n =
     (if c = newline_char then newline_char # replicate n CHR 0x20 @ indent_next cs n
      else c # indent_next cs n)"

text \<open>\<open>rflx.common.indent\<close> (\<open>textwrap.indent\<close>): every line that is not blank is indented.\<close>

definition indent_line :: "nat \<Rightarrow> string \<Rightarrow> string" where
  "indent_line n l = (if list_all is_space l then l else replicate n CHR 0x20 @ l)"

definition indent :: "string \<Rightarrow> nat \<Rightarrow> string" where
  "indent s n = join_str [newline_char] (map (indent_line n) (split_char newline_char s))"

text \<open>Python compares strings by code points, lexicographically.\<close>

fun str_less :: "string \<Rightarrow> string \<Rightarrow> bool" where
  "str_less [] [] = False"
| "str_less [] (y # ys) = True"
| "str_less (x # xs) [] = False"
| "str_less (x # xs) (y # ys) =
     (if char_code x < char_code y then True
      else if char_code y < char_code x then False else str_less xs ys)"

section \<open>Formatting integers\<close>

definition digit_char :: "nat \<Rightarrow> char" where
  "digit_char d = (if d < 10 then char_of (48 + d) else char_of (55 + d))"

text \<open>
  The digits of \<open>n\<close> to base \<open>b\<close>, upper case, without a sign; a base below two never reaches this
  function.
\<close>

fun digits_of :: "nat \<Rightarrow> nat \<Rightarrow> string" where
  "digits_of b n =
     (if b < 2 \<or> n < b then [digit_char n]
      else digits_of b (n div b) @ [digit_char (n mod b)])"

declare digits_of.simps [simp del]

lemma digits_of_nonempty [simp]: "digits_of b n \<noteq> []"
  by (subst digits_of.simps) simp

text \<open>Python's \<open>str\<close> of an integer.\<close>

definition int_str :: "int \<Rightarrow> string" where
  "int_str n = (if n < 0 then CHR ''-'' # digits_of 10 (nat (- n)) else digits_of 10 (nat n))"

text \<open>The decimal digits of a number determine it.\<close>

lemma digits_of_value:
  "foldl (\<lambda>a c. a * 10 + (char_code c - 48)) 0 (digits_of 10 n) = n"
proof (induction n rule: less_induct)
  case (less n)
  have d: "char_code (digit_char k) = 48 + k" if "k < 10" for k
    using that by (simp add: digit_char_def char_code_def)
  show ?case
  proof (cases "n < 10")
    case True
    then show ?thesis by (subst digits_of.simps) (simp add: d)
  next
    case False
    then show ?thesis using less [of "n div 10"] by (subst digits_of.simps) (simp add: d)
  qed
qed

lemma digits_of_inj: "digits_of 10 m = digits_of 10 n \<longleftrightarrow> m = n"
  by (metis digits_of_value)

section \<open>Ordered dictionaries\<close>

text \<open>
  A Python \<open>dict\<close> keeps insertion order: an association list with distinct keys, where assigning to
  an existing key replaces its value in place.
\<close>

fun dict_set :: "'k \<Rightarrow> 'v \<Rightarrow> ('k \<times> 'v) list \<Rightarrow> ('k \<times> 'v) list" where
  "dict_set k v [] = [(k, v)]"
| "dict_set k v ((k', v') # d) = (if k = k' then (k', v) # d else (k', v') # dict_set k v d)"

lemma dict_set_lookup: "map_of (dict_set k v d) = (map_of d)(k \<mapsto> v)"
  by (induction d) auto

lemma dict_set_keys [simp]: "set (map fst (dict_set k v d)) = insert k (set (map fst d))"
  by (induction k v d rule: dict_set.induct) auto

lemma dict_set_distinct: "distinct (map fst d) \<Longrightarrow> distinct (map fst (dict_set k v d))"
proof (induction k v d rule: dict_set.induct)
  case (2 k v k' v' d)
  then show ?case
    using dict_set_keys [of k v d] by (auto simp del: dict_set_keys)
qed simp

section \<open>Lists\<close>

lemma filter_split:
  "filter P xs = ys @ y # zs \<Longrightarrow> \<exists>us ws. xs = us @ y # ws \<and> filter P us = ys"
proof (induction xs arbitrary: ys)
  case (Cons x xs)
  show ?case
  proof (cases "P x")
    case True
    show ?thesis
    proof (cases ys)
      case Nil
      then have "x = y" using Cons.prems True by simp
      then show ?thesis using Nil by (intro exI [of _ "[]"] exI [of _ xs]) simp
    next
      case (Cons a ys')
      then obtain us ws where "xs = us @ y # ws" "filter P us = ys'"
        using Cons.prems Cons.IH [of ys'] True by auto
      then show ?thesis using Cons Cons.prems True by (intro exI [of _ "x # us"] exI [of _ ws]) auto
    qed
  next
    case False
    then obtain us ws where "xs = us @ y # ws" "filter P us = ys"
      using Cons.prems Cons.IH [of ys] by auto
    then show ?thesis using False by (intro exI [of _ "x # us"] exI [of _ ws]) auto
  qed
qed simp

end
