(* ===== verification/Identifier.thy ===== *)
theory Identifier
  imports Prelude
begin

text \<open>
  Identifiers (\<open>librapidflux/src/identifier.rs\<close>): a dotted path whose parts are separated by
  \<open>::\<close>.  An identifier is represented by its text; \<open>id_new\<close> is the validating constructor, and two
  identifiers are equal when their texts agree up to ASCII case.  Source locations are left out: they
  take part in no comparison.
\<close>

type_synonym ident = string

section \<open>Construction\<close>

text \<open>Replacement of the alternative separator, a single dot.\<close>

definition replace_dots :: "string \<Rightarrow> string" where
  "replace_dots s = concat (map (\<lambda>c. if c = CHR ''.'' then ''::'' else [c]) s)"

text \<open>\<open>str::split("::")\<close>: pieces between non-overlapping separators, from the left.\<close>

fun split_sep :: "string \<Rightarrow> string list" where
  "split_sep [] = [[]]"
| "split_sep [x] = [[x]]"
| "split_sep (x # y # xs) =
     (if x = CHR '':'' \<and> y = CHR '':'' then [] # split_sep xs
      else (case split_sep (y # xs) of [] \<Rightarrow> [[x]] | p # ps \<Rightarrow> (x # p) # ps))"

definition valid_part :: "string \<Rightarrow> bool" where
  "valid_part p = (p \<noteq> [] \<and> list_all (\<lambda>c. \<not> is_space c \<and> c \<noteq> CHR '':'' \<and> char_code c < 128) p)"

definition id_new :: "string \<Rightarrow> ident res" where
  "id_new s =
     (let i = replace_dots s in
      if i \<noteq> [] \<and> list_all valid_part (split_sep i) then Inr i
      else Inl (FatalError ''invalid identifier''))"

definition valid_ident :: "ident \<Rightarrow> bool" where
  "valid_ident i = (id_new i = Inr i)"

section \<open>Parts\<close>

definition id_parts :: "ident \<Rightarrow> string list" where
  "id_parts i = split_sep i"

definition id_name :: "ident \<Rightarrow> ident" where
  "id_name i = last (split_sep i)"

definition id_parent :: "ident \<Rightarrow> ident option" where
  "id_parent i = (case butlast (split_sep i) of [] \<Rightarrow> None | ps \<Rightarrow> Some (join_str ''::'' ps))"

text \<open>\<open>ID.join\<close>, the operator \<open>*\<close> of the Python class.\<close>

definition id_join :: "ident \<Rightarrow> ident \<Rightarrow> ident" where
  "id_join a b = a @ ''::'' @ b"

definition id_flat :: "ident \<Rightarrow> string" where
  "id_flat i = join_str ''_'' (split_sep i)"

section \<open>Comparison\<close>

definition id_eq :: "ident \<Rightarrow> ident \<Rightarrow> bool" where
  "id_eq a b = (lower a = lower b)"

text \<open>For the evaluation of examples: character by character, until there is a difference.\<close>

lemma id_eq_code [code]:
  "id_eq [] [] = True"
  "id_eq [] (y # b) = False"
  "id_eq (x # a) [] = False"
  "id_eq (x # a) (y # b) = (if x = y then id_eq a b else if lower_char x = lower_char y then id_eq a b else False)"
  by (auto simp: id_eq_def lower_def)

lemma id_eq_refl [simp]: "id_eq a a"
  by (simp add: id_eq_def)

lemma id_eq_sym: "id_eq a b \<Longrightarrow> id_eq b a"
  by (simp add: id_eq_def)

lemma id_eq_trans: "id_eq a b \<Longrightarrow> id_eq b c \<Longrightarrow> id_eq a c"
  by (simp add: id_eq_def)

lemma split_sep_nonempty [simp]: "split_sep s \<noteq> []"
  by (induction s rule: split_sep.induct) (auto split: list.splits)

lemma split_sep_part:
  "list_all (\<lambda>c. c \<noteq> CHR '':'') p \<Longrightarrow> split_sep p = [p]"
  by (induction p rule: split_sep.induct) auto

lemma split_sep_append:
  "list_all (\<lambda>c. c \<noteq> CHR '':'') p \<Longrightarrow> split_sep (p @ CHR '':'' # CHR '':'' # s) = p # split_sep s"
proof (induction p)
  case Nil
  then show ?case by simp
next
  case (Cons x p)
  then show ?case by (cases p) auto
qed

lemma join_split_sep: "join_str ''::'' (split_sep s) = s"
proof (induction s rule: split_sep.induct)
  case (3 x y xs)
  show ?case
  proof (cases "x = CHR '':'' \<and> y = CHR '':''")
    case True
    then show ?thesis
      using 3 split_sep_nonempty [of xs] by (cases "split_sep xs") auto
  next
    case False
    then show ?thesis
      using 3 split_sep_nonempty [of "y # xs"]
      by (cases "split_sep (y # xs)"; cases "tl (split_sep (y # xs))") auto
  qed
qed auto

text \<open>A qualified name is taken apart into the package and the local name it was joined from.\<close>

lemma id_name_join:
  assumes "list_all (\<lambda>c. c \<noteq> CHR '':'') p"
  shows "id_name (id_join p n) = id_name n"
  using assms by (simp add: id_name_def id_join_def split_sep_append)

lemma id_parent_join_part:
  assumes "list_all (\<lambda>c. c \<noteq> CHR '':'') p" "list_all (\<lambda>c. c \<noteq> CHR '':'') n"
  shows "id_parent (id_join p n) = Some p"
  using assms
  by (simp add: id_parent_def id_join_def split_sep_append split_sep_part)

end
