(* ===== verification/Expr.thy ===== *)
theory Expr
  imports Identifier
begin

text \<open>
  The expressions of specifications (\<open>rflx/expr.py\<close>): the class hierarchy as a datatype, operator
  precedence, the textual form (\<open>_update_str\<close>) and the comparison \<open>==\<close>, which for most classes
  compares textual forms.  The constructors group the leaf classes under their abstract base class
  (\<open>AssExpr\<close>, \<open>MathBinExpr\<close>, \<open>Relation\<close>, \<open>Attribute\<close>, \<open>QuantifiedExpr\<close>).  Static types and source
  locations, which neither the textual form nor any comparison reads, are left out, and so is
  \<open>NamedAggregate\<close>, which only the Ada back end builds.
\<close>

section \<open>Abstract syntax\<close>

datatype ass_op = And | AndThen | Or | OrElse | Add | Mul

datatype math_op = Sub | Div | Pow | Mod | Rem

datatype rel_op = Less | LessEqual | Equal | GreaterEqual | Greater | NotEqual | In | NotIn

datatype attribute =
    Size | Length | First | Last | ValidChecksum | Valid | Present | HasData | Head | Opaque
  | Constrained

datatype quantifier = ForAllOf | ForAllIn | ForSomeIn

datatype expr =
    NotE expr
  | Ass ass_op "expr list"
  | Number int nat
  | Neg expr
  | MathBin math_op expr expr
  | TypeName ident
  | Literal ident
  | Variable ident
  | Attribute attribute expr
  | Val expr expr
  | Indexed expr "expr list"
  | Selected expr ident
  | Call ident "expr list"
  | Slice expr expr expr
  | UndefinedExpr
  | Aggregate "expr list"
  | StringE string
  | Relation rel_op expr expr
  | IfExpr "(expr \<times> expr) list" "expr option"
  | Quantified quantifier ident expr expr
  | ValueRange expr expr
  | Conversion ident expr
  | QualifiedExpr ident expr
  | Comprehension ident expr expr expr
  | MessageAggregate bool ident "(ident \<times> expr) list"
  | CaseExpr expr "((ident + int) list \<times> expr) list"

text \<open>
  The flag of \<open>MessageAggregate\<close> tells a \<open>DeltaMessageAggregate\<close>; a choice of a \<open>CaseExpr\<close> is a
  literal's identifier or a number.
\<close>

abbreviation TRUE :: expr where
  "TRUE \<equiv> Literal ''True''"

abbreviation FALSE :: expr where
  "FALSE \<equiv> Literal ''False''"

section \<open>Classes\<close>

datatype expr_class =
    C_Not | C_Ass ass_op | C_Number | C_Neg | C_MathBin math_op | C_TypeName | C_Literal | C_Variable
  | C_Attribute attribute | C_Val | C_Indexed | C_Selected | C_Call | C_Slice | C_Undefined
  | C_Aggregate | C_String | C_Relation rel_op | C_If | C_Quantified quantifier | C_ValueRange
  | C_Conversion | C_Qualified | C_Comprehension | C_MessageAggregate | C_DeltaMessageAggregate
  | C_Case

fun class_of :: "expr \<Rightarrow> expr_class" where
  "class_of (NotE _) = C_Not"
| "class_of (Ass op _) = C_Ass op"
| "class_of (Number _ _) = C_Number"
| "class_of (Neg _) = C_Neg"
| "class_of (MathBin op _ _) = C_MathBin op"
| "class_of (TypeName _) = C_TypeName"
| "class_of (Literal _) = C_Literal"
| "class_of (Variable _) = C_Variable"
| "class_of (Attribute a _) = C_Attribute a"
| "class_of (Val _ _) = C_Val"
| "class_of (Indexed _ _) = C_Indexed"
| "class_of (Selected _ _) = C_Selected"
| "class_of (Call _ _) = C_Call"
| "class_of (Slice _ _ _) = C_Slice"
| "class_of UndefinedExpr = C_Undefined"
| "class_of (Aggregate _) = C_Aggregate"
| "class_of (StringE _) = C_String"
| "class_of (Relation r _ _) = C_Relation r"
| "class_of (IfExpr _ _) = C_If"
| "class_of (Quantified q _ _ _) = C_Quantified q"
| "class_of (ValueRange _ _) = C_ValueRange"
| "class_of (Conversion _ _) = C_Conversion"
| "class_of (QualifiedExpr _ _) = C_Qualified"
| "class_of (Comprehension _ _ _ _) = C_Comprehension"
| "class_of (MessageAggregate delta _ _) =
     (if delta then C_DeltaMessageAggregate else C_MessageAggregate)"
| "class_of (CaseExpr _ _) = C_Case"

text \<open>\<open>issubclass\<close> between the concrete classes: \<open>AndThen\<close> is an \<open>And\<close>, and so on.\<close>

definition is_subclass :: "expr_class \<Rightarrow> expr_class \<Rightarrow> bool" where
  "is_subclass c d =
     (c = d \<or> (c = C_Ass AndThen \<and> d = C_Ass And) \<or> (c = C_Ass OrElse \<and> d = C_Ass Or)
      \<or> (c = C_String \<and> d = C_Aggregate)
      \<or> (c = C_DeltaMessageAggregate \<and> d = C_MessageAggregate))"

section \<open>Precedence and symbols\<close>

text \<open>
  The values of \<open>Precedence\<close> (\<open>rflx/rapidflux/expr.pyi\<close>): BOOLEAN_OPERATOR 1,
  RELATIONAL_OPERATOR 2, BINARY_ADDING_OPERATOR 3, UNARY_ADDING_OPERATOR 4,
  MULTIPLYING_OPERATOR 5, HIGHEST_PRECEDENCE_OPERATOR 6, LITERAL 7.  Five classes have no
  precedence and raise.
\<close>

definition is_bool_op :: "ass_op \<Rightarrow> bool" where
  "is_bool_op op = (op \<noteq> Add \<and> op \<noteq> Mul)"

fun ass_precedence :: "ass_op \<Rightarrow> nat" where
  "ass_precedence Add = 3"
| "ass_precedence Mul = 5"
| "ass_precedence _ = 1"

fun math_precedence :: "math_op \<Rightarrow> nat" where
  "math_precedence Sub = 3"
| "math_precedence Pow = 6"
| "math_precedence _ = 5"

fun precedence :: "expr \<Rightarrow> nat res" where
  "precedence (NotE _) = Inr 6"
| "precedence (Ass op _) = Inr (ass_precedence op)"
| "precedence (Neg _) = Inr 4"
| "precedence (MathBin op _ _) = Inr (math_precedence op)"
| "precedence (Relation _ _ _) = Inr 2"
| "precedence (ValueRange _ _) = Inl NotImplementedError"
| "precedence (QualifiedExpr _ _) = Inl NotImplementedError"
| "precedence (MessageAggregate _ _ _) = Inl NotImplementedError"
| "precedence (CaseExpr _ _) = Inl NotImplementedError"
| "precedence _ = Inr 7"

fun ass_symbol :: "ass_op \<Rightarrow> string" where
  "ass_symbol And = '' and ''"
| "ass_symbol AndThen = '' and then ''"
| "ass_symbol Or = '' or ''"
| "ass_symbol OrElse = '' or else ''"
| "ass_symbol Add = '' + ''"
| "ass_symbol Mul = '' * ''"

fun math_symbol :: "math_op \<Rightarrow> string" where
  "math_symbol Sub = '' - ''"
| "math_symbol Div = '' / ''"
| "math_symbol Pow = '' ** ''"
| "math_symbol Mod = '' mod ''"
| "math_symbol Rem = '' rem ''"

fun rel_symbol :: "rel_op \<Rightarrow> string" where
  "rel_symbol Less = '' < ''"
| "rel_symbol LessEqual = '' <= ''"
| "rel_symbol Equal = '' = ''"
| "rel_symbol GreaterEqual = '' >= ''"
| "rel_symbol Greater = '' > ''"
| "rel_symbol NotEqual = '' /= ''"
| "rel_symbol In = '' in ''"
| "rel_symbol NotIn = '' not in ''"

fun attribute_symbol :: "attribute \<Rightarrow> string" where
  "attribute_symbol Size = ''Size''"
| "attribute_symbol Length = ''Length''"
| "attribute_symbol First = ''First''"
| "attribute_symbol Last = ''Last''"
| "attribute_symbol ValidChecksum = ''Valid_Checksum''"
| "attribute_symbol Valid = ''Valid''"
| "attribute_symbol Present = ''Present''"
| "attribute_symbol HasData = ''Has_Data''"
| "attribute_symbol Head = ''Head''"
| "attribute_symbol Opaque = ''Opaque''"
| "attribute_symbol Constrained = ''Constrained''"

fun quantifier_keywords :: "quantifier \<Rightarrow> string \<times> string" where
  "quantifier_keywords ForAllOf = (''all'', ''of'')"
| "quantifier_keywords ForAllIn = (''all'', ''in'')"
| "quantifier_keywords ForSomeIn = (''some'', ''in'')"

section \<open>Numbers\<close>

text \<open>
  The constructor of \<open>Number\<close> stores its value as the bounds of a static type, 128-bit integers on
  the Rust side, and raises \<open>OverflowError\<close> for a value that does not fit.
\<close>

definition mk_number :: "int \<Rightarrow> expr res" where
  "mk_number v = (if - (2 ^ 127) \<le> v \<and> v < 2 ^ 127 then Inr (Number v 0) else Inl OverflowError)"

definition number_str :: "int \<Rightarrow> nat \<Rightarrow> string res" where
  "number_str v base =
     (let a = nat \<bar>v\<bar>;
          s = (if base = 0 then Inr (digits_of 10 a)
               else if base = 2 then Inr (''2#'' @ digits_of 2 a @ ''#'')
               else if base = 8 then Inr (''8#'' @ digits_of 8 a @ ''#'')
               else if base = 10 then Inr (''10#'' @ digits_of 10 a @ ''#'')
               else if base = 16 then Inr (''16#'' @ digits_of 16 a @ ''#'')
               else Inl NotImplementedError)
      in bind_res s (\<lambda>s. Inr (if v < 0 then ''(-'' @ s @ '')'' else s)))"

section \<open>Textual form\<close>

definition MAX_LINE_LENGTH :: nat where
  "MAX_LINE_LENGTH = 100"

text \<open>\<open>parenthesized\<close>: an operand that does not bind tighter than the operator is put in parentheses.\<close>

definition parenthesize :: "nat \<Rightarrow> nat res \<Rightarrow> string res \<Rightarrow> string res" where
  "parenthesize p op_prec s =
     bind_res op_prec (\<lambda>q. bind_res s (\<lambda>t.
       Inr (if q \<le> p then ''('' @ indent_next t 1 @ '')'' else t)))"

definition parenthesized :: "nat \<Rightarrow> expr \<times> string res \<Rightarrow> string res" where
  "parenthesized p es = parenthesize p (precedence (fst es)) (snd es)"

text \<open>
  \<open>BoolAssExpr\<close>: each further operand starts a line of its own, after the operator (whose symbol
  loses its leading space) and is indented by the width of the symbol.
\<close>

definition bool_ass_str :: "ass_op \<Rightarrow> string list \<Rightarrow> string" where
  "bool_ass_str op ss =
     (let sym = tl (ass_symbol op) in
      (case ss of
         [] \<Rightarrow> []
       | s # rest \<Rightarrow>
           s @ concat (map (\<lambda>t. newline_char # sym @ indent_next t (length sym)) rest)))"

text \<open>\<open>Add\<close>: a negative number or a negation is printed as a subtraction.\<close>

definition add_term_str :: "expr \<times> string res \<Rightarrow> expr \<times> string res \<Rightarrow> string res" where
  "add_term_str t neg_t =
     (case fst t of
        Number v b \<Rightarrow>
          if v < 0
          then bind_res (mk_number (- v)) (\<lambda>_. bind_res (parenthesized 3 neg_t) (\<lambda>s. Inr ('' - '' @ s)))
          else bind_res (parenthesized 3 t) (\<lambda>s. Inr ('' + '' @ s))
      | Neg _ \<Rightarrow> bind_res (parenthesized 3 neg_t) (\<lambda>s. Inr ('' - '' @ s))
      | _ \<Rightarrow> bind_res (parenthesized 3 t) (\<lambda>s. Inr ('' + '' @ s)))"

text \<open>
  The associative operators: \<open>ss\<close> are the operands with their texts, \<open>ns\<close> the negated operands with
  theirs (which only \<open>Add\<close> looks at).  Without operands the text is that of the neutral element.
\<close>

definition ass_str ::
    "ass_op \<Rightarrow> (expr \<times> string res) list \<Rightarrow> (expr \<times> string res) list \<Rightarrow> string res"
where
  "ass_str op ss ns =
     (if op = Add then
        (case ss of
           [] \<Rightarrow> Inr ''0''
         | s # rest \<Rightarrow> bind_res (snd s) (\<lambda>s0.
             bind_res (seq_res (map (\<lambda>(t, n). add_term_str t n) (zip rest (tl ns)))) (\<lambda>r.
               Inr (s0 @ concat r))))
      else if op = Mul then
        (if ss = [] then Inr ''1''
         else bind_res (seq_res (map (parenthesized 5) ss)) (\<lambda>r. Inr (join_str '' * '' r)))
      else if ss = [] then Inr (if op = And \<or> op = AndThen then ''True'' else ''False'')
      else bind_res (seq_res (map (parenthesized 1) ss)) (\<lambda>r. Inr (bool_ass_str op r)))"

text \<open>\<open>IfExpr\<close>: one line with normalised spaces if it is short enough, else one line per branch.\<close>

definition if_str :: "(string \<times> string) list \<Rightarrow> string option \<Rightarrow> string" where
  "if_str ces els =
     (let short = concat (map (\<lambda>(i, c, e).
                    if i = 0 then ''if '' @ c @ '' then '' @ e
                    else '' elsif '' @ c @ '' then '' @ e)
                  (zip [0..<length ces] ces))
                  @ (case els of None \<Rightarrow> [] | Some s \<Rightarrow> '' else '' @ s);
          short = join_str '' '' (split_ws short);
          nl = [newline_char];
          branch = (\<lambda>c e. nl @ indent c 4 @ nl @ '' then'' @ nl @ indent e 4);
          long = concat (map (\<lambda>(i, c, e).
                    if i = 0 then ''if'' @ branch c e else nl @ '' elsif'' @ branch c e)
                  (zip [0..<length ces] ces))
                  @ (case els of None \<Rightarrow> [] | Some s \<Rightarrow> nl @ '' else'' @ nl @ indent s 4)
      in ''('' @ (if length short > MAX_LINE_LENGTH then long else short) @ '')'')"

definition choice_str :: "ident + int \<Rightarrow> string" where
  "choice_str c = (case c of Inl i \<Rightarrow> i | Inr v \<Rightarrow>
     (if v < 0 then ''(-'' @ digits_of 10 (nat (- v)) @ '')'' else digits_of 10 (nat v)))"

definition case_str :: "string \<Rightarrow> ((ident + int) list \<times> string) list \<Rightarrow> string" where
  "case_str e choices =
     ''(case '' @ e @ '' is'' @ [newline_char]
     @ join_str ('','' @ [newline_char])
         (map (\<lambda>(c, s). ''      when '' @ join_str '' | '' (map choice_str c) @ '' => '' @ s) choices)
     @ '')''"

definition field_values_str :: "(ident \<times> string) list \<Rightarrow> string" where
  "field_values_str fs =
     (if fs = [] then ''null message''
      else join_str '', '' (map (\<lambda>(f, s). f @ '' => '' @ s) fs))"

text \<open>
  The function computes the texts of the operands first and then combines them; an operand without a
  precedence raises where the code calls \<open>parenthesized\<close>.
\<close>

fun expr_str :: "expr \<Rightarrow> string res" where
  "expr_str (NotE e) =
     bind_res (parenthesized 6 (e, expr_str e)) (\<lambda>s. Inr (''not '' @ s))"
| "expr_str (Ass op ts) =
     ass_str op
       (map (\<lambda>t. (t, expr_str t)) ts)
       (map (\<lambda>t. case t of
                Neg e \<Rightarrow> (e, expr_str e)
              | Number v b \<Rightarrow> (Number (- v) 0, number_str (- v) 0)
              | _ \<Rightarrow> (t, Inr [])) ts)"
| "expr_str (Number v b) = number_str v b"
| "expr_str (Neg e) = bind_res (parenthesized 4 (e, expr_str e)) (\<lambda>s. Inr (''-'' @ s))"
| "expr_str (MathBin op l r) =
     bind_res (parenthesized (math_precedence op) (l, expr_str l)) (\<lambda>s.
     bind_res (parenthesized (math_precedence op) (r, expr_str r)) (\<lambda>t.
       Inr (s @ math_symbol op @ t)))"
| "expr_str (TypeName i) = Inr i"
| "expr_str (Literal i) = Inr i"
| "expr_str (Variable i) = Inr i"
| "expr_str (Attribute a p) =
     bind_res (expr_str p) (\<lambda>s. Inr (s @ CHR 0x27 # attribute_symbol a))"
| "expr_str (Val p e) =
     bind_res (expr_str p) (\<lambda>s. bind_res (expr_str e) (\<lambda>t. Inr (s @ CHR 0x27 # ''Val ('' @ t @ '')'')))"
| "expr_str (Indexed p es) =
     bind_res (expr_str p) (\<lambda>s. bind_res (seq_res (map expr_str es)) (\<lambda>r.
       Inr (s @ '' ('' @ join_str '', '' r @ '')'')))"
| "expr_str (Selected p i) = bind_res (expr_str p) (\<lambda>s. Inr (s @ ''.'' @ i))"
| "expr_str (Call i es) =
     bind_res (seq_res (map expr_str es)) (\<lambda>r.
       let args = join_str '', '' r in
       Inr (i @ (if args = [] then [] else '' ('' @ args @ '')'')))"
| "expr_str (Slice p f l) =
     bind_res (expr_str p) (\<lambda>s. bind_res (expr_str f) (\<lambda>a. bind_res (expr_str l) (\<lambda>b.
       Inr (s @ '' ('' @ a @ '' .. '' @ b @ '')''))))"
| "expr_str UndefinedExpr = Inr ''__UNDEFINED__''"
| "expr_str (Aggregate es) =
     bind_res (seq_res (map expr_str es)) (\<lambda>r. Inr (''['' @ join_str '', '' r @ '']''))"
| "expr_str (StringE d) = Inr (CHR 0x22 # d @ [CHR 0x22])"
| "expr_str (Relation rel l r) =
     bind_res (parenthesized 2 (l, expr_str l)) (\<lambda>s.
     bind_res (parenthesized 2 (r, expr_str r)) (\<lambda>t.
       Inr (s @ rel_symbol rel @ t)))"
| "expr_str (IfExpr ces els) =
     bind_res (seq_res (map (\<lambda>(c, e). expr_str c) ces)) (\<lambda>cs.
     bind_res (seq_res (map (\<lambda>(c, e). expr_str e) ces)) (\<lambda>es.
       (case els of
          None \<Rightarrow> Inr (if_str (zip cs es) None)
        | Some x \<Rightarrow> bind_res (expr_str x) (\<lambda>s. Inr (if_str (zip cs es) (Some s))))))"
| "expr_str (Quantified q i it p) =
     bind_res (expr_str it) (\<lambda>s. bind_res (expr_str p) (\<lambda>t.
       Inr (''(for '' @ fst (quantifier_keywords q) @ '' '' @ i @ '' '' @ snd (quantifier_keywords q)
            @ '' '' @ s @ '' =>'' @ [newline_char] @ indent t 4 @ '')'')))"
| "expr_str (ValueRange l u) =
     bind_res (expr_str l) (\<lambda>s. bind_res (expr_str u) (\<lambda>t. Inr (s @ '' .. '' @ t)))"
| "expr_str (Conversion i e) = bind_res (expr_str e) (\<lambda>s. Inr (i @ '' ('' @ s @ '')''))"
| "expr_str (QualifiedExpr i e) =
     bind_res (expr_str e) (\<lambda>s.
       Inr (i @ CHR 0x27 # (case e of Aggregate _ \<Rightarrow> s | StringE _ \<Rightarrow> s | _ \<Rightarrow> ''('' @ s @ '')'')))"
| "expr_str (Comprehension i sq sel cond) =
     bind_res (expr_str sq) (\<lambda>s. bind_res (expr_str cond) (\<lambda>c. bind_res (expr_str sel) (\<lambda>t.
       Inr (''[for '' @ i @ '' in '' @ s @ '' if '' @ c @ '' => '' @ t @ '']''))))"
| "expr_str (MessageAggregate delta i fs) =
     bind_res (seq_res (map (\<lambda>(f, e). expr_str e) fs)) (\<lambda>ss.
       let body = field_values_str (zip (map fst fs) ss) in
       Inr (if delta then i @ '' with delta '' @ body else i @ CHR 0x27 # ''('' @ body @ '')''))"
| "expr_str (CaseExpr e cs) =
     bind_res (expr_str e) (\<lambda>s. bind_res (seq_res (map (\<lambda>(c, x). expr_str x) cs)) (\<lambda>ss.
       Inr (case_str s (zip (map fst cs) ss))))"

declare expr_str.simps [simp del]

section \<open>Comparison\<close>

text \<open>
  \<open>==\<close> dispatches on the classes: numbers compare by value, literals and variables by identifier,
  aggregates element by element, and all other classes by the textual form if one operand is an
  instance of the other's class.
\<close>

text \<open>
  The elements of an instance of \<open>Aggregate\<close>; those of a \<open>String\<close> are the codes of its characters.
\<close>

fun agg_elements :: "expr \<Rightarrow> expr list option" where
  "agg_elements (Aggregate es) = Some es"
| "agg_elements (StringE d) = Some (map (\<lambda>c. Number (int (char_code c)) 0) d)"
| "agg_elements _ = None"

fun expr_eq :: "expr \<Rightarrow> expr \<Rightarrow> bool res"
  and expr_list_eq :: "expr list \<Rightarrow> expr list \<Rightarrow> bool res" where
  "expr_eq a b =
     (case a of
        Number v _ \<Rightarrow> Inr (case b of Number w _ \<Rightarrow> v = w | _ \<Rightarrow> False)
      | Literal i \<Rightarrow> Inr (case b of Literal j \<Rightarrow> id_eq i j | _ \<Rightarrow> False)
      | Variable i \<Rightarrow> Inr (case b of Variable j \<Rightarrow> id_eq i j | _ \<Rightarrow> False)
      | StringE d \<Rightarrow> Inr (case agg_elements b of None \<Rightarrow> False
          | Some fs \<Rightarrow> list_all2 (\<lambda>c f. case f of Number w _ \<Rightarrow> int (char_code c) = w | _ \<Rightarrow> False) d fs)
      | Aggregate es \<Rightarrow> (case agg_elements b of None \<Rightarrow> Inr False
          | Some fs \<Rightarrow> if length es = length fs then expr_list_eq es fs else Inr False)
      | _ \<Rightarrow>
          if is_subclass (class_of b) (class_of a) \<or> is_subclass (class_of a) (class_of b)
          then bind_res (expr_str a) (\<lambda>s. bind_res (expr_str b) (\<lambda>t. Inr (s = t)))
          else Inr False)"
| "expr_list_eq [] fs = Inr True"
| "expr_list_eq (e # es) [] = Inr True"
| "expr_list_eq (e # es) (f # fs) =
     bind_res (expr_eq e f) (\<lambda>b. if b then expr_list_eq es fs else Inr False)"

declare expr_eq.simps [simp del]

definition opt_eq :: "expr option \<Rightarrow> expr option \<Rightarrow> bool res" where
  "opt_eq a b = (case (a, b) of (None, None) \<Rightarrow> Inr True | (Some x, Some y) \<Rightarrow> expr_eq x y | _ \<Rightarrow> Inr False)"

definition is_TRUE :: "expr \<Rightarrow> bool" where
  "is_TRUE e = (case e of Literal i \<Rightarrow> id_eq i ''True'' | _ \<Rightarrow> False)"

definition is_FALSE :: "expr \<Rightarrow> bool" where
  "is_FALSE e = (case e of Literal i \<Rightarrow> id_eq i ''False'' | _ \<Rightarrow> False)"

lemma expr_eq_TRUE: "expr_eq TRUE e = Inr (is_TRUE e)"
  by (cases e) (auto simp: expr_eq.simps is_TRUE_def id_eq_def)

lemma expr_eq_FALSE: "expr_eq FALSE e = Inr (is_FALSE e)"
  by (cases e) (auto simp: expr_eq.simps is_FALSE_def id_eq_def)

section \<open>Hashing\<close>

text \<open>
  \<open>__hash__\<close>: numbers hash by value, literals and variables by identifier, aggregates by their
  elements, all other expressions by the name of their class.  Equality of keys stands for equality
  of hash values (collisions between different keys only cost a comparison, which decides).
\<close>

datatype hash_key = H_Class expr_class | H_Int int | H_Id string | H_Tuple "hash_key list"

fun hash_of :: "expr \<Rightarrow> hash_key" where
  "hash_of (Number v _) = H_Int v"
| "hash_of (Literal i) = H_Id (lower i)"
| "hash_of (Variable i) = H_Id (lower i)"
| "hash_of (Aggregate es) = H_Tuple (map hash_of es)"
| "hash_of (StringE d) = H_Tuple (map (\<lambda>c. H_Int (int (char_code c))) d)"
| "hash_of e = H_Class (class_of e)"

text \<open>Comparison as a dictionary key.\<close>

definition key_eq :: "expr \<Rightarrow> expr \<Rightarrow> bool res" where
  "key_eq a b = (if hash_of a = hash_of b then expr_eq a b else Inr False)"

text \<open>\<open>rflx.common.unique\<close>: the first occurrence of each key, in order.\<close>

fun unique_aux :: "expr list \<Rightarrow> expr list \<Rightarrow> expr list res" where
  "unique_aux seen [] = Inr []"
| "unique_aux seen (e # es) =
     bind_res (any_res (\<lambda>s. key_eq s e) seen) (\<lambda>b.
       if b then unique_aux seen es
       else bind_res (unique_aux (seen @ [e]) es) (\<lambda>r. Inr (e # r)))"

definition unique :: "expr list \<Rightarrow> expr list res" where
  "unique es = unique_aux [] es"

text \<open>\<open>x in xs\<close>.\<close>

definition mem_expr :: "expr \<Rightarrow> expr list \<Rightarrow> bool res" where
  "mem_expr x xs = any_res (\<lambda>e. expr_eq e x) xs"

lemma unique_aux_subset: "unique_aux seen es = Inr r \<Longrightarrow> set r \<subseteq> set es"
  by (induction es arbitrary: seen r) (auto simp: bind_res_eq_Inr split: if_splits, blast+)

lemma unique_aux_no_fuel:
  "unique_aux seen es = Inl x \<Longrightarrow> \<exists>a\<in>set seen \<union> set es. \<exists>b\<in>set es. key_eq a b = Inl x"
proof (induction es arbitrary: seen)
  case Nil
  then show ?case by simp
next
  case (Cons e es)
  from Cons.prems consider
      (test) "any_res (\<lambda>s. key_eq s e) seen = Inl x"
    | (skip) "unique_aux seen es = Inl x"
    | (add) "unique_aux (seen @ [e]) es = Inl x"
    by (auto simp: bind_res_eq_Inl split: if_splits)
  then show ?case
  proof cases
    case test
    then show ?thesis by (auto dest!: any_res_Inl_mem)
  next
    case skip
    then show ?thesis using Cons.IH [of seen] by auto
  next
    case add
    then show ?thesis using Cons.IH [of "seen @ [e]"] by auto
  qed
qed

section \<open>Variables and search\<close>

text \<open>
  \<open>variables\<close> of the classes that define it; \<open>IfExpr\<close>, \<open>Aggregate\<close>, \<open>ValueRange\<close>, \<open>Indexed\<close>, \<open>Slice\<close>
  and \<open>QualifiedExpr\<close> inherit the default, which is the empty list, and \<open>Val\<close> raises.  The result of
  \<open>CaseExpr\<close> is in \<open>Expr_Ops\<close>, since it is computed from the simplified expression.
\<close>

fun findall :: "(expr \<Rightarrow> bool) \<Rightarrow> expr \<Rightarrow> expr list res" where
  "findall m (NotE e) = bind_res (findall m e) (\<lambda>r. Inr ((if m (NotE e) then [NotE e] else []) @ r))"
| "findall m (Ass op ts) =
     bind_res (seq_res (map (findall m) ts)) (\<lambda>r.
       Inr ((if m (Ass op ts) then [Ass op ts] else []) @ concat r))"
| "findall m (Neg e) = bind_res (findall m e) (\<lambda>r. Inr ((if m (Neg e) then [Neg e] else []) @ r))"
| "findall m (MathBin op a b) =
     bind_res (findall m a) (\<lambda>r. bind_res (findall m b) (\<lambda>q.
       Inr ((if m (MathBin op a b) then [MathBin op a b] else []) @ r @ q)))"
| "findall m (Relation op a b) =
     bind_res (findall m a) (\<lambda>r. bind_res (findall m b) (\<lambda>q.
       Inr ((if m (Relation op a b) then [Relation op a b] else []) @ r @ q)))"
| "findall m (Attribute a p) = (if m (Attribute a p) then Inr [Attribute a p] else findall m p)"
| "findall m (Val p e) = Inl NotImplementedError"
| "findall m (Selected p i) =
     bind_res (findall m p) (\<lambda>r. Inr ((if m (Selected p i) then [Selected p i] else []) @ r))"
| "findall m (Call i es) =
     bind_res (seq_res (map (findall m) es)) (\<lambda>r.
       Inr ((if m (Call i es) then [Call i es] else []) @ concat r))"
| "findall m (MessageAggregate d i fs) =
     bind_res (seq_res (map (\<lambda>(f, e). findall m e) fs)) (\<lambda>r.
       Inr ((if m (MessageAggregate d i fs) then [MessageAggregate d i fs] else []) @ concat r))"
| "findall m (CaseExpr e cs) =
     bind_res (findall m e) (\<lambda>q. bind_res (seq_res (map (\<lambda>(c, x). findall m x) cs)) (\<lambda>r.
       Inr ((if m (CaseExpr e cs) then [CaseExpr e cs] else []) @ q @ concat r)))"
| "findall m e = Inr (if m e then [e] else [])"

text \<open>Everything \<open>findall\<close> returns satisfies the test.\<close>

lemma findall_sound:
  "findall m e = Inr r \<Longrightarrow> x \<in> set r \<Longrightarrow> m x"
proof (induction m e arbitrary: r rule: findall.induct)
  case (2 m op ts)
  then obtain q where q: "seq_res (map (findall m) ts) = Inr q"
      and r: "r = (if m (Ass op ts) then [Ass op ts] else []) @ concat q"
    by (auto simp: bind_res_eq_Inr)
  then show ?case using 2 by (auto split: if_splits dest!: seq_res_map_mem [OF q])
next
  case (9 m i es)
  then obtain q where q: "seq_res (map (findall m) es) = Inr q"
      and r: "r = (if m (Call i es) then [Call i es] else []) @ concat q"
    by (auto simp: bind_res_eq_Inr)
  then show ?case using 9 by (auto split: if_splits dest!: seq_res_map_mem [OF q])
next
  case (10 m d i fs)
  then obtain q where q: "seq_res (map (\<lambda>(f, e). findall m e) fs) = Inr q"
      and r: "r = (if m (MessageAggregate d i fs) then [MessageAggregate d i fs] else []) @ concat q"
    by (auto simp: bind_res_eq_Inr)
  then show ?case using 10 by (fastforce split: if_splits dest!: seq_res_map_mem [OF q])
next
  case (11 m e cs)
  then obtain p q where p: "findall m e = Inr p"
      and q: "seq_res (map (\<lambda>(c, x). findall m x) cs) = Inr q"
      and r: "r = (if m (CaseExpr e cs) then [CaseExpr e cs] else []) @ p @ concat q"
    by (auto simp: bind_res_eq_Inr)
  then show ?case using 11 by (fastforce split: if_splits dest!: seq_res_map_mem [OF q])
qed (auto simp: bind_res_eq_Inr split: if_splits)

end
