(* ===== verification/Expr_Ops.thy ===== *)
theory Expr_Ops
  imports Expr
begin

text \<open>
  Operations on expressions (\<open>rflx/expr.py\<close>): negation (\<open>__neg__\<close>), simplification
  (\<open>simplified\<close>), the variables of an expression and substitution.  \<open>simplified\<close> and \<open>__neg__\<close> call
  each other on their own results, so both take fuel; \<open>Expr_Termination\<close> proves that the fuel given by
  \<open>simplified\<close> always suffices.
\<close>

section \<open>Arithmetic of associative operators\<close>

fun ass_operation :: "ass_op \<Rightarrow> int \<Rightarrow> int \<Rightarrow> int" where
  "ass_operation Add l r = l + r"
| "ass_operation Mul l r = l * r"
| "ass_operation And l r = (if l \<noteq> 0 then r else l)"
| "ass_operation AndThen l r = (if l \<noteq> 0 then r else l)"
| "ass_operation Or l r = (if l \<noteq> 0 then l else r)"
| "ass_operation OrElse l r = (if l \<noteq> 0 then l else r)"

fun neutral_element :: "ass_op \<Rightarrow> int" where
  "neutral_element Add = 0"
| "neutral_element Mul = 1"
| "neutral_element And = 1"
| "neutral_element AndThen = 1"
| "neutral_element Or = 0"
| "neutral_element OrElse = 0"

definition is_and :: "ass_op \<Rightarrow> bool" where
  "is_and op = (op = And \<or> op = AndThen)"

definition is_or :: "ass_op \<Rightarrow> bool" where
  "is_or op = (op = Or \<or> op = OrElse)"

text \<open>The pairs of complementary relations that the simplifier lists.\<close>

fun inverse_relation :: "rel_op \<Rightarrow> rel_op option" where
  "inverse_relation Less = Some GreaterEqual"
| "inverse_relation LessEqual = Some Greater"
| "inverse_relation Equal = Some NotEqual"
| "inverse_relation GreaterEqual = Some Less"
| "inverse_relation Greater = Some LessEqual"
| "inverse_relation NotEqual = Some Equal"
| "inverse_relation _ = None"

fun neg_relation :: "rel_op \<Rightarrow> rel_op" where
  "neg_relation Less = GreaterEqual"
| "neg_relation LessEqual = Greater"
| "neg_relation Equal = NotEqual"
| "neg_relation GreaterEqual = Less"
| "neg_relation Greater = LessEqual"
| "neg_relation NotEqual = Equal"
| "neg_relation In = NotIn"
| "neg_relation NotIn = In"

section \<open>Simplification of operand lists\<close>

text \<open>A relation and its inverse among the operands.\<close>

definition has_inverse :: "expr list \<Rightarrow> expr \<Rightarrow> bool res" where
  "has_inverse ts t =
     (case t of
        Relation r a b \<Rightarrow> (case inverse_relation r of
            Some r' \<Rightarrow> mem_expr (Relation r' a b) ts
          | None \<Rightarrow> Inr False)
      | _ \<Rightarrow> Inr False)"

text \<open>\<open>_simplified_boolean_expressions\<close>\<close>

definition simplify_boolean :: "ass_op \<Rightarrow> expr list \<Rightarrow> int \<Rightarrow> expr list res" where
  "simplify_boolean op terms tot =
     (if terms = [] then Inr [if tot \<noteq> 0 then TRUE else FALSE]
      else bind_res (unique terms) (\<lambda>ts.
           bind_res (any_res (has_inverse ts) ts) (\<lambda>found.
             if found then Inr [if is_and op then FALSE else TRUE]
             else Inr (ts @ (if tot \<noteq> neutral_element op
                             then [if tot \<noteq> 0 then TRUE else FALSE] else [])))))"

text \<open>
  \<open>_simplified_if_expressions\<close>: the head is merged with the first later operand that is an
  if-expression with a single branch, the same dependent expression and the same alternative.
\<close>

definition mergeable :: "(expr \<times> expr) list \<Rightarrow> expr option \<Rightarrow> expr \<Rightarrow> bool res" where
  "mergeable tc te u =
     (case u of
        IfExpr [(uc, ux)] ue \<Rightarrow>
          (case tc of
             [] \<Rightarrow> Inl IndexError
           | (c, x) # _ \<Rightarrow> bind_res (expr_eq ux x) (\<lambda>b. if b then opt_eq ue te else Inr False))
      | _ \<Rightarrow> Inr False)"

definition first_condition :: "expr \<Rightarrow> expr" where
  "first_condition u = (case u of IfExpr ((c, x) # _) _ \<Rightarrow> c | _ \<Rightarrow> u)"

fun find_merge ::
    "(expr \<times> expr) list \<Rightarrow> expr option \<Rightarrow> expr list \<Rightarrow> (expr list \<times> expr \<times> expr list) option res"
where
  "find_merge tc te [] = Inr None"
| "find_merge tc te (u # us) =
     bind_res (mergeable tc te u) (\<lambda>m.
       if m then Inr (Some ([], first_condition u, us))
       else bind_res (find_merge tc te us) (\<lambda>r.
         Inr (map_option (\<lambda>(p, c, q). (u # p, c, q)) r)))"

lemma find_merge_parts:
  "find_merge tc te us = Inr (Some (p, c, q)) \<Longrightarrow>
   \<exists>u. us = p @ u # q \<and> mergeable tc te u = Inr True \<and> c = first_condition u"
  by (induction us arbitrary: p) (auto simp: bind_res_eq_Inr split: if_splits)

function merge_ifs :: "(expr \<Rightarrow> expr res) \<Rightarrow> expr list \<Rightarrow> expr list res" where
  "merge_ifs s [] = Inr []"
| "merge_ifs s (t # us) =
     (case t of
        IfExpr tc te \<Rightarrow>
          bind_res (find_merge tc te us) (\<lambda>r.
            case r of
              None \<Rightarrow> bind_res (merge_ifs s us) (\<lambda>r. Inr (t # r))
            | Some (p, c, q) \<Rightarrow>
                (case tc of
                   [] \<Rightarrow> Inl IndexError
                 | (tcond, tx) # _ \<Rightarrow>
                     bind_res (s (Ass Or [tcond, c])) (\<lambda>c'.
                     bind_res (merge_ifs s (p @ q)) (\<lambda>r. Inr (IfExpr [(c', tx)] te # r)))))
      | _ \<Rightarrow> Inr (t # us))"
  by pat_completeness auto
termination
  by (relation "measure (\<lambda>(s, ts). length ts)") (auto dest!: find_merge_parts)

text \<open>\<open>list.remove\<close>: the first equal element goes.\<close>

fun remove_expr :: "expr \<Rightarrow> expr list \<Rightarrow> expr list res" where
  "remove_expr x [] = Inl ValueError"
| "remove_expr x (e # es) =
     bind_res (expr_eq e x) (\<lambda>b. if b then Inr es
       else bind_res (remove_expr x es) (\<lambda>r. Inr (e # r)))"

fun first_equal :: "expr res \<Rightarrow> expr list \<Rightarrow> expr option res" where
  "first_equal m [] = Inr None"
| "first_equal m (e # es) =
     bind_res m (\<lambda>x. bind_res (expr_eq e x) (\<lambda>b. if b then Inr (Some e) else first_equal m es))"

text \<open>
  The loop of \<open>Add.simplified\<close> over the reversed operands: an operand and its negation cancel.  The
  first argument is \<open>__neg__\<close>.
\<close>

fun cancel_terms :: "(expr \<Rightarrow> expr res) \<Rightarrow> expr list \<Rightarrow> expr list \<Rightarrow> expr list res" where
  "cancel_terms f [] acc = Inr acc"
| "cancel_terms f (t # ts) acc =
     bind_res (first_equal (f t) acc) (\<lambda>c.
       case c of
         Some x \<Rightarrow> bind_res (remove_expr x acc) (\<lambda>acc'. cancel_terms f ts acc')
       | None \<Rightarrow> cancel_terms f ts (t # acc))"

section \<open>Relations between literals\<close>

fun compare_with :: "rel_op \<Rightarrow> 'a::linorder \<Rightarrow> 'a \<Rightarrow> bool" where
  "compare_with Less x y = (x < y)"
| "compare_with LessEqual x y = (x \<le> y)"
| "compare_with Equal x y = (x = y)"
| "compare_with GreaterEqual x y = (x \<ge> y)"
| "compare_with Greater x y = (x > y)"
| "compare_with NotEqual x y = (x \<noteq> y)"
| "compare_with _ x y = False"

text \<open>Ordering of expressions is ordering of their texts.\<close>

fun compare_text :: "rel_op \<Rightarrow> string \<Rightarrow> string \<Rightarrow> bool" where
  "compare_text Less s t = str_less s t"
| "compare_text LessEqual s t = (str_less s t \<or> s = t)"
| "compare_text GreaterEqual s t = (str_less t s \<or> s = t)"
| "compare_text Greater s t = str_less t s"
| "compare_text _ s t = False"

definition compare_exprs :: "rel_op \<Rightarrow> expr \<Rightarrow> expr \<Rightarrow> bool res" where
  "compare_exprs r a b =
     (if r = Equal then expr_eq a b
      else if r = NotEqual then bind_res (expr_eq a b) (\<lambda>x. Inr (\<not> x))
      else bind_res (expr_str a) (\<lambda>s. bind_res (expr_str b) (\<lambda>t. Inr (compare_text r s t))))"

definition bool_expr :: "bool \<Rightarrow> expr" where
  "bool_expr b = (if b then TRUE else FALSE)"

text \<open>Comparison with a Boolean literal: \<open>X = True\<close> becomes \<open>X\<close>.\<close>

definition apply_op :: "expr \<Rightarrow> bool \<Rightarrow> expr" where
  "apply_op e invert = (if invert then NotE e else e)"

text \<open>\<open>Relation._simplified\<close> on the simplified operands; the quotients are exact fractions.\<close>

definition is_aggregate :: "expr \<Rightarrow> bool" where
  "is_aggregate e = (agg_elements e \<noteq> None)"

fun number_value :: "expr \<Rightarrow> int option" where
  "number_value (Number v _) = Some v"
| "number_value _ = None"

definition is_literal :: "expr \<Rightarrow> bool" where
  "is_literal e = (case e of Literal _ \<Rightarrow> True | _ \<Rightarrow> False)"

fun const_quotient :: "expr \<Rightarrow> (int \<times> int) option" where
  "const_quotient (MathBin Div (Number a _) (Number b _)) = Some (a, b)"
| "const_quotient _ = None"

definition simplify_relation :: "rel_op \<Rightarrow> expr \<Rightarrow> expr \<Rightarrow> expr res" where
  "simplify_relation r a b =
     bind_res (expr_eq a b) (\<lambda>same.
       if same \<and> (r = Equal \<or> r = LessEqual \<or> r = GreaterEqual) then Inr TRUE
       else if same \<and> r = NotEqual then Inr FALSE
       else if is_literal a \<and> is_literal b \<or> is_aggregate a \<and> is_aggregate b
       then bind_res (compare_exprs r a b) (\<lambda>x. Inr (bool_expr x))
       else (case (number_value a, number_value b) of
           (Some v, Some w) \<Rightarrow> Inr (bool_expr (compare_with r v w))
         | _ \<Rightarrow>
           (case (const_quotient a, const_quotient b) of
              (Some (p, q), Some (u, v)) \<Rightarrow>
                if q = 0 \<or> v = 0 then Inl ZeroDivisionError
                else Inr (bool_expr (compare_with r (Fract p q) (Fract u v)))
            | _ \<Rightarrow>
              if r = Equal \<or> r = NotEqual then
                if is_TRUE a \<or> is_FALSE a then Inr (apply_op b (is_FALSE a \<noteq> (r = NotEqual)))
                else if is_TRUE b \<or> is_FALSE b then Inr (apply_op a (is_FALSE b \<noteq> (r = NotEqual)))
                else Inr (Relation r a b)
              else Inr (Relation r a b))))"

section \<open>Constant folding of binary operators\<close>

text \<open>
  \<open>Number // Number\<close> folds an exact quotient only; a negative exponent yields a float, which the
  constructor of \<open>Number\<close> refuses with a \<open>TypeError\<close>, and zero to a negative power raises.
\<close>

definition fold_math :: "math_op \<Rightarrow> expr \<Rightarrow> expr \<Rightarrow> expr res" where
  "fold_math op l r =
     (case (number_value l, number_value r) of
        (Some a, Some b) \<Rightarrow>
          (case op of
             Sub \<Rightarrow> mk_number (a - b)
           | Div \<Rightarrow> if b = 0 then Inl (RecordFluxError ''division by zero'')
                    else if a mod b = 0 then mk_number (a div b)
                    else bind_res (mk_number a) (\<lambda>x. bind_res (mk_number b) (\<lambda>y. Inr (MathBin Div x y)))
           | Mod \<Rightarrow> if b = 0 then Inl (RecordFluxError ''modulo by zero'') else mk_number (a mod b)
           | Pow \<Rightarrow> if b < 0 then (if a = 0 then Inl ZeroDivisionError else Inl TypeError)
                    else mk_number (a ^ nat b)
           | Rem \<Rightarrow> Inr (MathBin Rem l r))
      | _ \<Rightarrow> Inr (MathBin op l r))"

section \<open>Simplification and negation\<close>

text \<open>
  The classes derived from \<open>Name\<close> compute their text when they are built, so that rebuilding one
  around a new prefix can raise.
\<close>

definition mk_name :: "expr \<Rightarrow> expr res" where
  "mk_name e = bind_res (expr_str e) (\<lambda>_. Inr e)"

text \<open>What \<open>AssExpr.simplified\<close> and its overrides do with the collected operands.\<close>

definition assemble :: "ass_op \<Rightarrow> expr list \<Rightarrow> expr" where
  "assemble op ts = (case ts of [t] \<Rightarrow> t | _ \<Rightarrow> Ass op ts)"

definition is_Add :: "expr \<Rightarrow> bool" where
  "is_Add e = (case e of Ass Add _ \<Rightarrow> True | _ \<Rightarrow> False)"

definition ass_terms :: "expr \<Rightarrow> expr list" where
  "ass_terms e = (case e of Ass _ ts \<Rightarrow> ts | _ \<Rightarrow> [])"

definition finish_ass ::
    "(expr \<Rightarrow> expr res) \<Rightarrow> (expr \<Rightarrow> expr res) \<Rightarrow> ass_op \<Rightarrow> int \<times> expr list \<Rightarrow> expr res"
where
  "finish_ass s f op tt =
     (let tot = fst tt; terms = snd tt in
      if is_bool_op op then
        bind_res (simplify_boolean op terms tot) (\<lambda>ts.
        bind_res (merge_ifs s ts) (\<lambda>ts.
          let e = assemble op ts in
          (case e of
             Ass op' ts' \<Rightarrow>
               if is_and op \<and> is_and op' \<and> list_ex is_FALSE ts' then Inr FALSE
               else if is_or op \<and> is_or op' \<and> list_ex is_TRUE ts' then Inr TRUE
               else Inr e
           | _ \<Rightarrow> Inr e)))
      else if terms = [] then mk_number tot
      else
        bind_res (if tot \<noteq> neutral_element op
                  then bind_res (mk_number tot) (\<lambda>x. Inr (terms @ [x])) else Inr terms) (\<lambda>ts.
        bind_res (merge_ifs s ts) (\<lambda>ts.
          let e = assemble op ts in
          if op = Add \<and> is_Add e
          then bind_res (cancel_terms f (rev (ass_terms e)) []) (\<lambda>ts. Inr (assemble Add ts))
          else Inr e)))"

fun simp_expr :: "nat \<Rightarrow> expr \<Rightarrow> expr res"
  and collect_terms :: "nat \<Rightarrow> ass_op \<Rightarrow> expr list \<Rightarrow> int \<Rightarrow> expr list \<Rightarrow> (int \<times> expr list) res"
  and neg_expr :: "nat \<Rightarrow> expr \<Rightarrow> expr res"
where
  "simp_expr 0 e = Inl OutOfFuel"
| "simp_expr (Suc n) (NotE e) =
     (if is_TRUE e then Inr FALSE
      else if is_FALSE e then Inr TRUE
      else (case e of
          Ass op ts \<Rightarrow>
            if is_bool_op op then
              bind_res (seq_res (map (\<lambda>t. bind_res (simp_expr n t) (\<lambda>t'. simp_expr n (NotE t'))) ts))
                (\<lambda>ts'. simp_expr n (Ass (if is_and op then Or else And) ts'))
            else bind_res (simp_expr n e) (\<lambda>e'. Inr (NotE e'))
        | Relation r a b \<Rightarrow>
            (case inverse_relation r of
               Some r' \<Rightarrow> bind_res (simp_expr n a) (\<lambda>a'. bind_res (simp_expr n b) (\<lambda>b'.
                 Inr (Relation r' a' b')))
             | None \<Rightarrow> bind_res (simp_expr n e) (\<lambda>e'. Inr (NotE e')))
        | _ \<Rightarrow> bind_res (simp_expr n e) (\<lambda>e'. Inr (NotE e'))))"
| "simp_expr (Suc n) (Ass op ts) =
     bind_res (collect_terms n op ts (neutral_element op) []) (\<lambda>tt.
       finish_ass (simp_expr n) (neg_expr n) op tt)"
| "simp_expr (Suc n) (Neg e) = bind_res (simp_expr n e) (neg_expr n)"
| "simp_expr (Suc n) (MathBin op l r) =
     bind_res (simp_expr n l) (\<lambda>l'. bind_res (simp_expr n r) (\<lambda>r'.
       if op = Sub then
         (case (number_value l', number_value r') of
            (Some _, Some _) \<Rightarrow> fold_math Sub l' r'
          | _ \<Rightarrow> bind_res (neg_expr n r') (\<lambda>m. Inr (Ass Add [l', m])))
       else fold_math op l' r'))"
| "simp_expr (Suc n) (Attribute a p) =
     bind_res (simp_expr n p) (\<lambda>p'. mk_name (Attribute a p'))"
| "simp_expr (Suc n) (Aggregate es) =
     bind_res (seq_res (map (simp_expr n) es)) (\<lambda>es'. Inr (Aggregate es'))"
| "simp_expr (Suc n) (Relation r a b) =
     bind_res (simp_expr n a) (\<lambda>a'. bind_res (simp_expr n b) (\<lambda>b'.
       if r = In \<or> r = NotIn then Inr (Relation r a' b') else simplify_relation r a' b'))"
| "simp_expr (Suc n) (IfExpr ces els) =
     bind_res (seq_res (map (\<lambda>(c, e). bind_res (simp_expr n c) (\<lambda>c'. bind_res (simp_expr n e) (\<lambda>e'.
                 Inr (c', e')))) ces)) (\<lambda>ces'.
     bind_res (case els of None \<Rightarrow> Inr None | Some e \<Rightarrow> bind_res (simp_expr n e) (\<lambda>e'. Inr (Some e')))
       (\<lambda>els'.
       case (ces', els') of
         ([(c, e)], Some x) \<Rightarrow>
           if is_TRUE c then Inr e
           else if is_FALSE c then Inr x
           else bind_res (expr_eq e x) (\<lambda>b. if b then Inr x else Inr (IfExpr ces' els'))
       | ([(c, e)], None) \<Rightarrow> if is_TRUE c then Inr e else Inr (IfExpr ces' els')
       | _ \<Rightarrow> Inr (IfExpr ces' els')))"
| "simp_expr (Suc n) (Quantified q i it p) =
     bind_res (simp_expr n it) (\<lambda>it'. bind_res (simp_expr n p) (\<lambda>p'. Inr (Quantified q i it' p')))"
| "simp_expr (Suc n) (ValueRange l u) =
     bind_res (simp_expr n l) (\<lambda>l'. bind_res (simp_expr n u) (\<lambda>u'. Inr (ValueRange l' u')))"
| "simp_expr (Suc n) (Conversion i e) = bind_res (simp_expr n e) (\<lambda>e'. Inr (Conversion i e'))"
| "simp_expr (Suc n) (QualifiedExpr i e) = bind_res (simp_expr n e) (\<lambda>e'. Inr (QualifiedExpr i e'))"
| "simp_expr (Suc n) (Comprehension i sq sel cond) =
     bind_res (simp_expr n sq) (\<lambda>sq'. bind_res (simp_expr n sel) (\<lambda>sel'.
     bind_res (simp_expr n cond) (\<lambda>cond'. Inr (Comprehension i sq' sel' cond'))))"
| "simp_expr (Suc n) (MessageAggregate d i fs) =
     bind_res (seq_res (map (\<lambda>(f, e). bind_res (simp_expr n e) (\<lambda>e'. Inr (f, e'))) fs)) (\<lambda>fs'.
       Inr (MessageAggregate d i fs'))"
| "simp_expr (Suc n) (CaseExpr e cs) =
     bind_res (simp_expr n e) (\<lambda>e'.
     bind_res (seq_res (map (\<lambda>(c, x). bind_res (simp_expr n x) (\<lambda>x'. Inr (c, x'))) cs)) (\<lambda>cs'.
       Inr (CaseExpr e' cs')))"
| "simp_expr (Suc n) e = Inr e"
| "collect_terms 0 op ts tot acc = Inl OutOfFuel"
| "collect_terms (Suc n) op [] tot acc = Inr (tot, acc)"
| "collect_terms (Suc n) op (t # ts) tot acc =
     bind_res (simp_expr n t) (\<lambda>t'.
       if is_TRUE t' then collect_terms n op ts (ass_operation op tot 1) acc
       else if is_FALSE t' then collect_terms n op ts (ass_operation op tot 0) acc
       else (case t' of
           Number v _ \<Rightarrow> collect_terms n op ts (ass_operation op tot v) acc
         | Ass op' ts' \<Rightarrow>
             if is_subclass (C_Ass op') (C_Ass op) then collect_terms n op (ts @ ts') tot acc
             else collect_terms n op ts tot (acc @ [t'])
         | _ \<Rightarrow> collect_terms n op ts tot (acc @ [t'])))"
| "neg_expr n (NotE e) = Inr e"
| "neg_expr n (Ass op ts) =
     (if op = Add then bind_res (seq_res (map (neg_expr n) ts)) (\<lambda>ts'. Inr (Ass Add ts'))
      else if op = Mul then simp_expr n (Ass Mul (ts @ [Number (-1) 0]))
      else Inl NotImplementedError)"
| "neg_expr n (Number v b) = mk_number (- v)"
| "neg_expr n (Neg e) = Inr e"
| "neg_expr n (MathBin op l r) =
     (if op = Sub then Inr (MathBin Sub r l)
      else if op = Div then bind_res (neg_expr n l) (\<lambda>l'. Inr (MathBin Div l' r))
      else Inr (Neg (MathBin op l r)))"
| "neg_expr n (Relation r a b) = Inr (Relation (neg_relation r) a b)"
| "neg_expr n (IfExpr ces els) = Inr (Ass Mul [Number (-1) 0, IfExpr ces els])"
| "neg_expr n (Variable i) = Inr (Neg (Variable i))"
| "neg_expr n (Attribute a p) = Inr (Neg (Attribute a p))"
| "neg_expr n (Val p e) = Inr (Neg (Val p e))"
| "neg_expr n (Indexed p es) = Inr (Neg (Indexed p es))"
| "neg_expr n (Selected p i) = Inr (Neg (Selected p i))"
| "neg_expr n (Call i es) = Inr (Neg (Call i es))"
| "neg_expr n e = Inl NotImplementedError"

end
