(* ===== verification/Expr_Termination.thy ===== *)
theory Expr_Termination
  imports Expr_Ops
begin

text \<open>
  The simplifier of expressions always returns.  \<open>simplified\<close>, its work list over the operands of an
  associative operator and \<open>__neg__\<close> call each other on expressions they have built, so no structural
  order decreases.  The order used here is a weight that simplification never increases and
  that each call decreases: every call of the recursion with fuel above the weight of its argument
  ends with a value no heavier than the argument, or with an exception of the program.
\<close>

section \<open>Texts and comparisons use no fuel\<close>

lemma precedence_returns: "returns (\<lambda>_. True) (precedence e)"
  by (cases e) auto

lemma parenthesized_returns:
  "returns (\<lambda>_. True) (snd es) \<Longrightarrow> returns (\<lambda>_. True) (parenthesized p es)"
  by (auto simp: parenthesized_def parenthesize_def
      intro!: returns_bind [where Q = "\<lambda>_. True"] precedence_returns)

lemma number_str_returns: "returns (\<lambda>_. True) (number_str v b)"
  by (auto simp: number_str_def Let_def)

lemma mk_number_returns: "returns (\<lambda>e. e = Number v 0) (mk_number v)"
  by (auto simp: mk_number_def)

lemma add_term_str_returns:
  "returns (\<lambda>_. True) (snd t) \<Longrightarrow> returns (\<lambda>_. True) (snd u) \<Longrightarrow> returns (\<lambda>_. True) (add_term_str t u)"
  by (auto simp: add_term_str_def intro!: returns_bind [where Q = "\<lambda>_. True"] parenthesized_returns
      returns_mono [OF mk_number_returns] split: expr.splits)

lemma ass_str_returns:
  assumes ss: "\<And>s. s \<in> set ss \<Longrightarrow> returns (\<lambda>_. True) (snd s)"
    and ns: "\<And>s. s \<in> set ns \<Longrightarrow> returns (\<lambda>_. True) (snd s)"
  shows "returns (\<lambda>_. True) (ass_str op ss ns)"
proof -
  have "returns (\<lambda>_. True) (add_term_str t n)" if "(t, n) \<in> set (zip (tl ss) (tl ns))" for t n
  proof (rule add_term_str_returns)
    show "returns (\<lambda>_. True) (snd t)"
      using set_zip_leftD [OF that] ss by (cases ss) auto
    show "returns (\<lambda>_. True) (snd n)"
      using set_zip_rightD [OF that] ns by (cases ns) auto
  qed
  then have "returns (\<lambda>_. True) (seq_res (map (\<lambda>(t, n). add_term_str t n) (zip (tl ss) (tl ns))))"
    by (auto intro!: returns_seq_res)
  note terms = this
  show ?thesis
  proof (cases ss)
    case Nil
    then show ?thesis by (simp add: ass_str_def number_str_returns)
  next
    case (Cons x xs)
    have "returns (\<lambda>_. True) (parenthesized p x)" for p
      using ss Cons by (intro parenthesized_returns) auto
    moreover have "returns (\<lambda>_. True) (snd x)" using ss Cons by auto
    moreover have "returns (\<lambda>_. True) (seq_res (map (parenthesized p) xs))" for p
      using ss Cons by (intro returns_seq_res) (auto intro!: parenthesized_returns)
    ultimately show ?thesis
      using terms Cons
      by (auto simp: ass_str_def split: list.splits intro!: returns_bind [where Q = "\<lambda>_. True"])
  qed
qed

lemma expr_str_returns: "returns (\<lambda>_. True) (expr_str e)"
proof (induction e rule: expr_str.induct)
  case (2 op ts)
  then show ?case
    by (auto simp: expr_str.simps number_str_returns intro!: ass_str_returns split: expr.splits)
next
  case (19 ces els)
  then show ?case
    by (auto simp: expr_str.simps intro!: returns_bind [where Q = "\<lambda>_. True"] returns_seq_res
        split: option.splits)
qed (auto simp: expr_str.simps number_str_returns Let_def
      intro!: returns_bind [where Q = "\<lambda>_. True"] returns_seq_res parenthesized_returns)

lemma expr_eq_returns: "returns (\<lambda>_. True) (expr_eq a b)"
  and expr_list_eq_returns: "returns (\<lambda>_. True) (expr_list_eq es fs)"
proof (induction a b and es fs rule: expr_eq_expr_list_eq.induct)
  case (1 a b)
  have "returns (\<lambda>_. True) (bind_res (expr_str a) (\<lambda>s. bind_res (expr_str b) (\<lambda>t. Inr (s = t))))"
    by (intro returns_bind [OF expr_str_returns]) simp
  with 1 show ?case
    by (subst expr_eq.simps) (auto split: expr.splits option.splits)
qed (auto intro!: returns_bind [where Q = "\<lambda>_. True"])

lemma mem_expr_returns: "returns (\<lambda>_. True) (mem_expr x xs)"
  by (auto simp: mem_expr_def intro!: returns_any_res expr_eq_returns)

lemma key_eq_returns: "returns (\<lambda>_. True) (key_eq a b)"
  by (simp add: key_eq_def expr_eq_returns)

lemma opt_eq_returns: "returns (\<lambda>_. True) (opt_eq a b)"
  by (auto simp: opt_eq_def expr_eq_returns split: option.splits)

lemma compare_exprs_returns: "returns (\<lambda>_. True) (compare_exprs r a b)"
  by (auto simp: compare_exprs_def
      intro!: returns_bind [where Q = "\<lambda>_. True"] expr_str_returns expr_eq_returns)

lemmas text_returns =
  expr_str_returns expr_eq_returns mem_expr_returns key_eq_returns opt_eq_returns compare_exprs_returns

section \<open>Weight\<close>

fun weight :: "expr \<Rightarrow> nat" where
  "weight (NotE e) = 2 * weight e"
| "weight (Ass op ts) = 3 + sum_list (map weight ts)"
| "weight (Neg e) = 2 * weight e"
| "weight (MathBin op l r) = 3 + weight l + (if op = Sub then 2 * weight r else weight r)"
| "weight (Attribute a p) = 2 + weight p"
| "weight (Selected p i) = 2 + weight p"
| "weight (Call i es) = 2 + sum_list (map weight es)"
| "weight (Aggregate es) = 3 + sum_list (map weight es)"
| "weight (Relation r a b) = 3 + 2 * weight a + 2 * weight b"
| "weight (IfExpr ces els) =
     5 + sum_list (map (\<lambda>(c, e). weight c + weight e) ces) + (case els of None \<Rightarrow> 0 | Some e \<Rightarrow> weight e)"
| "weight (Quantified q i it p) = 3 + weight it + weight p"
| "weight (ValueRange l u) = 3 + weight l + weight u"
| "weight (Conversion i e) = 3 + weight e"
| "weight (QualifiedExpr i e) = 3 + weight e"
| "weight (Comprehension i sq sel cond) = 3 + weight sq + weight sel + weight cond"
| "weight (MessageAggregate d i fs) = 3 + sum_list (map (\<lambda>(f, e). weight e) fs)"
| "weight (CaseExpr e cs) = 3 + weight e + sum_list (map (\<lambda>(c, x). weight x) cs)"
| "weight e = 2"

abbreviation weights :: "expr list \<Rightarrow> nat" where
  "weights ts \<equiv> sum_list (map weight ts)"

lemma weight_ge_2: "2 \<le> weight e"
  by (induction e rule: weight.induct) auto

lemma weight_mem: "t \<in> set ts \<Longrightarrow> weight t \<le> weights ts"
  by (induction ts) auto

lemma weights_mono: "list_all2 (\<lambda>x y. weight y \<le> weight x) xs ys \<Longrightarrow> weights ys \<le> weights xs"
  by (induction rule: list_all2_induct) auto

lemma weights_double: "list_all2 (\<lambda>x y. weight y \<le> 2 * weight x) xs ys \<Longrightarrow> weights ys \<le> 2 * weights xs"
  by (induction rule: list_all2_induct) auto

text \<open>The postcondition of every step: a value, if there is one, is not heavier than the bound.\<close>

abbreviation at_most :: "nat \<Rightarrow> expr res \<Rightarrow> bool" where
  "at_most k m \<equiv> returns (\<lambda>e. weight e \<le> k) m"

lemma mk_number_at_most: "2 \<le> k \<Longrightarrow> at_most k (mk_number v)"
  by (rule returns_mono [OF mk_number_returns]) simp

lemma mk_name_at_most: "weight e \<le> k \<Longrightarrow> at_most k (mk_name e)"
  by (auto simp: mk_name_def intro!: returns_bind [OF expr_str_returns])

lemma fold_math_at_most:
  assumes "weight (MathBin op l r) \<le> k"
  shows "at_most k (fold_math op l r)"
proof -
  have "2 \<le> k" using assms weight_ge_2 [of "MathBin op l r"] by linarith
  have div: "at_most k (bind_res (mk_number a) (\<lambda>x. bind_res (mk_number b) (\<lambda>y. Inr (MathBin Div x y))))"
    for a b
    using assms weight_ge_2 [of l] weight_ge_2 [of r]
    by (intro returns_bind [OF mk_number_returns]) (auto split: if_splits)
  from assms show ?thesis
    using \<open>2 \<le> k\<close>
    by (auto simp: fold_math_def intro!: mk_number_at_most div split: option.splits math_op.splits)
qed

lemma unique_aux_returns: "returns (\<lambda>r. weights r \<le> weights es) (unique_aux seen es)"
proof (induction es arbitrary: seen)
  case Nil
  then show ?case by simp
next
  case (Cons e es)
  show ?case
    using Cons.IH
    by (auto intro!: returns_bind [where Q = "\<lambda>_. True"] returns_any_res key_eq_returns
        returns_bind [OF Cons.IH] returns_mono [OF Cons.IH])
qed

lemma has_inverse_returns: "returns (\<lambda>_. True) (has_inverse ts t)"
  by (auto simp: has_inverse_def mem_expr_returns split: expr.splits option.splits)

lemma simplify_boolean_returns:
  assumes "2 \<le> k" "weights terms \<le> k"
    and "tot \<noteq> neutral_element op \<Longrightarrow> weights terms + 2 \<le> k"
  shows "returns (\<lambda>ts. weights ts \<le> k) (simplify_boolean op terms tot)"
  using assms
  by (auto simp: simplify_boolean_def unique_def
      intro!: returns_bind [OF unique_aux_returns] returns_bind [where Q = "\<lambda>_. True"]
        returns_any_res has_inverse_returns)

lemma mergeable_returns: "returns (\<lambda>_. True) (mergeable tc te u)"
  by (auto simp: mergeable_def text_returns intro!: returns_bind [OF expr_eq_returns]
      split: expr.splits list.splits)

lemma find_merge_returns: "returns (\<lambda>_. True) (find_merge tc te us)"
  by (induction us) (auto intro!: returns_bind [OF mergeable_returns] returns_bind [where Q = "\<lambda>_. True"])

lemma mergeable_weight:
  assumes "mergeable tc te u = Inr True"
  shows "weight (first_condition u) + 7 \<le> weight u"
  using assms
  by (auto simp: mergeable_def first_condition_def weight_ge_2 split: expr.splits list.splits prod.splits
      intro!: trans_le_add1)

lemma merge_ifs_returns:
  assumes s: "\<And>e. weight e \<le> k \<Longrightarrow> at_most (weight e) (s e)"
    and "weights ts \<le> k"
  shows "returns (\<lambda>r. weights r \<le> weights ts) (merge_ifs s ts)"
  using assms(2)
proof (induction "length ts" arbitrary: ts rule: less_induct)
  case less
  show ?case
  proof (cases ts)
    case Nil
    then show ?thesis by simp
  next
    case [simp]: (Cons t us)
    have rest: "returns (\<lambda>r. weights r \<le> weights vs) (merge_ifs s vs)"
      if "length vs \<le> length us" "weights vs \<le> weights us" for vs
      using less.hyps [of vs] less.prems that by simp
    show ?thesis
    proof (cases "\<exists>tc te. t = IfExpr tc te")
      case False
      then show ?thesis by (auto split: expr.splits)
    next
      case True
      then obtain tc te where t [simp]: "t = IfExpr tc te" by blast
      show ?thesis
      proof (simp del: weight.simps, rule returns_bind [OF find_merge_returns], goal_cases)
        case (1 r)
        show ?case
        proof (cases r)
          case None
          then show ?thesis
            by (auto intro!: returns_bind [OF rest [of us]])
        next
          case [simp]: (Some pcq)
          obtain p c q where [simp]: "pcq = (p, c, q)" by (cases pcq)
          obtain u where us [simp]: "us = p @ u # q" and m: "mergeable tc te u = Inr True"
            and c: "c = first_condition u"
            using find_merge_parts [of tc te us p c q] 1 by auto
          show ?thesis
          proof (cases tc)
            case Nil
            then show ?thesis by simp
          next
            case [simp]: (Cons cx tc')
            obtain tcond tx where [simp]: "cx = (tcond, tx)" by (cases cx)
            have or: "at_most (3 + (weight tcond + weight c)) (s (Ass Or [tcond, c]))"
              using s [of "Ass Or [tcond, c]"] less.prems mergeable_weight [OF m] c by simp
            have "weights (p @ q) + weight u = weights us" by simp
            then have pq: "returns (\<lambda>r. weights r \<le> weights (p @ q)) (merge_ifs s (p @ q))"
              using rest [of "p @ q"] by simp
            have "returns (\<lambda>r. weights r \<le> weights ts)
                (bind_res (s (Ass Or [tcond, c])) (\<lambda>c'.
                 bind_res (merge_ifs s (p @ q)) (\<lambda>r. Inr (IfExpr [(c', tx)] te # r))))"
              using mergeable_weight [OF m] c
              by (intro returns_bind [OF or] returns_bind [OF pq]) simp_all
            then show ?thesis by simp
          qed
        qed
      qed
    qed
  qed
qed

lemma remove_expr_returns: "returns (\<lambda>r. weights r \<le> weights es) (remove_expr x es)"
  by (induction es)
     (auto intro!: returns_bind [OF expr_eq_returns] returns_bind [where Q = "\<lambda>r. weights r \<le> weights _"])

lemma first_equal_returns: "returns (\<lambda>_. True) m \<Longrightarrow> returns (\<lambda>_. True) (first_equal m es)"
  by (induction es) (auto intro!: returns_bind [where Q = "\<lambda>_. True"] expr_eq_returns)

lemma cancel_terms_returns:
  "(\<And>t. t \<in> set ts \<Longrightarrow> returns (\<lambda>_. True) (f t)) \<Longrightarrow>
   returns (\<lambda>r. weights r \<le> weights ts + weights acc) (cancel_terms f ts acc)"
proof (induction ts arbitrary: acc)
  case Nil
  then show ?case by simp
next
  case (Cons t ts)
  have rec: "returns (\<lambda>r. weights r \<le> weights ts + weights acc') (cancel_terms f ts acc')" for acc'
    using Cons by simp
  show ?case
    using Cons.prems
    by (auto intro!: returns_bind [OF first_equal_returns] returns_bind [OF remove_expr_returns]
        returns_mono [OF rec] split: option.splits)
qed

lemma if_at_most: "at_most k m \<Longrightarrow> at_most k m' \<Longrightarrow> at_most k (if b then m else m')"
  by simp

lemma simplify_relation_at_most:
  assumes "weight (Relation r a b) \<le> k"
  shows "at_most k (simplify_relation r a b)"
proof -
  have "2 \<le> k" using assms weight_ge_2 [of "Relation r a b"] by linarith
  then have bool [simp]: "at_most k (Inr (bool_expr x))" for x
    by (simp add: bool_expr_def)
  have rel [simp]: "at_most k (Inr (Relation r a b))" using assms by simp
  have op [simp]: "at_most k (Inr (apply_op a i))" "at_most k (Inr (apply_op b i))" for i
    using assms by (simp_all add: apply_op_def)
  have cmp: "at_most k (bind_res (compare_exprs r a b) (\<lambda>x. Inr (bool_expr x)))"
    by (rule returns_bind [OF compare_exprs_returns]) (rule bool)
  have tf [simp]: "at_most k (Inr TRUE)" "at_most k (Inr FALSE)"
    using \<open>2 \<le> k\<close> by simp_all
  show ?thesis
    unfolding simplify_relation_def
    apply (rule returns_bind [OF expr_eq_returns])
    apply (intro if_at_most tf cmp)
    apply (simp only: split: option.split prod.split)
    apply (intro allI impI conjI if_at_most bool op rel; simp)
    done
qed


section \<open>The simplifier has enough fuel\<close>

definition simp_ok :: "nat \<Rightarrow> bool" where
  "simp_ok n = (\<forall>e. weight e < n \<longrightarrow> at_most (weight e) (simp_expr n e))"

definition collect_ok :: "nat \<Rightarrow> bool" where
  "collect_ok n = (\<forall>op ts tot acc. 1 + weights ts < n \<longrightarrow>
     returns (\<lambda>(tot', acc'). weights acc' + (if tot' = tot then 0 else 2) \<le> weights acc + weights ts)
       (collect_terms n op ts tot acc))"

lemma simp_okD: "simp_ok n \<Longrightarrow> weight e < n \<Longrightarrow> weight e \<le> k \<Longrightarrow> at_most k (simp_expr n e)"
  unfolding simp_ok_def by (blast intro: returns_mono order_trans)

lemma collect_okD:
  "collect_ok n \<Longrightarrow> 1 + weights ts < n \<Longrightarrow>
   returns (\<lambda>(tot', acc'). weights acc' + (if tot' = tot then 0 else 2) \<le> weights acc + weights ts)
     (collect_terms n op ts tot acc)"
  unfolding collect_ok_def by blast

lemma neg_ok:
  assumes "simp_ok n" "weight e + 2 < n \<or> weight e \<le> 2"
  shows "at_most (2 * weight e) (neg_expr n e)"
  using assms(2)
proof (induction e)
  case (Ass op ts)
  then have w: "weights ts + 5 < n" by simp
  have Mul: "at_most (2 * weight (Ass Mul ts)) (simp_expr n (Ass Mul (ts @ [Number (-1) 0])))"
    using w by (intro simp_okD [OF assms(1)]) simp_all
  have t: "returns (\<lambda>t'. weight t' \<le> 2 * weight t) (neg_expr n t)" if "t \<in> set ts" for t
    using Ass.IH [OF that] weight_mem [OF that] w by simp
  have Add: "at_most (2 * weight (Ass Add ts))
      (bind_res (seq_res (map (neg_expr n) ts)) (\<lambda>ts'. Inr (Ass Add ts')))"
    using t by (intro returns_bind [OF returns_map [where P = "\<lambda>t t'. weight t' \<le> 2 * weight t"]])
      (auto dest: weights_double)
  show ?case
    using Mul Add by simp
next
  case (MathBin op l r)
  have "weight l + 2 < n"
    using MathBin.prems weight_ge_2 [of l] by (auto split: if_splits)
  then have "at_most (2 * weight (MathBin Div l r)) (bind_res (neg_expr n l) (\<lambda>l'. Inr (MathBin Div l' r)))"
    using MathBin.IH(1) by (intro returns_bind [where Q = "\<lambda>e. weight e \<le> 2 * weight l"]) simp_all
  then show ?case by simp
qed (auto intro!: mk_number_at_most)

lemma negD:
  "simp_ok n \<Longrightarrow> weight e + 2 < n \<or> weight e \<le> 2 \<Longrightarrow> 2 * weight e \<le> k \<Longrightarrow> at_most k (neg_expr n e)"
  using neg_ok by (blast intro: returns_mono order_trans)

lemma collect_step:
  assumes s: "simp_ok n" and c: "collect_ok n"
  shows "collect_ok (Suc n)"
  unfolding collect_ok_def
proof (intro allI impI)
  fix op :: ass_op and ts acc :: "expr list" and tot :: int
  assume w: "1 + weights ts < Suc n"
  let ?Q = "\<lambda>us. \<lambda>(tot'::int, acc'). weights acc' + (if tot' = tot then 0 else 2) \<le> weights acc + weights us"
  show "returns (?Q ts) (collect_terms (Suc n) op ts tot acc)"
  proof (cases ts)
    case Nil
    then show ?thesis by simp
  next
    case (Cons t us)
    have t: "at_most (weight t) (simp_expr n t)"
      using w Cons by (intro simp_okD [OF s]) simp_all
    have rec: "returns (\<lambda>(tot', acc'). weights acc' + (if tot' = tot1 then 0 else 2) \<le> weights acc1 + weights vs)
        (collect_terms n op vs tot1 acc1)" if "weights vs + 2 \<le> weights ts" for vs tot1 acc1
      using c w that unfolding collect_ok_def by simp
    have num: "returns (?Q ts) (collect_terms n op us tot1 acc)" for tot1
      using weight_ge_2 [of t] Cons
      by (intro returns_mono [OF rec]) (auto split: if_splits)
    have keep: "returns (?Q ts) (collect_terms n op us tot (acc @ [t']))" if "weight t' \<le> weight t" for t'
      using weight_ge_2 [of t] Cons that
      by (intro returns_mono [OF rec]) (auto split: if_splits)
    have flat: "returns (?Q ts) (collect_terms n op (us @ vs) tot acc)" if "weight (Ass op' vs) \<le> weight t" for op' vs
      using Cons that by (intro returns_mono [OF rec]) (auto split: if_splits)
    show ?thesis
      unfolding Cons collect_terms.simps unfolding Cons [symmetric]
      by (rule returns_bind [OF t]) (auto simp: num keep flat split: expr.split)
  qed
qed

lemma assemble_weight: "weights ts \<le> max 2 k \<Longrightarrow> weight (assemble op ts) \<le> 3 + k"
  using weight_ge_2 [of "ts ! 0"] weight_ge_2 [of "ts ! 1"]
  by (auto simp: assemble_def max_def split: list.splits if_splits)

lemma assemble_terms: "t \<in> set (ass_terms (assemble op ts)) \<Longrightarrow> weight t \<le> weights ts"
  using weight_mem [of t]
  by (fastforce simp: assemble_def ass_terms_def split: list.splits expr.splits)

lemma ass_terms_weight: "is_Add e \<Longrightarrow> e = assemble op ts \<Longrightarrow> weights (ass_terms e) \<le> weights ts"
  by (auto simp: assemble_def ass_terms_def is_Add_def split: list.splits expr.splits ass_op.splits)

lemma finish_ass_at_most:
  assumes s: "simp_ok n" and k: "3 + k \<le> n"
    and w: "weights (snd tt) + (if fst tt = neutral_element op then 0 else 2) \<le> k"
  shows "at_most (3 + k) (finish_ass (simp_expr n) (neg_expr n) op tt)"
proof -
  have merge: "returns (\<lambda>r. weights r \<le> weights ts) (merge_ifs (simp_expr n) ts)"
    if "weights ts \<le> max 2 k" for ts
    using that k by (intro merge_ifs_returns [where k = "max 2 k"] simp_okD [OF s]) auto
  have bool: "at_most (3 + k)
      (bind_res (simplify_boolean op (snd tt) (fst tt)) (\<lambda>ts.
        bind_res (merge_ifs (simp_expr n) ts) (\<lambda>ts.
          let e = assemble op ts in
          (case e of
             Ass op' ts' \<Rightarrow>
               if is_and op \<and> is_and op' \<and> list_ex is_FALSE ts' then Inr FALSE
               else if is_or op \<and> is_or op' \<and> list_ex is_TRUE ts' then Inr TRUE
               else Inr e
           | _ \<Rightarrow> Inr e))))"
  proof (rule returns_bind [OF simplify_boolean_returns [where k = "max 2 k"]], goal_cases)
    case (4 ts)
    show ?case
    proof (rule returns_bind [OF merge], rule 4(2), goal_cases)
      case (1 us)
      then have "weight (assemble op us) \<le> 3 + k"
        using 4 by (intro assemble_weight) simp
      then show ?case
        by (auto simp: Let_def split: expr.split)
    qed
  qed (use w in \<open>auto split: if_splits\<close>)
  have num: "returns (\<lambda>ts. weights ts \<le> k)
      (if fst tt \<noteq> neutral_element op then bind_res (mk_number (fst tt)) (\<lambda>x. Inr (snd tt @ [x]))
       else Inr (snd tt))"
    using w by (auto intro!: returns_bind [OF mk_number_returns])
  have arith: "at_most (3 + k)
      (let e = assemble op us in
        if op = Add \<and> is_Add e
        then bind_res (cancel_terms (neg_expr n) (rev (ass_terms e)) []) (\<lambda>ts. Inr (assemble Add ts))
        else Inr e)" if us: "weights us \<le> k" for us
  proof -
    have "weight (assemble op us) \<le> 3 + k"
      using us by (intro assemble_weight) simp
    moreover have "at_most (3 + k) (bind_res (cancel_terms (neg_expr n) (rev (ass_terms (assemble op us))) [])
        (\<lambda>ts. Inr (assemble Add ts)))" if "is_Add (assemble op us)"
    proof (rule returns_bind [OF cancel_terms_returns], goal_cases)
      case (1 t)
      then have "weight t + 2 < n"
        using assemble_terms [of t op us] us k by simp
      then show ?case
        by (blast intro: returns_mono [OF neg_ok [OF s]])
    next
      case (2 ts)
      then have "weights ts \<le> k"
        using ass_terms_weight [OF that refl] us by (simp add: rev_map [symmetric])
      then show ?case
        by (simp add: assemble_weight)
    qed
    ultimately show ?thesis
      by (auto simp: Let_def)
  qed
  show ?thesis
    unfolding finish_ass_def Let_def [of "fst tt"] Let_def [of "snd tt"]
    by (intro if_at_most bool mk_number_at_most returns_bind [OF num] returns_bind [OF merge] arith) auto
qed

lemma seq_simp_at_most:
  assumes "simp_ok n" "weights ts < n"
  shows "returns (\<lambda>ts'. weights ts' \<le> weights ts) (seq_res (map (simp_expr n) ts))"
proof (rule returns_mono [OF returns_map [where P = "\<lambda>t t'. weight t' \<le> weight t"]], goal_cases)
  case (1 t)
  then show ?case
    using assms weight_mem [of t ts] by (intro simp_okD [OF assms(1)]) simp_all
qed (rule weights_mono)

lemma seq_pair_at_most:
  assumes "\<And>x. x \<in> set xs \<Longrightarrow> returns (\<lambda>y. g y \<le> (g x :: nat)) (f x)"
  shows "returns (\<lambda>ys. sum_list (map g ys) \<le> sum_list (map g xs)) (seq_res (map f xs))"
proof (rule returns_mono [OF returns_map [where P = "\<lambda>x y. g y \<le> g x"]], goal_cases)
  case (2 ys)
  from 2(2) show ?case by (induction rule: list_all2_induct) auto
qed (rule assms)

lemma sum_list_mem: "x \<in> set xs \<Longrightarrow> g x \<le> sum_list (map g xs)" for g :: "'a \<Rightarrow> nat"
  by (induction xs) auto

lemma not_step:
  assumes s: "simp_ok n" and w: "weight (NotE e) \<le> n"
  shows "at_most (weight (NotE e)) (simp_expr (Suc n) (NotE e))"
proof -
  have e2: "weight e + 2 \<le> 2 * weight e" using weight_ge_2 [of e] by simp
  have plain: "at_most (2 * weight e) (bind_res (simp_expr n e) (\<lambda>e'. Inr (NotE e')))"
    using w e2 by (intro returns_bind [OF simp_okD [OF s order.strict_trans2 order_refl]]) auto
  show ?thesis
  proof (cases e)
    case (Ass op ts)
    have t: "at_most (2 * weight t) (bind_res (simp_expr n t) (\<lambda>t'. simp_expr n (NotE t')))"
      if "t \<in> set ts" for t
      using weight_mem [OF that] w Ass
      by (intro returns_bind [OF simp_okD [OF s _ order_refl]] simp_okD [OF s]) auto
    have "at_most (2 * weight e)
        (bind_res (seq_res (map (\<lambda>t. bind_res (simp_expr n t) (\<lambda>t'. simp_expr n (NotE t'))) ts))
          (\<lambda>ts'. simp_expr n (Ass op' ts')))" for op'
      using t w Ass
      by (intro returns_bind [OF returns_map [where P = "\<lambda>t t'. weight t' \<le> 2 * weight t"]]
          simp_okD [OF s]) (auto dest: weights_double)
    with plain Ass weight_ge_2 [of e] show ?thesis by simp
  next
    case (Relation r a b)
    have "at_most (weight a) (simp_expr n a)" "at_most (weight b) (simp_expr n b)"
      using w Relation by (auto intro!: simp_okD [OF s])
    then have "at_most (2 * weight e) (bind_res (simp_expr n a) (\<lambda>a'. bind_res (simp_expr n b) (\<lambda>b'.
                 Inr (Relation r' a' b'))))" for r'
      using Relation
      by (elim returns_bind) auto
    with plain Relation weight_ge_2 [of e] show ?thesis by (auto split: option.split)
  qed (use plain weight_ge_2 [of e] in \<open>auto\<close>)
qed

lemma if_step:
  assumes s: "simp_ok n" and w: "weight (IfExpr ces els) \<le> n"
  shows "at_most (weight (IfExpr ces els)) (simp_expr (Suc n) (IfExpr ces els))"
proof -
  let ?g = "\<lambda>(c, e). weight c + weight e"
  have ce: "weight c + weight e < n" if "(c, e) \<in> set ces" for c e
    using sum_list_mem [OF that, of ?g] w by simp
  have ces: "returns (\<lambda>ys. sum_list (map ?g ys) \<le> sum_list (map ?g ces))
      (seq_res (map (\<lambda>(c, e). bind_res (simp_expr n c) (\<lambda>c'. bind_res (simp_expr n e) (\<lambda>e'.
                 Inr (c', e')))) ces))"
  proof (rule seq_pair_at_most, goal_cases)
    case (1 x)
    obtain c e where x [simp]: "x = (c, e)" by (cases x)
    have "at_most (weight c) (simp_expr n c)" "at_most (weight e) (simp_expr n e)"
      using ce [of c e] 1 by (auto intro!: simp_okD [OF s])
    then show ?case
      unfolding x prod.case by (elim returns_bind) auto
  qed
  let ?h = "\<lambda>els. case els of None \<Rightarrow> 0 | Some e \<Rightarrow> weight e"
  have els: "returns (\<lambda>els'. ?h els' \<le> ?h els \<and> (els' = None) = (els = None))
      (case els of None \<Rightarrow> Inr None | Some e \<Rightarrow> bind_res (simp_expr n e) (\<lambda>e'. Inr (Some e')))"
    using w by (auto split: option.split intro!: returns_bind [OF simp_okD [OF s]])
  show ?thesis
    unfolding simp_expr.simps
    by (rule returns_bind [OF ces], rule returns_bind [OF els])
       (auto split: list.splits option.splits prod.splits intro!: returns_bind [OF expr_eq_returns])
qed

lemma simp_step:
  assumes s: "simp_ok n" and c: "collect_ok n"
  shows "simp_ok (Suc n)"
  unfolding simp_ok_def
proof (intro allI impI)
  fix e
  assume "weight e < Suc n"
  then have w: "weight e \<le> n" by simp
  have sub: "at_most (weight x) (simp_expr n x)" if "weight x < n" for x
    using that by (rule simp_okD [OF s]) simp
  show "at_most (weight e) (simp_expr (Suc n) e)"
  proof (cases e)
    case (NotE x)
    with w not_step [OF s, of x] show ?thesis by simp
  next
    case (Ass op ts)
    have "returns (\<lambda>(tot', acc'). weights acc' + (if tot' = neutral_element op then 0 else 2) \<le> weights [] + weights ts)
       (collect_terms n op ts (neutral_element op) [])"
      using w Ass by (intro collect_okD [OF c]) simp
    then have "at_most (3 + weights ts) (simp_expr (Suc n) (Ass op ts))"
      unfolding simp_expr.simps using w Ass
      by (elim returns_bind) (auto intro!: finish_ass_at_most [OF s])
    then show ?thesis using Ass by simp
  next
    case (Neg x)
    then have "at_most (2 * weight x) (bind_res (simp_expr n x) (neg_expr n))"
      using w weight_ge_2 [of x] by (intro returns_bind [OF sub] negD [OF s]) auto
    then show ?thesis using Neg by simp
  next
    case (MathBin op l r)
    have lr: "weight l < n" "weight r < n"
      using w MathBin by (auto split: if_splits)
    have "at_most (weight e)
      (if op = Sub then
         (case (number_value l', number_value r') of
            (Some _, Some _) \<Rightarrow> fold_math Sub l' r'
          | _ \<Rightarrow> bind_res (neg_expr n r') (\<lambda>m. Inr (Ass Add [l', m])))
       else fold_math op l' r')" if "weight l' \<le> weight l" "weight r' \<le> weight r" for l' r'
      using that MathBin w weight_ge_2 [of l']
      by (auto split: option.splits intro!: fold_math_at_most returns_bind [OF neg_ok [OF s]])
    then have "at_most (weight e) (simp_expr (Suc n) (MathBin op l r))"
      unfolding simp_expr.simps
      by (intro returns_bind [OF sub [OF lr(1)]] returns_bind [OF sub [OF lr(2)]])
    then show ?thesis using MathBin by simp
  next
    case (Attribute a p)
    then show ?thesis
      using w by (auto intro!: returns_bind [OF sub] mk_name_at_most)
  next
    case (Aggregate es)
    then show ?thesis
      using w by (auto intro!: returns_bind [OF seq_simp_at_most [OF s]])
  next
    case (Relation r a b)
    have "at_most (weight e)
      (if r = In \<or> r = NotIn then Inr (Relation r a' b') else simplify_relation r a' b')"
      if "weight a' \<le> weight a" "weight b' \<le> weight b" for a' b'
      using that Relation by (auto intro!: simplify_relation_at_most)
    then have "at_most (weight e) (simp_expr (Suc n) (Relation r a b))"
      unfolding simp_expr.simps using w Relation
      by (intro returns_bind [OF sub]) auto
    then show ?thesis using Relation by simp
  next
    case (IfExpr ces els)
    with w if_step [OF s, of ces els] show ?thesis by simp
  next
    case (Quantified q i it p)
    then show ?thesis
      using w by (auto intro!: returns_bind [OF sub])
  next
    case (ValueRange l u)
    then show ?thesis
      using w by (auto intro!: returns_bind [OF sub])
  next
    case (Conversion i x)
    then show ?thesis
      using w by (auto intro!: returns_bind [OF sub])
  next
    case (QualifiedExpr i x)
    then show ?thesis
      using w by (auto intro!: returns_bind [OF sub])
  next
    case (Comprehension i sq sel cond)
    then show ?thesis
      using w by (auto intro!: returns_bind [OF sub])
  next
    case (MessageAggregate d i fs)
    let ?g = "\<lambda>(f :: string, e). weight e"
    have "returns (\<lambda>ys. sum_list (map ?g ys) \<le> sum_list (map ?g fs))
        (seq_res (map (\<lambda>(f, e). bind_res (simp_expr n e) (\<lambda>e'. Inr (f, e'))) fs))"
      using w MessageAggregate sum_list_mem [of _ fs ?g]
      by (intro seq_pair_at_most) (fastforce intro!: returns_bind [OF sub])
    then show ?thesis
      using MessageAggregate by (auto elim!: returns_bind)
  next
    case (CaseExpr x cs)
    let ?g = "\<lambda>(c :: (ident + int) list, e). weight e"
    have "returns (\<lambda>ys. sum_list (map ?g ys) \<le> sum_list (map ?g cs))
        (seq_res (map (\<lambda>(c, x). bind_res (simp_expr n x) (\<lambda>x'. Inr (c, x'))) cs))"
      using w CaseExpr sum_list_mem [of _ cs ?g]
      by (intro seq_pair_at_most) (fastforce intro!: returns_bind [OF sub])
    then have "at_most (weight e) (simp_expr (Suc n) (CaseExpr x cs))"
      unfolding simp_expr.simps using w CaseExpr
      by (intro returns_bind [OF sub]) (auto elim!: returns_bind)
    then show ?thesis
      using CaseExpr by simp
  qed auto
qed

lemma fuel_ok: "simp_ok n \<and> collect_ok n"
proof (induction n)
  case 0
  show ?case by (simp add: simp_ok_def collect_ok_def)
next
  case (Suc n)
  then show ?case using simp_step collect_step by blast
qed

section \<open>The result does not depend on the fuel\<close>

lemma approx_merge_ifs [approx_intros]:
  assumes "\<And>e. approx (s e) (s' e)"
  shows "approx (merge_ifs s ts) (merge_ifs s' ts)"
proof (induction "length ts" arbitrary: ts rule: less_induct)
  case less
  show ?case
  proof (cases ts)
    case ts: (Cons t us)
    show ?thesis
    proof (cases "\<exists>tc te. t = IfExpr tc te")
      case True
      then obtain tc te where t: "t = IfExpr tc te" by blast
      have us: "approx (merge_ifs s us) (merge_ifs s' us)"
        using less [of us] ts by simp
      have pq: "approx (merge_ifs s (p @ q)) (merge_ifs s' (p @ q))"
        if "find_merge tc te us = Inr (Some (p, c, q))" for p c q
        using less [of "p @ q"] find_merge_parts [OF that] ts by auto
      show ?thesis
        unfolding ts t merge_ifs.simps expr.case
        by (intro approx_bind_Inr approx_refl) (auto split: option.split list.split intro!: approx_intros us pq assms)
    qed (auto simp: ts split: expr.split)
  qed simp
qed

lemma approx_first_equal [approx_intros]:
  "approx m m' \<Longrightarrow> approx (first_equal m es) (first_equal m' es)"
  by (induction es) (auto intro!: approx_intros)

lemma approx_cancel_terms [approx_intros]:
  "(\<And>e. approx (f e) (f' e)) \<Longrightarrow> approx (cancel_terms f ts acc) (cancel_terms f' ts acc)"
  by (induction ts arbitrary: acc)
     (auto intro!: approx_intros simp del: first_equal.simps)

lemma approx_neg:
  assumes "\<And>e. approx (simp_expr n e) (simp_expr m e)"
  shows "approx (neg_expr n e) (neg_expr m e)"
  by (induction e) (auto intro!: approx_intros assms simp del: simp_expr.simps)

lemma approx_expr [approx_intros]:
  "(\<And>op ts. approx (f op ts) (f' op ts)) \<Longrightarrow> (\<And>v b. approx (g v b) (g' v b)) \<Longrightarrow> approx m m' \<Longrightarrow>
   approx (case t of Number v b \<Rightarrow> g v b | Ass op ts \<Rightarrow> f op ts | _ \<Rightarrow> m)
          (case t of Number v b \<Rightarrow> g' v b | Ass op ts \<Rightarrow> f' op ts | _ \<Rightarrow> m')"
  by (cases t) auto

lemma approx_not [approx_intros]:
  "(\<And>op ts. approx (f op ts) (f' op ts)) \<Longrightarrow> (\<And>r a b. approx (g r a b) (g' r a b)) \<Longrightarrow> approx m m' \<Longrightarrow>
   approx (case t of Ass op ts \<Rightarrow> f op ts | Relation r a b \<Rightarrow> g r a b | _ \<Rightarrow> m)
          (case t of Ass op ts \<Rightarrow> f' op ts | Relation r a b \<Rightarrow> g' r a b | _ \<Rightarrow> m')"
  by (cases t) auto

lemma approx_Ass [approx_intros]:
  "(\<And>op ts. approx (f op ts) (f' op ts)) \<Longrightarrow> approx m m' \<Longrightarrow>
   approx (case t of Ass op ts \<Rightarrow> f op ts | _ \<Rightarrow> m) (case t of Ass op ts \<Rightarrow> f' op ts | _ \<Rightarrow> m')"
  by (cases t) auto

lemma approx_finish_ass [approx_intros]:
  assumes "\<And>e. approx (s e) (s' e)" "\<And>e. approx (f e) (f' e)"
  shows "approx (finish_ass s f op tt) (finish_ass s' f' op tt)"
  unfolding finish_ass_def Let_def by (intro approx_intros assms)

lemma approx_simp_step:
  assumes s: "\<And>e. approx (simp_expr n e) (simp_expr m e)"
    and c: "\<And>op ts tot acc. approx (collect_terms n op ts tot acc) (collect_terms m op ts tot acc)"
  shows "approx (simp_expr (Suc n) e) (simp_expr (Suc m) e)"
    and "approx (collect_terms (Suc n) op ts tot acc) (collect_terms (Suc m) op ts tot acc)"
proof -
  note neg = approx_neg [OF s]
  show "approx (simp_expr (Suc n) e) (simp_expr (Suc m) e)"
    by (cases e; simp only: simp_expr.simps; intro approx_intros s c neg)
  show "approx (collect_terms (Suc n) op ts tot acc) (collect_terms (Suc m) op ts tot acc)"
    by (cases ts; simp only: collect_terms.simps; intro approx_intros s c)
qed

lemma approx_simp_collect:
  "(\<forall>e. approx (simp_expr n e) (simp_expr (Suc n) e)) \<and>
   (\<forall>op ts tot acc. approx (collect_terms n op ts tot acc) (collect_terms (Suc n) op ts tot acc))"
proof (induction n)
  case 0
  show ?case by (simp add: approx_def)
next
  case (Suc n)
  then show ?case by (intro allI conjI approx_simp_step) blast+
qed

lemma approx_simp: "n \<le> m \<Longrightarrow> approx (simp_expr n e) (simp_expr m e)"
  by (induction rule: inc_induct) (auto intro: approx_trans approx_simp_collect [THEN conjunct1, rule_format])

section \<open>Simplification\<close>

text \<open>\<open>Expr.simplified\<close>: the recursion with fuel for the weight of the expression.\<close>

definition simplified :: "expr \<Rightarrow> expr res" where
  "simplified e = simp_expr (Suc (weight e)) e"

lemma simp_expr_simplified:
  assumes "weight e < n"
  shows "simp_expr n e = simplified e"
proof -
  have "approx (simplified e) (simp_expr n e)"
    unfolding simplified_def using assms by (intro approx_simp) simp
  moreover have "at_most (weight e) (simplified e)"
    unfolding simplified_def by (rule simp_okD) (use fuel_ok in auto)
  ultimately show ?thesis by (auto simp: approx_def)
qed

lemma simplified_at_most: "at_most (weight e) (simplified e)"
  unfolding simplified_def by (rule simp_okD) (use fuel_ok in auto)

lemma simplified_weight: "simplified e = Inr e' \<Longrightarrow> weight e' \<le> weight e"
  using returnsD [OF simplified_at_most] .

lemma weight_pos: "0 < weight e"
  using weight_ge_2 [of e] by simp

definition neg :: "expr \<Rightarrow> expr res" where
  "neg e = neg_expr (weight e + 3) e"

text \<open>
  C40. Simplifying an expression always returns: it yields an expression no heavier than the original
  or raises one of the exceptions of the program, and never runs out of the fuel it is given.
\<close>

theorem simplified_returns:
  "simplified e \<noteq> Inl OutOfFuel \<and> (case simplified e of Inl _ \<Rightarrow> True | Inr e' \<Rightarrow> weight e' \<le> weight e)"
  using simplified_at_most [of e] by (cases "simplified e") auto

end
