(* ===== verification/Expr_Subst.thy ===== *)
theory Expr_Subst
  imports Expr_Termination
begin

text \<open>
  The variables of an expression (\<open>variables\<close>) and substitution (\<open>substituted\<close>, \<open>substitution\<close>) of
  \<open>rflx/expr.py\<close>.
\<close>

section \<open>Variables\<close>

text \<open>
  Variables are represented by their identifiers.  \<open>unique\<close> keeps the first of those that are equal,
  ignoring case.
\<close>

fun unique_ids_aux :: "ident list \<Rightarrow> ident list \<Rightarrow> ident list" where
  "unique_ids_aux seen [] = []"
| "unique_ids_aux seen (i # is) =
     (if list_ex (\<lambda>j. id_eq j i) seen then unique_ids_aux seen is
      else i # unique_ids_aux (i # seen) is)"

definition unique_ids :: "ident list \<Rightarrow> ident list" where
  "unique_ids is = unique_ids_aux [] is"

lemma unique_ids_aux_set:
  "lower ` set (unique_ids_aux seen is) = lower ` set is - lower ` set seen"
proof (induction "is" arbitrary: seen)
  case (Cons i "is")
  have "list_ex (\<lambda>j. id_eq j i) seen \<longleftrightarrow> lower i \<in> lower ` set seen"
    by (auto simp: id_eq_def list_ex_iff image_iff) metis
  with Cons show ?case by auto
qed simp

lemma unique_ids_set: "lower ` set (unique_ids is) = lower ` set is"
  by (simp add: unique_ids_def unique_ids_aux_set)

lemma unique_ids_aux_distinct: "distinct (map lower (unique_ids_aux seen is))"
proof (induction "is" arbitrary: seen)
  case (Cons i "is")
  have "lower i \<notin> lower ` set (unique_ids_aux (i # seen) is)"
    by (simp add: unique_ids_aux_set)
  with Cons show ?case by auto
qed simp

lemma unique_ids_distinct: "distinct (map lower (unique_ids is))"
  by (simp add: unique_ids_def unique_ids_aux_distinct)

definition without :: "ident \<Rightarrow> ident list \<Rightarrow> ident list" where
  "without i is = filter (\<lambda>j. \<not> id_eq j i) is"

text \<open>
  \<open>variables\<close>: \<open>CaseExpr\<close> looks at the variables of its simplified form, so that the recursion is not
  structural.  \<open>IfExpr\<close>, \<open>Aggregate\<close>, \<open>ValueRange\<close>, \<open>Indexed\<close>, \<open>Slice\<close> and \<open>QualifiedExpr\<close> inherit the
  definition of the base class, which returns no variables.
\<close>

fun vars_of :: "nat \<Rightarrow> expr \<Rightarrow> ident list res" where
  "vars_of 0 e = Inl OutOfFuel"
| "vars_of (Suc n) (NotE e) = vars_of n e"
| "vars_of (Suc n) (Ass op ts) =
     bind_res (seq_res (map (vars_of n) ts)) (\<lambda>vs. Inr (unique_ids (concat vs)))"
| "vars_of (Suc n) (Neg e) = vars_of n e"
| "vars_of (Suc n) (MathBin op l r) =
     bind_res (vars_of n l) (\<lambda>vs. bind_res (vars_of n r) (\<lambda>ws. Inr (unique_ids (vs @ ws))))"
| "vars_of (Suc n) (Relation op l r) =
     bind_res (vars_of n l) (\<lambda>vs. bind_res (vars_of n r) (\<lambda>ws. Inr (unique_ids (vs @ ws))))"
| "vars_of (Suc n) (Variable i) = Inr [i]"
| "vars_of (Suc n) (Attribute a p) = vars_of n p"
| "vars_of (Suc n) (Val p e) = Inl NotImplementedError"
| "vars_of (Suc n) (Selected p i) = vars_of n p"
| "vars_of (Suc n) (Call i es) =
     bind_res (seq_res (map (vars_of n) es)) (\<lambda>vs. Inr (i # concat vs))"
| "vars_of (Suc n) (Quantified q i it p) =
     bind_res (vars_of n it) (\<lambda>vs. bind_res (vars_of n p) (\<lambda>ws.
       Inr (unique_ids (without i (vs @ ws)))))"
| "vars_of (Suc n) (Conversion i e) = vars_of n e"
| "vars_of (Suc n) (Comprehension i sq sel cond) =
     bind_res (vars_of n sq) (\<lambda>us. bind_res (vars_of n sel) (\<lambda>vs. bind_res (vars_of n cond) (\<lambda>ws.
       Inr (without i (us @ vs @ ws)))))"
| "vars_of (Suc n) (MessageAggregate d i fs) =
     bind_res (seq_res (map (\<lambda>(f, e). vars_of n e) fs)) (\<lambda>vs. Inr (concat vs))"
| "vars_of (Suc n) (CaseExpr e cs) =
     bind_res (simplified (CaseExpr e cs)) (\<lambda>s.
       case s of
         CaseExpr e' cs' \<Rightarrow>
           bind_res (vars_of n e') (\<lambda>vs. bind_res (seq_res (map (\<lambda>(c, x). vars_of n x) cs')) (\<lambda>ws.
             Inr (unique_ids (vs @ concat ws))))
       | _ \<Rightarrow> Inl AssertionError)"
| "vars_of (Suc n) e = Inr []"

definition variables :: "expr \<Rightarrow> ident list res" where
  "variables e = vars_of (Suc (weight e)) e"

lemma vars_of_returns:
  "weight e < n \<Longrightarrow> returns (\<lambda>_. True) (vars_of n e)"
proof (induction n arbitrary: e)
  case 0
  then show ?case by simp
next
  case (Suc n)
  have half: "weight x < n" if "2 * weight x < Suc n" for x
    using that weight_ge_2 [of x] by simp
  have list: "returns (\<lambda>_. True) (seq_res (map (vars_of n) ts))" if "weights ts < n" for ts
    using that weight_mem Suc.IH by (intro returns_seq_res) (fastforce dest: weight_mem)
  have pairs: "returns (\<lambda>_. True) (seq_res (map (\<lambda>(x, e). vars_of n e) ps))"
    if "sum_list (map (\<lambda>(x, e). weight e) ps) < n" for ps :: "('b \<times> expr) list"
    using that sum_list_mem [of _ ps "\<lambda>(x, e). weight e"] Suc.IH by (intro returns_seq_res) fastforce
  show ?case
  proof (cases e)
    case (CaseExpr x cs)
    have "returns (\<lambda>e'. weight e' \<le> weight e) (simplified e)"
      using simplified_at_most by simp
    then show ?thesis
      using Suc.prems unfolding CaseExpr vars_of.simps
      by (elim returns_bind)
        (auto intro!: returns_bind [where Q = "\<lambda>_. True"] Suc.IH pairs split: expr.split)
  next
    case (MathBin op l r)
    then show ?thesis
      using Suc.prems by (auto intro!: returns_bind [where Q = "\<lambda>_. True"] Suc.IH split: if_splits)
  next
    case (NotE x)
    then show ?thesis using Suc.prems by (simp add: Suc.IH half)
  next
    case (Neg x)
    then show ?thesis using Suc.prems by (simp add: Suc.IH half)
  qed (use Suc.prems in \<open>auto intro!: returns_bind [where Q = "\<lambda>_. True"] Suc.IH list pairs\<close>)
qed

text \<open>
  The variables of an expression are always found or refused with an exception of the program,
  and the variables of an associative or binary expression are distinct up to case.
\<close>

theorem variables_returns:
  "variables e \<noteq> Inl OutOfFuel \<and> returns (\<lambda>vs. distinct (map lower vs)) (variables (Ass op ts))"
proof
  have r: "returns (\<lambda>_. True) (variables e)" for e
    unfolding variables_def by (rule vars_of_returns) simp
  then show "variables e \<noteq> Inl OutOfFuel" by (rule returns_not_fuel)
  have "distinct (map lower vs)" if "variables (Ass op ts) = Inr vs" for vs
    using that by (auto simp: variables_def bind_res_eq_Inr unique_ids_distinct numeral_eq_Suc)
  then show "returns (\<lambda>vs. distinct (map lower vs)) (variables (Ass op ts))"
    by (blast intro: returns_mono [OF r])
qed

section \<open>Substitution\<close>

definition is_attribute :: "expr \<Rightarrow> bool" where
  "is_attribute e = (case e of Attribute _ _ \<Rightarrow> True | Val _ _ \<Rightarrow> True | _ \<Rightarrow> False)"

text \<open>\<open>BinExpr.substituted\<close>, \<open>Attribute.substituted\<close> and \<open>IfExpr.substituted\<close> after \<open>func(self)\<close>; \<open>s\<close> is the recursive call.\<close>

definition subst_bin :: "(expr \<Rightarrow> expr res) \<Rightarrow> expr \<Rightarrow> expr res" where
  "subst_bin s r =
     (case r of
        MathBin op a b \<Rightarrow> bind_res (s a) (\<lambda>a'. bind_res (s b) (\<lambda>b'. Inr (MathBin op a' b')))
      | Relation op a b \<Rightarrow> bind_res (s a) (\<lambda>a'. bind_res (s b) (\<lambda>b'. Inr (Relation op a' b')))
      | _ \<Rightarrow> Inr r)"

definition subst_attribute :: "(expr \<Rightarrow> expr res) \<Rightarrow> expr \<Rightarrow> expr res" where
  "subst_attribute s r =
     (case r of
        Attribute a p \<Rightarrow> bind_res (s p) (\<lambda>p'.
          if is_attribute p' then Inr r else mk_name (Attribute a p'))
      | Val p x \<Rightarrow> bind_res (s p) (\<lambda>p'. if is_attribute p' then Inr r else Inl TypeError)
      | _ \<Rightarrow> Inr r)"

text \<open>The constructor of \<open>String\<close> refuses the elements of the aggregate.\<close>

definition subst_string :: "(expr \<Rightarrow> expr res) \<Rightarrow> string \<Rightarrow> expr res" where
  "subst_string s d =
     bind_res (seq_res (map (\<lambda>c. s (Number (int (char_code c)) 0)) d)) (\<lambda>_. Inl TypeError)"

definition subst_if ::
    "(expr \<Rightarrow> expr res) \<Rightarrow> (expr \<times> expr) list \<Rightarrow> expr option \<Rightarrow> expr res"
where
  "subst_if s ces els =
     bind_res (seq_res (map (\<lambda>(c, e). bind_res (s c) (\<lambda>c'. bind_res (s e) (\<lambda>e'. Inr (c', e')))) ces)) (\<lambda>ces'.
     bind_res (case els of None \<Rightarrow> Inr None | Some e \<Rightarrow> bind_res (s e) (\<lambda>e'. Inr (Some e'))) (\<lambda>els'.
       Inr (IfExpr ces' els')))"

text \<open>
  Each class first applies the function to the expression as a whole and then, if the result is of the
  right class, to the parts of the result; \<open>IfExpr\<close>, \<open>ValueRange\<close> and the choices of a \<open>CaseExpr\<close> are
  those of the original, \<open>Call\<close> and \<open>QuantifiedExpr\<close> insist on the class, and an attribute is only
  rebuilt around a prefix that is not an attribute itself.
\<close>

fun subst_parts :: "(expr \<Rightarrow> expr res) \<Rightarrow> expr \<Rightarrow> expr \<Rightarrow> expr res" where
  "subst_parts s (NotE _) r =
     (case r of NotE x \<Rightarrow> bind_res (s x) (\<lambda>x'. Inr (NotE x')) | _ \<Rightarrow> Inr r)"
| "subst_parts s (Neg _) r =
     (case r of Neg x \<Rightarrow> bind_res (s x) (\<lambda>x'. Inr (Neg x')) | _ \<Rightarrow> Inr r)"
| "subst_parts s (Ass _ _) r =
     (case r of
        Ass op ts \<Rightarrow> bind_res (seq_res (map s ts)) (\<lambda>ts'. Inr (Ass op ts'))
      | _ \<Rightarrow> Inr r)"
| "subst_parts s (MathBin _ _ _) r = subst_bin s r"
| "subst_parts s (Relation _ _ _) r = subst_bin s r"
| "subst_parts s (Attribute _ _) r = subst_attribute s r"
| "subst_parts s (Selected _ _) r =
     (case r of Selected p i \<Rightarrow> bind_res (s p) (\<lambda>p'. mk_name (Selected p' i)) | _ \<Rightarrow> Inr r)"
| "subst_parts s (Call _ _) r =
     (case r of
        Call i es \<Rightarrow> bind_res (seq_res (map s es)) (\<lambda>es'. mk_name (Call i es'))
      | _ \<Rightarrow> Inl AssertionError)"
| "subst_parts s (Aggregate _) r =
     (case r of
        Aggregate es \<Rightarrow> bind_res (seq_res (map s es)) (\<lambda>es'. Inr (Aggregate es'))
      | StringE d \<Rightarrow> subst_string s d
      | _ \<Rightarrow> Inr r)"
| "subst_parts s (IfExpr ces els) r = (case r of IfExpr _ _ \<Rightarrow> subst_if s ces els | _ \<Rightarrow> Inr r)"
| "subst_parts s (Quantified _ _ _ _) r =
     (case r of
        Quantified q i it p \<Rightarrow> bind_res (s it) (\<lambda>it'. bind_res (s p) (\<lambda>p'. Inr (Quantified q i it' p')))
      | _ \<Rightarrow> Inl AssertionError)"
| "subst_parts s (ValueRange l u) r =
     (case r of
        ValueRange _ _ \<Rightarrow> bind_res (s l) (\<lambda>l'. bind_res (s u) (\<lambda>u'. Inr (ValueRange l' u')))
      | _ \<Rightarrow> Inr r)"
| "subst_parts s (Conversion _ _) r =
     (case r of Conversion i x \<Rightarrow> bind_res (s x) (\<lambda>x'. Inr (Conversion i x')) | _ \<Rightarrow> Inr r)"
| "subst_parts s (Comprehension _ _ _ _) r =
     (case r of
        Comprehension i sq sel cond \<Rightarrow>
          bind_res (s sq) (\<lambda>sq'. bind_res (s sel) (\<lambda>sel'. bind_res (s cond) (\<lambda>cond'.
            Inr (Comprehension i sq' sel' cond'))))
      | _ \<Rightarrow> Inr r)"
| "subst_parts s (MessageAggregate d _ _) r =
     (case r of
        MessageAggregate d' i fs \<Rightarrow>
          if d \<longrightarrow> d' then
            bind_res (seq_res (map (\<lambda>(k, x). bind_res (s x) (\<lambda>x'. Inr (k, x'))) fs)) (\<lambda>fs'.
              Inr (MessageAggregate d' i fs'))
          else Inr r
      | _ \<Rightarrow> Inr r)"
| "subst_parts s (CaseExpr _ cs) r =
     (case r of
        CaseExpr x _ \<Rightarrow>
          bind_res (s x) (\<lambda>x'.
          bind_res (seq_res (map (\<lambda>(c, y). bind_res (s y) (\<lambda>y'. Inr (c, y'))) cs)) (\<lambda>cs'.
            Inr (CaseExpr x' cs')))
      | _ \<Rightarrow> Inr r)"
| "subst_parts s _ r = Inr r"

text \<open>
  An unfortunate function can make the recursion endless (for instance one that maps \<open>-X\<close> to \<open>-(-X)\<close>),
  so the model takes fuel; \<open>Val\<close> returns itself without calling the function.
\<close>

primrec substituted :: "nat \<Rightarrow> (expr \<Rightarrow> expr res) \<Rightarrow> expr \<Rightarrow> expr res" where
  "substituted 0 f e = Inl OutOfFuel"
| "substituted (Suc n) f e =
     (case e of
        Val _ _ \<Rightarrow> Inr e
      | _ \<Rightarrow> bind_res (f e) (subst_parts (substituted n f) e))"

text \<open>\<open>substitution(mapping)\<close>: the value of an equal key, or the expression itself.\<close>

fun substitution :: "(expr \<times> expr) list \<Rightarrow> expr \<Rightarrow> expr res" where
  "substitution [] e = Inr e"
| "substitution ((k, v) # m) e = bind_res (key_eq k e) (\<lambda>b. if b then Inr v else substitution m e)"

text \<open>
  The mappings that the model builds: names and numbers are replaced by anything, attributes by
  anything that is not an attribute itself.
\<close>

definition simple_entry :: "expr \<times> expr \<Rightarrow> bool" where
  "simple_entry kv =
     (case fst kv of
        Variable _ \<Rightarrow> True
      | Literal _ \<Rightarrow> True
      | Number _ _ \<Rightarrow> True
      | Attribute _ _ \<Rightarrow> \<not> is_attribute (snd kv)
      | _ \<Rightarrow> False)"

text \<open>Replaced at most at the leaves: the parts of the result are those of the original.\<close>

definition leaf_like :: "expr \<Rightarrow> expr \<Rightarrow> bool" where
  "leaf_like e r =
     (r = e \<or> (case e of
        Variable _ \<Rightarrow> True
      | Literal _ \<Rightarrow> True
      | Number _ _ \<Rightarrow> True
      | Attribute _ _ \<Rightarrow> \<not> is_attribute r
      | _ \<Rightarrow> False))"

lemma key_eq_leaf:
  assumes "simple_entry (k, v)" "key_eq k e = Inr True"
  shows "leaf_like e v"
  using assms
  by (cases k; cases e)
     (auto simp: simple_entry_def leaf_like_def key_eq_def expr_eq.simps is_subclass_def split: if_splits)

lemma substitution_leaf:
  "list_all simple_entry m \<Longrightarrow> returns (leaf_like e) (substitution m e)"
proof (induction m)
  case (Cons kv m)
  obtain k v where [simp]: "kv = (k, v)" by (cases kv)
  show ?case
    using Cons key_eq_leaf [of k v e] by (auto intro!: returns_bind [OF key_eq_returns])
qed (simp add: leaf_like_def)

lemma pair_weight:
  "(x, t) \<in> set ps \<Longrightarrow> weight t \<le> sum_list (map (\<lambda>(x :: 'a, e). weight e) ps)"
  "(c, e) \<in> set ces \<Longrightarrow> weight c + weight e \<le> sum_list (map (\<lambda>(c, e). weight c + weight e) ces)"
  using sum_list_mem [of "(x, t)" ps "\<lambda>(x, e). weight e"]
    sum_list_mem [of "(c, e)" ces "\<lambda>(c, e). weight c + weight e"] by simp_all

lemma substituted_returns:
  assumes "\<And>e. returns (leaf_like e) (f e)" "weight e < n"
  shows "returns (\<lambda>_. True) (substituted n f e)"
  using assms(2)
proof (induction n arbitrary: e)
  case 0
  then show ?case by simp
next
  case (Suc n)
  have half: "weight x < n" if "2 * weight x < Suc n" for x
    using that weight_ge_2 [of x] by simp
  note le = weight_mem pair_weight(1) [where 'a = string] pair_weight(1) [where 'a = "(ident + int) list"]
    pair_weight(2)
  have parts: "returns (\<lambda>_. True) (subst_parts (substituted n f) e r)" if "leaf_like e r" for r
  proof (cases "r = e")
    case True
    show ?thesis
      unfolding True using Suc.prems
      by (cases e)
         (auto simp: subst_bin_def subst_attribute_def subst_if_def mk_name_def half expr_str_returns
           intro!: returns_bind [where Q = "\<lambda>_. True"] returns_seq_res Suc.IH
           dest!: le split: option.splits if_splits)
  next
    case False
    with that show ?thesis
      by (cases e; cases r) (auto simp: leaf_like_def subst_attribute_def is_attribute_def)
  qed
  have "returns (\<lambda>_. True) (bind_res (f e) (subst_parts (substituted n f) e))"
    by (rule returns_bind [OF assms(1) parts])
  then show ?case by (cases e) (simp_all del: subst_parts.simps)
qed

text \<open>
  Substituting names, numbers and attributes always returns once the fuel exceeds the weight of the
  expression, whatever the names are replaced by.
\<close>

theorem substitution_returns:
  assumes "list_all simple_entry m" "weight e < n"
  shows "substituted n (substitution m) e \<noteq> Inl OutOfFuel"
  using substituted_returns [OF substitution_leaf [OF assms(1)] assms(2)] by (rule returns_not_fuel)

theorem substitution_returns_witness:
  "substituted 8 (substitution [(Variable ''X'', Ass Add [Variable ''X'', Number 1 0])])
     (Ass Add [Variable ''X'', Number 1 0]) \<noteq> Inl OutOfFuel"
  by (rule substitution_returns) (simp_all add: simple_entry_def)

end
