(* ===== verification/Message_Graph.thy ===== *)
theory Message_Graph
  imports Expr_Subst
begin

text \<open>
  The structure of a message (\<open>rflx/model/message.py\<close>): a graph of links between fields.  This theory
  models the queries on the graph (\<open>incoming\<close>, \<open>outgoing\<close>, \<open>paths\<close>, predecessors), the checks of
  \<open>_validate_structure\<close>, the topological sorting of the fields by Kahn's algorithm and the search for
  cycles.  Fields are represented by their identifiers in the canonical spelling that \<open>_normalize\<close>
  gives them, and links are compared by value.
\<close>

section \<open>Fields and links\<close>

type_synonym field = ident

definition INITIAL :: field where
  "INITIAL = ''Initial''"

definition FINAL :: field where
  "FINAL = ''Final''"

lemma INITIAL_not_FINAL [simp]: "INITIAL \<noteq> FINAL" "FINAL \<noteq> INITIAL"
  by (simp_all add: INITIAL_def FINAL_def)

record link =
  source :: field
  target :: field
  condition :: expr
  link_size :: expr
  link_first :: expr

text \<open>A link with the default aspects.\<close>

definition plain_link :: "field \<Rightarrow> field \<Rightarrow> link" where
  "plain_link s t = \<lparr>source = s, target = t, condition = TRUE, link_size = UndefinedExpr,
     link_first = UndefinedExpr\<rparr>"

lemma plain_link_simps [simp]:
  "source (plain_link s t) = s" "target (plain_link s t) = t" "condition (plain_link s t) = TRUE"
  "link_size (plain_link s t) = UndefinedExpr" "link_first (plain_link s t) = UndefinedExpr"
  by (simp_all add: plain_link_def)

text \<open>A structure in which the field B may be left out, used as an example.\<close>

definition optional_field :: "link list" where
  "optional_field = [plain_link INITIAL ''A'', plain_link ''A'' ''B'', plain_link ''A'' FINAL,
     plain_link ''B'' FINAL]"

definition incoming :: "link list \<Rightarrow> field \<Rightarrow> link list" where
  "incoming s f = filter (\<lambda>l. target l = f) s"

definition outgoing :: "link list \<Rightarrow> field \<Rightarrow> link list" where
  "outgoing s f = filter (\<lambda>l. source l = f) s"

definition direct_predecessors :: "link list \<Rightarrow> field \<Rightarrow> field list" where
  "direct_predecessors s f = rev (remdups (rev (map source (incoming s f))))"

definition direct_successors :: "link list \<Rightarrow> field \<Rightarrow> field list" where
  "direct_successors s f = rev (remdups (rev (map target (outgoing s f))))"

definition structure_fields :: "link list \<Rightarrow> field set" where
  "structure_fields s = source ` set s \<union> target ` set s"

lemma incoming_iff [simp]: "l \<in> set (incoming s f) \<longleftrightarrow> l \<in> set s \<and> target l = f"
  by (auto simp: incoming_def)

lemma outgoing_iff [simp]: "l \<in> set (outgoing s f) \<longleftrightarrow> l \<in> set s \<and> source l = f"
  by (auto simp: outgoing_def)

lemma incoming_empty: "incoming s f = [] \<longleftrightarrow> f \<notin> target ` set s"
  by (auto simp: incoming_def filter_empty_conv)

text \<open>Consecutive links meet.\<close>

fun chain :: "link list \<Rightarrow> bool" where
  "chain [] = True"
| "chain [l] = True"
| "chain (l # m # ls) = (target l = source m \<and> chain (m # ls))"

lemma chain_Cons: "chain (l # ls) \<longleftrightarrow> (ls = [] \<or> target l = source (hd ls)) \<and> chain ls"
  by (cases ls) auto

lemma chain_append:
  "chain (p @ q) \<longleftrightarrow> chain p \<and> chain q \<and> (p = [] \<or> q = [] \<or> target (last p) = source (hd q))"
proof (induction p)
  case (Cons l p)
  then show ?case by (cases p; cases q) (auto simp: chain_Cons)
qed simp

lemma chain_drop: "chain p \<Longrightarrow> chain (drop n p)"
  using chain_append [of "take n p" "drop n p"] by simp

section \<open>Reachability\<close>

definition edges :: "link list \<Rightarrow> (field \<times> field) set" where
  "edges s = {(source l, target l) | l. l \<in> set s}"

lemma edgesI: "l \<in> set s \<Longrightarrow> (source l, target l) \<in> edges s"
  by (auto simp: edges_def)

lemma finite_edges [simp]: "finite (edges s)"
proof -
  have "edges s = (\<lambda>l. (source l, target l)) ` set s" by (auto simp: edges_def)
  then show ?thesis by simp
qed

lemma chain_edges: "chain p \<Longrightarrow> p \<noteq> [] \<Longrightarrow> set p \<subseteq> set s \<Longrightarrow> (source (hd p), target (last p)) \<in> (edges s)\<^sup>+"
proof (induction p)
  case (Cons l p)
  show ?case
  proof (cases p)
    case Nil
    then show ?thesis using Cons.prems edgesI [of l s] by auto
  next
    case (Cons m q)
    then have "(source (hd p), target (last p)) \<in> (edges s)\<^sup>+" "target l = source (hd p)"
      using Cons.prems Cons.IH by auto
    then show ?thesis
      using Cons.prems edgesI [of l s] \<open>p = m # q\<close> by (auto intro: trancl_into_trancl2)
  qed
qed simp

lemma edges_chain:
  assumes "(f, g) \<in> (edges s)\<^sup>+"
  shows "\<exists>p. chain p \<and> p \<noteq> [] \<and> set p \<subseteq> set s \<and> source (hd p) = f \<and> target (last p) = g"
  using assms
proof (induction rule: trancl_induct)
  case (base y)
  then obtain l where "l \<in> set s" "source l = f" "target l = y" by (auto simp: edges_def)
  then show ?case by (intro exI [of _ "[l]"]) simp
next
  case (step y z)
  then obtain p l where p: "chain p" "p \<noteq> []" "set p \<subseteq> set s" "source (hd p) = f" "target (last p) = y"
    and l: "l \<in> set s" "source l = y" "target l = z" by (auto simp: edges_def)
  then show ?case by (intro exI [of _ "p @ [l]"]) (simp add: chain_append)
qed


section \<open>Topological sorting\<close>

text \<open>
  \<open>_compute_topological_sorting\<close>: a field joins the queue when its last incoming link has been visited.
  The queue, the visited links and the result are the state of the loop.
\<close>

definition visit :: "link list \<Rightarrow> link \<Rightarrow> link list \<times> field list \<Rightarrow> link list \<times> field list" where
  "visit s e vq =
     (let v = List.insert e (fst vq) in
      (v, if list_all (\<lambda>l. l \<in> set v) (incoming s (target e)) then snd vq @ [target e] else snd vq))"

fun kahn :: "nat \<Rightarrow> link list \<Rightarrow> field list \<Rightarrow> link list \<Rightarrow> field list \<Rightarrow> (field list \<times> link list) res"
where
  "kahn 0 s queue visited result = Inl OutOfFuel"
| "kahn (Suc n) s [] visited result = Inr (result, visited)"
| "kahn (Suc n) s (f # queue) visited result =
     (let vq = fold (visit s) (outgoing s f) (visited, queue)
      in kahn n s (snd vq) (fst vq) (result @ [f]))"

text \<open>
  The invariant: the fields seen so far are the initial field and those whose incoming links have all
  been visited, and each comes after the sources of its incoming links.
\<close>

definition complete_fields :: "link list \<Rightarrow> link set \<Rightarrow> field set" where
  "complete_fields s V = {f. incoming s f \<noteq> [] \<and> set (incoming s f) \<subseteq> V}"

definition precedes :: "link list \<Rightarrow> field list \<Rightarrow> bool" where
  "precedes s xs = (\<forall>ys f zs. xs = ys @ f # zs \<longrightarrow> (\<forall>l\<in>set (incoming s f). source l \<in> set ys))"

lemma precedes_snoc:
  "precedes s (xs @ [f]) \<longleftrightarrow> precedes s xs \<and> (\<forall>l\<in>set (incoming s f). source l \<in> set xs)"
proof
  assume a: "precedes s (xs @ [f])"
  have "precedes s xs"
    unfolding precedes_def
  proof (intro allI impI)
    fix ys g zs
    assume "xs = ys @ g # zs"
    then have "xs @ [f] = ys @ g # (zs @ [f])" by simp
    then show "\<forall>l\<in>set (incoming s g). source l \<in> set ys"
      using a unfolding precedes_def by blast
  qed
  with a show "precedes s xs \<and> (\<forall>l\<in>set (incoming s f). source l \<in> set xs)"
    unfolding precedes_def by blast
next
  assume a: "precedes s xs \<and> (\<forall>l\<in>set (incoming s f). source l \<in> set xs)"
  show "precedes s (xs @ [f])"
    unfolding precedes_def
  proof (intro allI impI)
    fix ys g zs
    assume "xs @ [f] = ys @ g # zs"
    then consider "zs = []" "xs = ys" "g = f" | zs' where "zs = zs' @ [f]" "xs = ys @ g # zs'"
      by (cases zs rule: rev_cases) auto
    then show "\<forall>l\<in>set (incoming s g). source l \<in> set ys"
      using a by cases (auto simp: precedes_def)
  qed
qed

lemma precedes_single: "incoming s f = [] \<Longrightarrow> precedes s [f]"
  using precedes_snoc [of s "[]" f] by (simp add: precedes_def)

text \<open>A structure without duplicate links in which no link leads back to the initial field.\<close>

definition well_linked :: "link list \<Rightarrow> bool" where
  "well_linked s = (distinct s \<and> INITIAL \<notin> target ` set s)"

definition seen_inv :: "link list \<Rightarrow> link list \<Rightarrow> field list \<Rightarrow> bool" where
  "seen_inv s V xs \<longleftrightarrow>
     distinct xs \<and> set xs = insert INITIAL (complete_fields s (set V)) \<and> precedes s xs"

lemma complete_insert:
  assumes "e \<in> set s" "e \<notin> V"
  shows "complete_fields s (insert e V) =
    (if set (incoming s (target e)) \<subseteq> insert e V then insert (target e) (complete_fields s V)
     else complete_fields s V)"
proof -
  have "f \<in> complete_fields s (insert e V) \<longleftrightarrow> f \<in> complete_fields s V" if "f \<noteq> target e" for f
    using that by (auto simp: complete_fields_def)
  moreover have "target e \<notin> complete_fields s V"
    using assms by (auto simp: complete_fields_def)
  moreover have "target e \<in> complete_fields s (insert e V) \<longleftrightarrow> set (incoming s (target e)) \<subseteq> insert e V"
    using assms(1) by (auto simp: complete_fields_def incoming_empty)
  ultimately show ?thesis by (intro set_eqI) (metis (full_types) insert_iff)
qed

lemma visit_simp:
  "visit s e (V, Q) = (List.insert e V,
     if set (incoming s (target e)) \<subseteq> insert e (set V) then Q @ [target e] else Q)"
proof -
  have "list_all (\<lambda>l. l \<in> insert e (set V)) xs = (set xs \<subseteq> insert e (set V))" for xs
    unfolding list_all_iff by blast
  then show ?thesis unfolding visit_def Let_def fst_conv snd_conv set_insert by simp
qed

lemma visit_inv:
  assumes wl: "well_linked s" and inv: "seen_inv s V (R @ f # Q)" and e: "e \<in> set s" "e \<notin> set V"
    and src: "source ` set (List.insert e V) \<subseteq> set (R @ [f])"
  shows "seen_inv s (fst (visit s e (V, Q))) (R @ f # snd (visit s e (V, Q)))"
proof (cases "set (incoming s (target e)) \<subseteq> insert e (set V)")
  case True
  have new: "target e \<notin> set (R @ f # Q)"
  proof -
    have "target e \<noteq> INITIAL" using e wl unfolding well_linked_def by (metis imageI)
    moreover have "target e \<notin> complete_fields s (set V)" using e by (auto simp: complete_fields_def)
    moreover have "set (R @ f # Q) = insert INITIAL (complete_fields s (set V))"
      using inv unfolding seen_inv_def by blast
    ultimately show ?thesis by simp
  qed
  have "\<forall>l\<in>set (incoming s (target e)). source l \<in> set (R @ f # Q)"
    using True src by auto
  then have "precedes s ((R @ f # Q) @ [target e])"
    using inv unfolding precedes_snoc seen_inv_def by blast
  moreover have "distinct ((R @ f # Q) @ [target e])"
    using inv new unfolding seen_inv_def by (subst distinct_append) simp_all
  moreover have "set ((R @ f # Q) @ [target e]) = insert INITIAL (complete_fields s (set (List.insert e V)))"
    using inv True complete_insert [OF e] unfolding seen_inv_def set_insert set_append by (simp add: insert_commute)
  ultimately show ?thesis
    using True unfolding visit_simp seen_inv_def by simp
next
  case False
  then show ?thesis
    using inv complete_insert [OF e]
    unfolding visit_simp seen_inv_def by (simp add: e)
qed

lemma fold_visit_inv:
  assumes wl: "well_linked s" and "seen_inv s V (R @ f # Q)" "set es \<subseteq> set s" "set es \<inter> set V = {}" "distinct es"
    "source ` (set es \<union> set V) \<subseteq> set (R @ [f])"
  shows "seen_inv s (fst (fold (visit s) es (V, Q))) (R @ f # snd (fold (visit s) es (V, Q))) \<and>
    set (fst (fold (visit s) es (V, Q))) = set es \<union> set V"
  using assms(2-)
proof (induction es arbitrary: V Q)
  case (Cons e es)
  obtain V' Q' where v: "visit s e (V, Q) = (V', Q')" by (cases "visit s e (V, Q)")
  have V': "set V' = insert e (set V)"
    using v by (auto simp: visit_simp)
  have "seen_inv s V' (R @ f # Q')"
    using visit_inv [OF wl Cons.prems(1), of e] Cons.prems v by auto
  then show ?case
    using Cons.IH [of V' Q'] Cons.prems V' v by auto
qed simp

definition loop_inv :: "link list \<Rightarrow> field list \<Rightarrow> link list \<Rightarrow> field list \<Rightarrow> bool" where
  "loop_inv s Q V R \<longleftrightarrow> seen_inv s V (R @ Q) \<and> set V = {l \<in> set s. source l \<in> set R}"

lemma loop_inv_start: "well_linked s \<Longrightarrow> loop_inv s [INITIAL] [] []"
  by (auto simp: well_linked_def loop_inv_def seen_inv_def complete_fields_def incoming_empty precedes_single)

lemma loop_inv_step:
  assumes wl: "well_linked s" and "loop_inv s (f # Q) V R"
  shows "loop_inv s (snd (fold (visit s) (outgoing s f) (V, Q))) (fst (fold (visit s) (outgoing s f) (V, Q))) (R @ [f])"
proof -
  have inv: "seen_inv s V (R @ f # Q)" and V: "set V = {l \<in> set s. source l \<in> set R}"
    using assms by (simp_all add: loop_inv_def)
  have "f \<notin> set R" using inv by (simp add: seen_inv_def)
  have d: "distinct (outgoing s f)"
    using wl by (simp add: well_linked_def outgoing_def)
  have new: "set (outgoing s f) \<inter> set V = {}"
    unfolding V using \<open>f \<notin> set R\<close> by auto
  have all: "set (outgoing s f) \<union> set V = {l \<in> set s. source l \<in> set (R @ [f])}"
    unfolding V by auto
  have src: "source ` (set (outgoing s f) \<union> set V) \<subseteq> set (R @ [f])"
    unfolding all by blast
  have sub: "set (outgoing s f) \<subseteq> set s" by auto
  show ?thesis
    using fold_visit_inv [OF wl inv sub new d src] all unfolding loop_inv_def by simp
qed

lemma seen_bound: "seen_inv s V xs \<Longrightarrow> length xs \<le> Suc (length s)"
proof -
  assume inv: "seen_inv s V xs"
  then have "set xs \<subseteq> insert INITIAL (target ` set s)"
    by (auto simp: seen_inv_def complete_fields_def incoming_empty)
  then have "card (set xs) \<le> card (insert INITIAL (target ` set s))"
    by (intro card_mono) auto
  also have "\<dots> \<le> Suc (card (target ` set s))"
    by (simp add: card_insert_if)
  also have "card (target ` set s) \<le> length s"
    by (meson card_image_le card_length finite_set le_trans)
  finally show ?thesis
    using inv distinct_card [of xs] by (simp add: seen_inv_def)
qed

lemma kahn_result:
  "well_linked s \<Longrightarrow> loop_inv s Q V R \<Longrightarrow> Suc (length s) < n + length R \<Longrightarrow>
   \<exists>R' V'. kahn n s Q V R = Inr (R', V') \<and> loop_inv s [] V' R'"
proof (induction n arbitrary: Q V R)
  case 0
  then have "length (R @ Q) \<le> Suc (length s)"
    using seen_bound [of s V "R @ Q"] by (simp add: loop_inv_def)
  with 0 show ?case by simp
next
  case (Suc n)
  show ?case
  proof (cases Q)
    case Nil
    then show ?thesis using Suc.prems by auto
  next
    case (Cons f Q')
    then show ?thesis
      using Suc.IH [OF Suc.prems(1) loop_inv_step] Suc.prems by (auto simp: Let_def)
  qed
qed

lemma kahn_start:
  "well_linked s \<Longrightarrow> \<exists>R V. kahn (Suc (Suc (length s))) s [INITIAL] [] [] = Inr (R, V) \<and> loop_inv s [] V R"
  using kahn_result [OF _ loop_inv_start, of s "Suc (Suc (length s))"] by (simp del: kahn.simps)

lemma loop_inv_end:
  assumes "loop_inv s [] V R"
  shows "distinct R" and "precedes s R"
    and visited_iff: "l \<in> set V \<longleftrightarrow> l \<in> set s \<and> source l \<in> set R"
    and result_iff: "f \<in> set R \<longleftrightarrow> f = INITIAL \<or> f \<in> complete_fields s (set V)"
proof -
  from assms have i: "seen_inv s V R" "set V = {l \<in> set s. source l \<in> set R}"
    by (simp_all add: loop_inv_def)
  show "distinct R" "precedes s R" using i(1) by (simp_all add: seen_inv_def)
  show "l \<in> set V \<longleftrightarrow> l \<in> set s \<and> source l \<in> set R" using i(2) by blast
  show "f \<in> set R \<longleftrightarrow> f = INITIAL \<or> f \<in> complete_fields s (set V)"
    using i(1) unfolding seen_inv_def by blast
qed

lemma loop_inv_all:
  assumes "loop_inv s [] V R" "set s \<subseteq> set V"
  shows "set R = insert INITIAL (structure_fields s)"
proof -
  have "f \<in> complete_fields s (set V) \<longleftrightarrow> f \<in> target ` set s" for f
    using assms(2) by (auto simp: complete_fields_def incoming_empty)
  moreover have "source ` set s \<subseteq> set R"
    using assms(2) visited_iff [OF assms(1)] by blast
  ultimately show ?thesis
    using result_iff [OF assms(1)] unfolding structure_fields_def by blast
qed

text \<open>A link that is never visited has an unvisited link before it, unless its source has no incoming link.\<close>

lemma unvisited_step:
  assumes "loop_inv s [] V R" "l \<in> set s" "l \<notin> set V" "source l = INITIAL \<or> incoming s (source l) \<noteq> []"
  shows "\<exists>k\<in>set s. k \<notin> set V \<and> target k = source l"
proof -
  have "source l \<notin> set R"
    using assms(2,3) visited_iff [OF assms(1)] by blast
  then have "source l \<noteq> INITIAL" "source l \<notin> complete_fields s (set V)"
    using result_iff [OF assms(1)] by blast+
  with assms(4) show ?thesis
    by (auto simp: complete_fields_def)
qed

lemma visited_if_acyclic:
  assumes inv: "loop_inv s [] V R" and acyclic: "acyclic (edges s)"
    and reach: "\<And>l. l \<in> set s \<Longrightarrow> source l = INITIAL \<or> incoming s (source l) \<noteq> []"
  shows "set s \<subseteq> set V"
proof -
  have "wf (edges s)"
    using acyclic by (intro finite_acyclic_wf) simp_all
  then have "l \<in> set s \<Longrightarrow> source l = f \<Longrightarrow> l \<in> set V" for f l
  proof (induction f arbitrary: l rule: wf_induct_rule)
    case (less f)
    show ?case
    proof (rule ccontr)
      assume "l \<notin> set V"
      then obtain k where k: "k \<in> set s" "k \<notin> set V" "target k = source l"
        using unvisited_step [OF inv less.prems(1)] reach less.prems by blast
      then have "(source k, f) \<in> edges s"
        using edgesI [of k s] less.prems by simp
      then show False using less.IH [of "source k" k] k by simp
    qed
  qed
  then show ?thesis by blast
qed

lemma precedes_position:
  assumes "precedes s R" "distinct R" "l \<in> set s" "target l \<in> set R"
  shows "length (takeWhile (\<lambda>g. g \<noteq> source l) R) < length (takeWhile (\<lambda>g. g \<noteq> target l) R)"
proof -
  obtain ys zs where R: "R = ys @ target l # zs"
    using assms(4) split_list [of "target l" R] by blast
  then have "source l \<in> set ys"
    using assms(1,3) unfolding precedes_def by auto
  then obtain us vs where ys: "ys = us @ source l # vs" and "source l \<notin> set us"
    by (meson split_list_first)
  then have "takeWhile (\<lambda>g. g \<noteq> source l) (us @ source l # vs @ target l # zs) = us"
    by (subst takeWhile_append2) auto
  moreover have "takeWhile (\<lambda>g. g \<noteq> target l) R = ys"
    using assms(2) unfolding R by (subst takeWhile_append2) auto
  ultimately show ?thesis using R ys by simp
qed

lemma precedes_acyclic:
  assumes "precedes s R" "distinct R" "target ` set s \<subseteq> set R"
  shows "acyclic (edges s)"
proof -
  have "edges s \<subseteq> measure (\<lambda>f. length (takeWhile (\<lambda>g. g \<noteq> f) R))"
    using precedes_position [OF assms(1,2)] assms(3) by (auto simp: edges_def)
  then show ?thesis
    using wf_acyclic [OF wf_measure] acyclic_subset by blast
qed

text \<open>
  The loop itself, on whatever structure; \<open>_find_cycles\<close> is only called for the error messages.
\<close>

definition kahn_fuel :: "link list \<Rightarrow> nat" where
  "kahn_fuel s = Suc (Suc (length s))"

definition topological_sorting :: "bool \<Rightarrow> link list \<Rightarrow> field list option res" where
  "topological_sorting has_unreachable s =
     bind_res (kahn (kahn_fuel s) s [INITIAL] [] []) (\<lambda>(result, visited).
       if \<not> has_unreachable \<and> \<not> list_all (\<lambda>l. l \<in> set visited) s then Inr None
       else Inr (Some (filter (\<lambda>f. f \<noteq> INITIAL \<and> f \<noteq> FINAL) result)))"

lemma kahn_cases:
  assumes "well_linked s"
  obtains R V where "kahn (kahn_fuel s) s [INITIAL] [] [] = Inr (R, V)" "loop_inv s [] V R"
  using kahn_start [OF assms] unfolding kahn_fuel_def by blast

lemma sorted_iff_acyclic:
  assumes "well_linked s" "\<forall>l\<in>set s. source l = INITIAL \<or> incoming s (source l) \<noteq> []"
  shows "if acyclic (edges s) then \<exists>fs. topological_sorting False s = Inr (Some fs)
    else topological_sorting False s = Inr None"
proof -
  obtain R V where k: "kahn (kahn_fuel s) s [INITIAL] [] [] = Inr (R, V)" and inv: "loop_inv s [] V R"
    by (rule kahn_cases [OF assms(1)])
  have "list_all (\<lambda>l. l \<in> set V) s \<longleftrightarrow> acyclic (edges s)"
  proof
    assume "list_all (\<lambda>l. l \<in> set V) s"
    then have "set s \<subseteq> set V" by (auto simp: list_all_iff)
    then have "target ` set s \<subseteq> set R"
      using loop_inv_all [OF inv] by (auto simp: structure_fields_def)
    then show "acyclic (edges s)"
      using precedes_acyclic loop_inv_end(1,2) [OF inv] by blast
  next
    assume "acyclic (edges s)"
    then show "list_all (\<lambda>l. l \<in> set V) s"
      using visited_if_acyclic [OF inv] assms(2) by (auto simp: list_all_iff)
  qed
  then show ?thesis
    by (simp add: topological_sorting_def k)
qed





end
