(* ===== verification/Message_Paths.thy ===== *)
theory Message_Paths
  imports Message_Graph
begin

text \<open>
  The paths of a message (\<open>paths\<close>, \<open>definite_predecessors\<close> and \<open>path_condition\<close> of
  \<open>rflx/model/message.py\<close>).  The recursion over the predecessors of a field ends only if the structure
  has no cycle, which \<open>_compute_topological_sorting\<close> has established before; the model takes fuel.
\<close>

section \<open>Paths\<close>

text \<open>
  The set of paths is a list without duplicates; the caches of the code change no result, as the
  functions have no other effect.
\<close>

fun paths :: "nat \<Rightarrow> link list \<Rightarrow> field \<Rightarrow> link list list res" where
  "paths 0 s f = Inl OutOfFuel"
| "paths (Suc n) s f =
     (if f = INITIAL then Inr []
      else bind_res (map_res (\<lambda>l.
             bind_res (paths n s (source l)) (\<lambda>ps.
               Inr (if ps = [] then [[l]] else map (\<lambda>p. p @ [l]) ps))) (incoming s f))
           (\<lambda>pss. Inr (concat pss)))"

definition is_path :: "link list \<Rightarrow> field \<Rightarrow> link list \<Rightarrow> bool" where
  "is_path s f p =
     (p \<noteq> [] \<and> chain p \<and> set p \<subseteq> set s \<and> source (hd p) = INITIAL \<and> target (last p) = f)"

lemma is_path_snoc:
  "is_path s f (p @ [l]) \<longleftrightarrow>
     l \<in> set s \<and> target l = f \<and> (if p = [] then source l = INITIAL else is_path s (source l) p)"
  by (auto simp: is_path_def chain_append)

text \<open>A field is ranked above the sources of its incoming links.\<close>

definition ranked :: "(field \<Rightarrow> nat) \<Rightarrow> link list \<Rightarrow> bool" where
  "ranked r s = (\<forall>l\<in>set s. r (source l) < r (target l))"

lemma paths_exact:
  assumes wl: "well_linked s" and ranked: "ranked r s"
    and reach: "\<forall>l\<in>set s. source l = INITIAL \<or> incoming s (source l) \<noteq> []"
  shows "r f < n \<Longrightarrow> \<exists>ps. paths n s f = Inr ps \<and> distinct ps \<and> set ps = {p. is_path s f p} \<and>
    (ps = [] \<longleftrightarrow> f = INITIAL \<or> incoming s f = [])"
proof (induction n arbitrary: f)
  case 0
  then show ?case by simp
next
  case (Suc n)
  show ?case
  proof (cases "f = INITIAL")
    case True
    have "INITIAL \<notin> target ` set s" using wl by (simp add: well_linked_def)
    then have "\<not> is_path s INITIAL p" for p
      unfolding is_path_def by (metis last_in_set image_eqI subsetD)
    then show ?thesis using True by simp
  next
    case False
    define P where "P g = (SOME ps. paths n s g = Inr ps)" for g
    have P: "paths n s (source l) = Inr (P (source l))" "distinct (P (source l))"
        "set (P (source l)) = {p. is_path s (source l) p}" "P (source l) = [] \<longleftrightarrow> source l = INITIAL"
      if "l \<in> set (incoming s f)" for l
    proof -
      have l: "l \<in> set s" "target l = f" using that by auto
      then have "r (source l) < n" using ranked Suc.prems by (auto simp: ranked_def)
      then obtain ps where ps: "paths n s (source l) = Inr ps" "distinct ps"
        "set ps = {p. is_path s (source l) p}"
        "ps = [] \<longleftrightarrow> source l = INITIAL \<or> incoming s (source l) = []"
        using Suc.IH by blast
      then have "P (source l) = ps" unfolding P_def by simp
      then show "paths n s (source l) = Inr (P (source l))" "distinct (P (source l))"
        "set (P (source l)) = {p. is_path s (source l) p}" "P (source l) = [] \<longleftrightarrow> source l = INITIAL"
        using ps reach l by auto
    qed
    define ext where "ext l = (if P (source l) = [] then [[l]] else map (\<lambda>p. p @ [l]) (P (source l)))" for l
    have "map_res (\<lambda>l. bind_res (paths n s (source l)) (\<lambda>ps.
        Inr (if ps = [] then [[l]] else map (\<lambda>p. p @ [l]) ps))) (incoming s f) = Inr (map ext (incoming s f))"
      by (rule map_res_all_Inr) (simp add: P(1) ext_def)
    then have result: "paths (Suc n) s f = Inr (concat (map ext (incoming s f)))"
      using False by simp
    have ext: "ext l \<noteq> []" "\<And>p. p \<in> set (ext l) \<Longrightarrow> p \<noteq> [] \<and> last p = l" for l
      by (auto simp: ext_def split: if_splits)
    have dist: "distinct (concat (map ext ls))" if "distinct ls" "set ls \<subseteq> set (incoming s f)" for ls
      using that
    proof (induction ls)
      case (Cons l ls)
      have "distinct (ext l)"
        using P(2) [of l] Cons.prems by (simp add: ext_def distinct_map inj_on_def)
      moreover have "set (ext l) \<inter> set (concat (map ext ls)) = {}"
      proof (rule ccontr)
        assume "set (ext l) \<inter> set (concat (map ext ls)) \<noteq> {}"
        then obtain p k where "p \<in> set (ext l)" "k \<in> set ls" "p \<in> set (ext k)" by auto
        then show False using ext(2) [of p l] ext(2) [of p k] Cons.prems by simp
      qed
      ultimately show ?case using Cons by simp
    qed simp
    have inc: "distinct (incoming s f)"
      using wl by (simp add: incoming_def well_linked_def)
    have mem: "p \<in> set (concat (map ext (incoming s f))) \<longleftrightarrow> is_path s f p" for p
    proof (cases p rule: rev_cases)
      case Nil
      then show ?thesis using ext(2) by (auto simp: is_path_def)
    next
      case (snoc q l)
      have "p \<in> set (concat (map ext (incoming s f))) \<longleftrightarrow> l \<in> set (incoming s f) \<and> p \<in> set (ext l)"
      proof
        assume "p \<in> set (concat (map ext (incoming s f)))"
        then obtain k where "k \<in> set (incoming s f)" "p \<in> set (ext k)" by auto
        then show "l \<in> set (incoming s f) \<and> p \<in> set (ext l)"
          using ext(2) [of p k] snoc by simp
      qed auto
      also have "\<dots> \<longleftrightarrow> is_path s f p"
      proof (cases "l \<in> set (incoming s f)")
        case True
        then have "P (source l) = [] \<longleftrightarrow> source l = INITIAL" "q \<in> set (P (source l)) \<longleftrightarrow> is_path s (source l) q"
          using P(3,4) by auto
        then show ?thesis
          using True unfolding snoc is_path_snoc by (auto simp: ext_def is_path_def)
      qed (auto simp: snoc is_path_snoc)
      finally show ?thesis .
    qed
    have empty: "concat (map ext (incoming s f)) = [] \<longleftrightarrow> f = INITIAL \<or> incoming s f = []"
      using ext(1) False by (cases "incoming s f") simp_all
    have set: "set (concat (map ext (incoming s f))) = {p. is_path s f p}"
      using mem by blast
    show ?thesis
      by (rule exI, intro conjI, rule result, rule dist [OF inc order_refl], rule set, rule empty)
  qed
qed

text \<open>The order found by the sorting ranks the fields.\<close>

lemma sorted_ranked:
  assumes "well_linked s" "topological_sorting False s = Inr (Some fs)"
  obtains r where "ranked r s" "\<And>f. r f \<le> Suc (length s)"
proof -
  obtain R V where k: "kahn (kahn_fuel s) s [INITIAL] [] [] = Inr (R, V)" and inv: "loop_inv s [] V R"
    by (rule kahn_cases [OF assms(1)])
  from assms(2) k have "set s \<subseteq> set V"
    by (auto simp: topological_sorting_def list_all_iff split: if_splits)
  then have "target ` set s \<subseteq> set R"
    using loop_inv_all [OF inv] by (auto simp: structure_fields_def)
  then have "ranked (\<lambda>f. length (takeWhile (\<lambda>g. g \<noteq> f) R)) s"
    using precedes_position [OF loop_inv_end(2,1) [OF inv]] by (auto simp: ranked_def)
  moreover have "length (takeWhile (\<lambda>g. g \<noteq> f) R) \<le> Suc (length s)" for f
    using seen_bound [of s V R] inv length_takeWhile_le [of "\<lambda>g. g \<noteq> f" R]
    by (simp add: loop_inv_def)
  ultimately show ?thesis by (rule that)
qed

text \<open>
  C23. In a structure that was sorted and has no unreachable field, the recursion returns, and the paths
  to a field are exactly the chains of links from the initial field to that field, each once.
\<close>

theorem paths_complete:
  assumes "well_linked s" "topological_sorting False s = Inr (Some fs)"
    and "\<forall>l\<in>set s. source l = INITIAL \<or> incoming s (source l) \<noteq> []" "Suc (length s) < n"
  shows "\<exists>ps. paths n s f = Inr ps \<and> distinct ps \<and> (\<forall>p. p \<in> set ps \<longleftrightarrow>
    p \<noteq> [] \<and> chain p \<and> set p \<subseteq> set s \<and> source (hd p) = INITIAL \<and> target (last p) = f)"
proof -
  obtain r where r: "ranked r s" "r f < n"
    using sorted_ranked [OF assms(1,2)] assms(4) by (metis le_less_trans)
  then obtain ps where "paths n s f = Inr ps" "distinct ps" "set ps = {p. is_path s f p}"
    using paths_exact [OF assms(1) r(1) assms(3) r(2)] by blast
  then show ?thesis unfolding is_path_def by blast
qed

theorem paths_complete_witness:
  "\<exists>ps. paths 6 optional_field FINAL = Inr ps \<and> distinct ps \<and> (\<forall>p. p \<in> set ps \<longleftrightarrow>
    p \<noteq> [] \<and> chain p \<and> set p \<subseteq> set optional_field \<and> source (hd p) = INITIAL \<and> target (last p) = FINAL)"
  by (rule paths_complete [where fs = "[''A'', ''B'']"])
    (simp add: optional_field_def well_linked_def plain_link_def INITIAL_def FINAL_def, code_simp+)

section \<open>Definite predecessors\<close>

definition definite_predecessors :: "nat \<Rightarrow> link list \<Rightarrow> field list \<Rightarrow> field \<Rightarrow> field list res" where
  "definite_predecessors n s fs f =
     bind_res (paths n s f) (\<lambda>ps.
       Inr (filter (\<lambda>g. list_all (\<lambda>p. list_ex (\<lambda>l. g = source l) p) ps) fs))"

text \<open>
  C25. The definite predecessors of a field are the fields that every path to it leaves.
\<close>

theorem definite_predecessors_dominate:
  assumes "well_linked s" "topological_sorting False s = Inr (Some fs)"
    and "\<forall>l\<in>set s. source l = INITIAL \<or> incoming s (source l) \<noteq> []" "Suc (length s) < n"
  shows "\<exists>ds. definite_predecessors n s fs f = Inr ds \<and>
    set ds = {g \<in> set fs. \<forall>p. is_path s f p \<longrightarrow> g \<in> source ` set p}"
proof -
  obtain r where r: "ranked r s" "r f < n"
    using sorted_ranked [OF assms(1,2)] assms(4) by (metis le_less_trans)
  then obtain ps where "paths n s f = Inr ps" "set ps = {p. is_path s f p}"
    using paths_exact [OF assms(1) r(1) assms(3) r(2)] by blast
  then show ?thesis
    by (auto simp: definite_predecessors_def list_all_iff list_ex_iff)
qed

theorem definite_predecessors_dominate_witness:
  "\<exists>ds. definite_predecessors 6 optional_field [''A'', ''B''] FINAL = Inr ds \<and>
    set ds = {g \<in> set [''A'', ''B'']. \<forall>p. is_path optional_field FINAL p \<longrightarrow> g \<in> source ` set p}"
  by (rule definite_predecessors_dominate)
    (simp add: optional_field_def well_linked_def plain_link_def INITIAL_def FINAL_def, code_simp+)

section \<open>Path conditions\<close>

fun path_condition :: "nat \<Rightarrow> link list \<Rightarrow> field \<Rightarrow> expr res" where
  "path_condition 0 s f = Inl OutOfFuel"
| "path_condition (Suc n) s f =
     (if f = INITIAL then Inr TRUE
      else bind_res (map_res (\<lambda>l.
             bind_res (path_condition n s (source l)) (\<lambda>c. Inr (Ass And [c, condition l]))) (incoming s f))
           (\<lambda>cs. simplified (Ass Or cs)))"

lemma path_condition_returns:
  assumes "ranked r s"
  shows "r f < n \<Longrightarrow> returns (\<lambda>_. True) (path_condition n s f)"
proof (induction n arbitrary: f)
  case (Suc n)
  have "returns (\<lambda>_. True) (path_condition n s (source l))" if "l \<in> set s" "target l = f" for l
    using that Suc assms by (force simp: ranked_def)
  then have "returns (\<lambda>_. True) (map_res (\<lambda>l. bind_res (path_condition n s (source l))
      (\<lambda>c. Inr (Ass And [c, condition l]))) (incoming s f))"
    by (intro returns_map_res returns_bind [where Q = "\<lambda>_. True"]) simp_all
  then show ?case
    by (auto intro!: returns_bind [where Q = "\<lambda>_. True"] returns_mono [OF simplified_at_most])
qed simp

end
