(* ===== verification/Message_Checks.thy ===== *)
theory Message_Checks
  imports Message_Paths
begin

text \<open>
  The checks on the structure of a message (\<open>_validate_structure\<close>), the search for cycles that explains
  why a structure cannot be sorted (\<open>_find_cycles\<close>) and the removal of fields that lead nowhere after
  messages have been merged (\<open>_prune_dangling_fields\<close>), all in \<open>rflx/model/message.py\<close>.
\<close>

section \<open>Fields without a path to the final field\<close>

text \<open>\<open>has_final\<close>: the fields on the way are remembered, and a cycle counts as a success.\<close>

fun has_final :: "nat \<Rightarrow> link list \<Rightarrow> field \<Rightarrow> field list \<Rightarrow> bool res" where
  "has_final 0 s f seen = Inl OutOfFuel"
| "has_final (Suc n) s f seen =
     (if f \<in> set seen then Inr True
      else if f = FINAL then Inr True
      else any_res (\<lambda>l. has_final n s (target l) (f # seen)) (outgoing s f))"

definition productive :: "link list \<Rightarrow> field \<Rightarrow> bool" where
  "productive s f =
     ((f, FINAL) \<in> (edges s)\<^sup>* \<or> (\<exists>g. (f, g) \<in> (edges s)\<^sup>* \<and> (g, g) \<in> (edges s)\<^sup>+))"

lemma has_final_fuel:
  "card (structure_fields s - set seen) < n \<Longrightarrow> \<exists>b. has_final n s f seen = Inr b"
proof (induction n arbitrary: f seen)
  case (Suc n)
  show ?case
  proof (cases "f \<in> set seen \<or> f = FINAL")
    case False
    have "\<exists>b. has_final n s (target l) (f # seen) = Inr b" if "l \<in> set (outgoing s f)" for l
    proof -
      have fin: "finite (structure_fields s)" by (simp add: structure_fields_def)
      have "f \<in> structure_fields s - set seen"
        using that False by (auto simp: structure_fields_def)
      moreover have "structure_fields s - set (f # seen) = (structure_fields s - set seen) - {f}"
        by auto
      ultimately have "card (structure_fields s - set (f # seen)) < card (structure_fields s - set seen)"
        using fin by (metis card_Diff1_less finite_Diff)
      then show ?thesis
        using Suc.prems by (intro Suc.IH) simp
    qed
    then have "\<forall>l\<in>set (outgoing s f). \<exists>b. has_final n s (target l) (f # seen) = Inr b" by blast
    then obtain b where "\<forall>l\<in>set (outgoing s f). has_final n s (target l) (f # seen) = Inr (b l)"
      by metis
    then have "any_res (\<lambda>l. has_final n s (target l) (f # seen)) (outgoing s f) =
        Inr (\<exists>l\<in>set (outgoing s f). b l)"
      by (intro any_res_all_Inr) simp
    with False show ?thesis by simp
  qed auto
qed simp

lemma any_res_False: "any_res f xs = Inr False \<Longrightarrow> x \<in> set xs \<Longrightarrow> f x = Inr False"
  by (induction xs) (auto simp: bind_res_eq_Inr split: if_splits)

lemma any_res_True: "any_res f xs = Inr True \<Longrightarrow> \<exists>x\<in>set xs. f x = Inr True"
  by (induction xs) (auto simp: bind_res_eq_Inr split: if_splits)

lemma has_final_False:
  "has_final n s f seen = Inr False \<Longrightarrow> (f, g) \<in> (edges s)\<^sup>* \<Longrightarrow>
   g \<noteq> FINAL \<and> g \<notin> set seen \<and> (g, g) \<notin> (edges s)\<^sup>+"
proof (induction n arbitrary: f g seen)
  case (Suc n)
  have f: "f \<notin> set seen" "f \<noteq> FINAL"
    and any: "any_res (\<lambda>l. has_final n s (target l) (f # seen)) (outgoing s f) = Inr False"
    using Suc.prems(1) by (auto split: if_splits)
  have next_field: "h \<noteq> FINAL \<and> h \<notin> set (f # seen) \<and> (h, h) \<notin> (edges s)\<^sup>+"
    if "(f, x) \<in> edges s" "(x, h) \<in> (edges s)\<^sup>*" for x h
  proof -
    from that(1) obtain l where l: "l \<in> set (outgoing s f)" "target l = x"
      by (auto simp: edges_def)
    then have "has_final n s x (f # seen) = Inr False"
      using any_res_False [OF any l(1)] by simp
    then show ?thesis using Suc.IH that(2) by blast
  qed
  from Suc.prems(2) consider "g = f" | x where "(f, x) \<in> edges s" "(x, g) \<in> (edges s)\<^sup>*"
    by (auto elim: converse_rtranclE)
  then show ?case
  proof cases
    case 1
    have "(f, f) \<notin> (edges s)\<^sup>+"
    proof
      assume "(f, f) \<in> (edges s)\<^sup>+"
      then obtain x where "(f, x) \<in> edges s" "(x, f) \<in> (edges s)\<^sup>*"
        by (auto dest: tranclD)
      then show False using next_field by fastforce
    qed
    then show ?thesis using f 1 by simp
  next
    case 2
    then show ?thesis using next_field by auto
  qed
qed simp

lemma has_final_True:
  "has_final n s f seen = Inr True \<Longrightarrow> (\<forall>g\<in>set seen. (g, f) \<in> (edges s)\<^sup>+) \<Longrightarrow> productive s f"
proof (induction n arbitrary: f seen)
  case (Suc n)
  consider "f \<in> set seen" | "f = FINAL"
    | "f \<notin> set seen" "any_res (\<lambda>l. has_final n s (target l) (f # seen)) (outgoing s f) = Inr True"
    using Suc.prems(1) by (auto split: if_splits)
  then show ?case
  proof cases
    case 1
    then show ?thesis using Suc.prems(2) by (auto simp: productive_def)
  next
    case 2
    then show ?thesis by (simp add: productive_def)
  next
    case 3
    then obtain l where l: "l \<in> set (outgoing s f)" "has_final n s (target l) (f # seen) = Inr True"
      using any_res_True by blast
    then have e: "(f, target l) \<in> edges s" using edgesI [of l s] by simp
    then have "\<forall>g\<in>set (f # seen). (g, target l) \<in> (edges s)\<^sup>+"
      using Suc.prems(2) by (auto intro: trancl_into_trancl)
    then have "productive s (target l)"
      using Suc.IH [OF l(2)] by blast
    then show ?thesis
      using e unfolding productive_def by (blast intro: converse_rtrancl_into_rtrancl)
  qed
qed simp

definition has_final_fuel_of :: "link list \<Rightarrow> nat" where
  "has_final_fuel_of s = Suc (2 * length s)"

lemma card_structure_fields: "card (structure_fields s) \<le> 2 * length s"
proof -
  have "card (structure_fields s) \<le> card (source ` set s) + card (target ` set s)"
    unfolding structure_fields_def by (rule card_Un_le)
  also have "\<dots> \<le> length s + length s"
    by (intro add_mono; meson card_image_le card_length finite_set le_trans)
  finally show ?thesis by simp
qed

lemma has_final_decides:
  "has_final (has_final_fuel_of s) s f [] = Inr (productive s f)"
proof -
  obtain b where b: "has_final (has_final_fuel_of s) s f [] = Inr b"
    using has_final_fuel [of s "[]" "has_final_fuel_of s" f] card_structure_fields [of s]
    by (auto simp: has_final_fuel_of_def)
  show ?thesis
  proof (cases b)
    case True
    then show ?thesis using b has_final_True [of _ s f "[]"] by simp
  next
    case False
    then have no: "g \<noteq> FINAL \<and> (g, g) \<notin> (edges s)\<^sup>+" if "(f, g) \<in> (edges s)\<^sup>*" for g
      using has_final_False [OF _ that] b by simp
    have "\<not> productive s f"
      unfolding productive_def using no by blast
    then show ?thesis using b False by simp
  qed
qed

section \<open>Validation of the structure\<close>

datatype structure_error =
    UnreachableField field
  | NoPathToFinal field
  | DuplicateLinks field field

definition field_list :: "link list \<Rightarrow> field list" where
  "field_list s = remdups (map source s @ map target s)"

lemma field_list_set [simp]: "set (field_list s) = structure_fields s"
  by (simp add: field_list_def structure_fields_def)

definition unreachable_fields :: "link list \<Rightarrow> field list" where
  "unreachable_fields s =
     filter (\<lambda>f. \<not> list_ex (\<lambda>l. f = INITIAL \<or> f = target l) s) (field_list s)"

text \<open>The links are grouped by source, target and condition; a group of two or more is an error.\<close>

definition link_key :: "link \<Rightarrow> field \<times> field \<times> expr" where
  "link_key l = (source l, target l, condition l)"

definition duplicate_links :: "link list \<Rightarrow> (field \<times> field) list" where
  "duplicate_links s =
     map (\<lambda>k. (fst k, fst (snd k)))
       (filter (\<lambda>k. 1 < length (filter (\<lambda>l. link_key l = k) s)) (rev (remdups (rev (map link_key s)))))"

text \<open>
  \<open>_validate_structure\<close>: whether there are unreachable fields, and the errors.  The code goes through the
  set of fields in an arbitrary order and then through the sorted fields; the order of the errors is
  not modelled.
\<close>

definition validate_structure :: "link list \<Rightarrow> (bool \<times> structure_error list) res" where
  "validate_structure s =
     bind_res (map_res (\<lambda>f. bind_res (has_final (has_final_fuel_of s) s f []) (\<lambda>b. Inr (f, b)))
         (INITIAL # field_list s)) (\<lambda>fbs.
       Inr (unreachable_fields s \<noteq> [],
            map UnreachableField (unreachable_fields s)
            @ map (\<lambda>fb. NoPathToFinal (fst fb)) (filter (\<lambda>fb. \<not> snd fb) fbs)
            @ map (\<lambda>d. DuplicateLinks (fst d) (snd d)) (duplicate_links s)))"

lemma validate_structure_value:
  "validate_structure s =
     Inr (unreachable_fields s \<noteq> [],
          map UnreachableField (unreachable_fields s)
          @ map NoPathToFinal (filter (\<lambda>f. \<not> productive s f) (INITIAL # field_list s))
          @ map (\<lambda>d. DuplicateLinks (fst d) (snd d)) (duplicate_links s))"
proof -
  have "map_res (\<lambda>f. bind_res (has_final (has_final_fuel_of s) s f []) (\<lambda>b. Inr (f, b))) fs
      = Inr (map (\<lambda>f. (f, productive s f)) fs)" for fs
    by (rule map_res_all_Inr) (simp add: has_final_decides)
  then show ?thesis
    unfolding validate_structure_def by (simp add: filter_map o_def del: map_res_Cons)
qed

lemma no_duplicate_links: "duplicate_links s = [] \<longleftrightarrow> distinct (map link_key s)"
proof -
  have "(\<forall>k\<in>set (map link_key s). length (filter (\<lambda>l. link_key l = k) s) \<le> 1) \<longleftrightarrow> distinct (map link_key s)"
  proof (induction s)
    case (Cons l s)
    have "length (filter (\<lambda>m. link_key m = k) (l # s)) \<le> 1 \<longleftrightarrow>
        (if link_key l = k then k \<notin> link_key ` set s else length (filter (\<lambda>m. link_key m = k) s) \<le> 1)" for k
    proof (cases "link_key l = k")
      case True
      then have "k \<notin> link_key ` set s \<longleftrightarrow> filter (\<lambda>m. link_key m = k) s = []"
        by (auto simp: filter_empty_conv image_iff)
      then show ?thesis using True by simp
    qed simp
    then show ?case
      using Cons by (auto simp: image_iff filter_empty_conv)
  qed simp
  then show ?thesis
    by (auto simp: duplicate_links_def filter_empty_conv linorder_not_less)
qed

definition sound_structure :: "link list \<Rightarrow> bool" where
  "sound_structure s =
     (distinct (map link_key s) \<and> acyclic (edges s)
      \<and> (\<forall>f\<in>structure_fields s. (INITIAL, f) \<in> (edges s)\<^sup>* \<and> (f, FINAL) \<in> (edges s)\<^sup>*))"

lemma unreachable_none:
  assumes "s \<noteq> []"
  shows "unreachable_fields s = [] \<longleftrightarrow> (\<forall>f\<in>structure_fields s. f = INITIAL \<or> f \<in> target ` set s)"
  using assms by (cases s) (auto simp: unreachable_fields_def filter_empty_conv list_ex_iff)

lemma reached_from_initial:
  assumes "acyclic (edges s)" "\<forall>f\<in>structure_fields s. f = INITIAL \<or> f \<in> target ` set s"
  shows "f \<in> structure_fields s \<Longrightarrow> (INITIAL, f) \<in> (edges s)\<^sup>*"
proof -
  have "wf (edges s)"
    using assms(1) by (intro finite_acyclic_wf) simp_all
  then show "f \<in> structure_fields s \<Longrightarrow> (INITIAL, f) \<in> (edges s)\<^sup>*"
  proof (induction f rule: wf_induct_rule)
    case (less f)
    show ?case
    proof (cases "f = INITIAL")
      case False
      then obtain l where l: "l \<in> set s" "target l = f"
        using assms(2) less.prems by blast
      then have "(source l, f) \<in> edges s" "source l \<in> structure_fields s"
        using edgesI [of l s] by (auto simp: structure_fields_def)
      then show ?thesis using less.IH by (blast intro: rtrancl_into_rtrancl)
    qed simp
  qed
qed

lemma target_if_reached: "(INITIAL, f) \<in> (edges s)\<^sup>* \<Longrightarrow> f = INITIAL \<or> f \<in> target ` set s"
  by (auto simp: edges_def elim: rtranclE)

lemma sound_structure_accepted:
  assumes "s \<noteq> []" "INITIAL \<notin> target ` set s" "INITIAL \<in> source ` set s"
  shows "(validate_structure s = Inr (False, []) \<and> acyclic (edges s)) \<longleftrightarrow> sound_structure s"
proof
  assume l: "validate_structure s = Inr (False, []) \<and> acyclic (edges s)"
  then have u: "\<forall>f\<in>structure_fields s. f = INITIAL \<or> f \<in> target ` set s"
    and p: "\<forall>f\<in>structure_fields s. productive s f" and d: "distinct (map link_key s)"
    using unreachable_none [OF assms(1)] no_duplicate_links [of s]
    by (auto simp: validate_structure_value filter_empty_conv simp del: filter.simps split: if_splits)
  have "(f, FINAL) \<in> (edges s)\<^sup>*" if "f \<in> structure_fields s" for f
    using p l that by (auto simp: productive_def acyclic_def)
  then show "sound_structure s"
    using reached_from_initial [OF _ u] l d by (auto simp: sound_structure_def)
next
  assume r: "sound_structure s"
  have i: "INITIAL \<in> structure_fields s" using assms(3) by (auto simp: structure_fields_def)
  have "unreachable_fields s = []"
    using r target_if_reached unreachable_none [OF assms(1)] by (auto simp: sound_structure_def)
  moreover have "filter (\<lambda>f. \<not> productive s f) (INITIAL # field_list s) = []"
    using r i by (auto simp: sound_structure_def productive_def filter_empty_conv)
  moreover have "duplicate_links s = []"
    using r no_duplicate_links by (auto simp: sound_structure_def)
  ultimately show "validate_structure s = Inr (False, []) \<and> acyclic (edges s)"
    using r by (simp add: validate_structure_value sound_structure_def del: filter.simps)
qed

text \<open>
  C16. The structure check and the sorting decide a declarative property: they accept a structure exactly
  if no link is duplicated, every field is on a path from the initial to the final field, and
  there is no cycle.
\<close>

theorem structure_accepted_iff:
  assumes "s \<noteq> []" "INITIAL \<notin> target ` set s" "INITIAL \<in> source ` set s"
  shows "(validate_structure s = Inr (False, []) \<and> (\<exists>fs. topological_sorting False s = Inr (Some fs)))
    \<longleftrightarrow> distinct (map link_key s) \<and> acyclic (edges s)
      \<and> (\<forall>f\<in>structure_fields s. (INITIAL, f) \<in> (edges s)\<^sup>* \<and> (f, FINAL) \<in> (edges s)\<^sup>*)"
proof -
  have "(\<exists>fs. topological_sorting False s = Inr (Some fs)) \<longleftrightarrow> acyclic (edges s)"
    if v: "validate_structure s = Inr (False, [])"
  proof -
    have "unreachable_fields s = []" "distinct (map link_key s)"
      using v no_duplicate_links [of s] by (auto simp: validate_structure_value)
    then have "well_linked s" "\<forall>l\<in>set s. source l = INITIAL \<or> incoming s (source l) \<noteq> []"
      using assms(2) unreachable_none [OF assms(1)]
      by (auto simp: well_linked_def distinct_map incoming_empty structure_fields_def)
    from sorted_iff_acyclic [OF this] show ?thesis by (auto split: if_splits)
  qed
  then show ?thesis
    using sound_structure_accepted [OF assms] unfolding sound_structure_def by blast
qed

theorem structure_accepted_iff_witness:
  "(validate_structure optional_field = Inr (False, [])
      \<and> (\<exists>fs. topological_sorting False optional_field = Inr (Some fs)))
    \<longleftrightarrow> distinct (map link_key optional_field) \<and> acyclic (edges optional_field)
      \<and> (\<forall>f\<in>structure_fields optional_field.
            (INITIAL, f) \<in> (edges optional_field)\<^sup>* \<and> (f, FINAL) \<in> (edges optional_field)\<^sup>*)"
  by (rule structure_accepted_iff) (simp_all add: optional_field_def INITIAL_def FINAL_def)

section \<open>Cycles\<close>

text \<open>
  \<open>search_cycles\<close>: the dictionary \<open>visited\<close> and the list \<open>cycle\<close> are shared by all calls, so they are
  returned.  A field that is neither the source of a link nor the final field is not a key of the
  dictionary, and looking it up raises a \<open>KeyError\<close>.  The assignment \<open>cycle = cycle[start_index:]\<close> of the
  code rebinds a local name and has no effect.
\<close>

type_synonym marks = "field \<rightharpoonup> bool"

fun search_cycles ::
    "nat \<Rightarrow> link list \<Rightarrow> link \<Rightarrow> marks \<Rightarrow> link list \<Rightarrow> (bool \<times> marks \<times> link list) res"
  and search_outgoing ::
    "nat \<Rightarrow> link list \<Rightarrow> link \<Rightarrow> link list \<Rightarrow> marks \<Rightarrow> link list \<Rightarrow> (bool \<times> marks \<times> link list) res"
where
  "search_cycles 0 s l visited cycle = Inl OutOfFuel"
| "search_cycles (Suc n) s l visited cycle =
     search_outgoing n s l (outgoing s (target l)) (visited(source l \<mapsto> True)) (cycle @ [l])"
| "search_outgoing n s l [] visited cycle = Inr (False, visited, butlast cycle)"
| "search_outgoing n s l (k # ks) visited cycle =
     (case visited (target k) of
        None \<Rightarrow> Inl (KeyError (target k))
      | Some False \<Rightarrow>
          bind_res (search_cycles n s k visited cycle) (\<lambda>r.
            case r of (found, visited', cycle') \<Rightarrow>
              if found then Inr (True, visited', cycle')
              else search_outgoing n s l ks visited' cycle')
      | Some True \<Rightarrow> Inr (True, visited(target l \<mapsto> True), cycle @ [k]))"

definition search_fuel :: "link list \<Rightarrow> nat" where
  "search_fuel s = 2 * length s + 4"

fun find_cycles_from ::
    "link list \<Rightarrow> link list \<Rightarrow> marks \<Rightarrow> link list list \<Rightarrow> link list list res" where
  "find_cycles_from s [] visited cycles = Inr cycles"
| "find_cycles_from s (l # ls) visited cycles =
     (case visited (source l) of
        None \<Rightarrow> Inl (KeyError (source l))
      | Some True \<Rightarrow> find_cycles_from s ls visited cycles
      | Some False \<Rightarrow>
          bind_res (search_cycles (search_fuel s) s l visited []) (\<lambda>r.
            case r of (found, visited', cycle) \<Rightarrow>
              find_cycles_from s ls visited' (if found then cycles @ [cycle] else cycles)))"

text \<open>\<open>_filter_relevant_links\<close>\<close>

definition relevant_links :: "link list \<Rightarrow> link list" where
  "relevant_links cycle = dropWhile (\<lambda>l. source l \<noteq> target (last cycle)) cycle"

definition initial_marks :: "link list \<Rightarrow> marks" where
  "initial_marks s = (\<lambda>f. if f = FINAL \<or> f \<in> source ` set s then Some False else None)"

definition find_cycles :: "link list \<Rightarrow> link list list res" where
  "find_cycles s =
     bind_res (find_cycles_from s (filter (\<lambda>l. source l \<noteq> INITIAL \<and> target l \<noteq> FINAL) s)
         (initial_marks s) []) (\<lambda>cycles. Inr (map relevant_links cycles))"

text \<open>The list grows to a chain of links of the structure, and is restored when nothing was found.\<close>

lemma search_chain:
  "search_cycles n s l visited cycle = Inr (found, visited', cycle') \<Longrightarrow>
   chain (cycle @ [l]) \<Longrightarrow> set (cycle @ [l]) \<subseteq> set s \<Longrightarrow>
   (if found then chain cycle' \<and> set cycle' \<subseteq> set s \<and> cycle' \<noteq> [] else cycle' = cycle)"
  "search_outgoing n s l ks visited cycle = Inr (found, visited', cycle') \<Longrightarrow>
   set ks \<subseteq> set (outgoing s (target l)) \<Longrightarrow> cycle = c @ [l] \<Longrightarrow> chain cycle \<Longrightarrow> set cycle \<subseteq> set s \<Longrightarrow>
   (if found then chain cycle' \<and> set cycle' \<subseteq> set s \<and> cycle' \<noteq> [] else cycle' = c)"
proof (induction n s l visited cycle and n s l ks visited cycle
    arbitrary: found visited' cycle' and found visited' cycle' c
    rule: search_cycles_search_outgoing.induct)
  case (2 n s l visited cycle)
  have eq: "(\<lambda>a. if a = source l then Some True else visited a) = visited(source l \<mapsto> True)"
    by auto
  have "search_outgoing n s l (outgoing s (target l)) (visited(source l \<mapsto> True)) (cycle @ [l])
      = Inr (found, visited', cycle')"
    using "2.prems"(1) by simp
  then show ?case
    using "2.IH" [of found visited' cycle' cycle] "2.prems"(2,3) eq by simp
next
  case (4 n s l k ks visited cycle)
  have k: "k \<in> set s" "chain (cycle @ [k])"
    using "4.prems" by (auto simp: chain_append)
  show ?case
  proof (cases "visited (target k)")
    case None
    then show ?thesis using "4.prems" by simp
  next
    case (Some b)
    show ?thesis
    proof (cases b)
      case True
      then show ?thesis using "4.prems" Some k by auto
    next
      case False
      then obtain f' v' c' where c: "search_cycles n s k visited cycle = Inr (f', v', c')"
          and r: "(if f' then Inr (True, v', c') else search_outgoing n s l ks v' c')
             = Inr (found, visited', cycle')"
        using "4.prems"(1) Some by (auto simp: bind_res_eq_Inr split: prod.splits)
      have ih: "if f' then chain c' \<and> set c' \<subseteq> set s \<and> c' \<noteq> [] else c' = cycle"
        using "4.IH"(1) [OF Some] False c k "4.prems" by auto
      show ?thesis
      proof (cases f')
        case True
        then show ?thesis using r ih by simp
      next
        case f: False
        show ?thesis
          using "4.IH"(2) [OF Some _ c refl refl f, of found visited' cycle' c] False f r ih c "4.prems" by auto
      qed
    qed
  qed
qed (auto)

text \<open>Every call of the search marks a field or follows a link to an unmarked one.\<close>

definition unmarked :: "marks \<Rightarrow> field set" where
  "unmarked v = {f. v f = Some False}"

lemma unmarked_upd [simp]: "unmarked (v(f \<mapsto> True)) = unmarked v - {f}"
  by (auto simp: unmarked_def)

definition needed :: "marks \<Rightarrow> field \<Rightarrow> nat" where
  "needed v f = 2 * card (unmarked v) + (if f \<in> unmarked v then 0 else 1)"

lemma needed_mono:
  assumes "finite (unmarked v)" "unmarked v' \<subseteq> unmarked v - {f}"
  shows "needed v' f \<le> needed v f"
proof -
  have "card (unmarked v') \<le> card (unmarked v - {f})"
    using assms by (intro card_mono) auto
  then show ?thesis
    using assms card_gt_0_iff [of "unmarked v"] by (auto simp: needed_def card_Diff_singleton_if split: if_splits)
qed

lemma search_returns:
  "finite (unmarked visited) \<Longrightarrow> needed visited (source l) < n \<Longrightarrow>
   source l \<in> unmarked visited \<or> target l \<in> unmarked visited \<Longrightarrow>
   returns (\<lambda>r. unmarked (fst (snd r)) \<subseteq> unmarked visited - {source l}) (search_cycles n s l visited cycle)"
  "finite (unmarked visited) \<Longrightarrow> needed visited (target l) < n \<Longrightarrow> set ks \<subseteq> set (outgoing s (target l)) \<Longrightarrow>
   returns (\<lambda>r. unmarked (fst (snd r)) \<subseteq> unmarked visited) (search_outgoing n s l ks visited cycle)"
proof (induction n s l visited cycle and n s l ks visited cycle rule: search_cycles_search_outgoing.induct)
  case (2 n s l visited cycle)
  have "needed (visited(source l \<mapsto> True)) (target l) < n"
  proof (cases "source l \<in> unmarked visited")
    case True
    then have "0 < card (unmarked visited)"
      using "2.prems"(1) card_gt_0_iff by blast
    then show ?thesis using True "2.prems" by (auto simp: needed_def)
  next
    case False
    then show ?thesis using "2.prems" by (auto simp: needed_def)
  qed
  moreover have "(\<lambda>a. if a = source l then Some True else visited a) = visited(source l \<mapsto> True)"
    by auto
  ultimately show ?case
    using "2.IH" "2.prems" by simp
next
  case (4 n s l k ks visited cycle)
  show ?case
  proof (cases "visited (target k)")
    case None
    then show ?thesis by simp
  next
    case (Some b)
    show ?thesis
    proof (cases b)
      case True
      then show ?thesis using Some by auto
    next
      case False
      have src: "source k = target l" using "4.prems" by auto
      have tgt: "target k \<in> unmarked visited" using Some False by (simp add: unmarked_def)
      have "returns (\<lambda>r. unmarked (fst (snd r)) \<subseteq> unmarked visited - {source k})
          (search_cycles n s k visited cycle)"
        using "4.IH"(1) [OF Some] False "4.prems" src tgt by simp
      then have "returns (\<lambda>r. unmarked (fst (snd r)) \<subseteq> unmarked visited)
          (bind_res (search_cycles n s k visited cycle) (\<lambda>r.
            case r of (found, visited', cycle') \<Rightarrow>
              if found then Inr (True, visited', cycle')
              else search_outgoing n s l ks visited' cycle'))"
      proof (rule returns_bind, goal_cases)
        case (1 r)
        obtain f' v' c' where r: "r = (f', v', c')" by (cases r) auto
        have sub: "unmarked v' \<subseteq> unmarked visited - {target l}" using 1 r src by simp
        have "returns (\<lambda>r. unmarked (fst (snd r)) \<subseteq> unmarked v') (search_outgoing n s l ks v' c')" if "\<not> f'"
        proof (rule "4.IH"(2) [OF Some _ 1(1) r [symmetric] refl that])
          show "b = False" using False by simp
          show "finite (unmarked v')" using sub "4.prems"(1) by (auto intro: finite_subset)
          show "needed v' (target l) < n"
            using needed_mono [OF "4.prems"(1) sub] "4.prems"(2) by simp
          show "set ks \<subseteq> set (outgoing s (target l))" using "4.prems"(3) by simp
        qed
        then show ?case
          unfolding r prod.case using sub by (cases f') (auto intro: returns_mono)
      qed
      then show ?thesis using Some False by simp
    qed
  qed
qed (auto simp: needed_def)

lemma find_cycles_from_returns:
  assumes "set ls \<subseteq> set s" "finite (unmarked visited)" "card (unmarked visited) \<le> Suc (length s)"
    "\<forall>c\<in>set cycles. c \<noteq> [] \<and> chain c \<and> set c \<subseteq> set s"
  shows "returns (\<lambda>cs. \<forall>c\<in>set cs. c \<noteq> [] \<and> chain c \<and> set c \<subseteq> set s) (find_cycles_from s ls visited cycles)"
  using assms
proof (induction ls arbitrary: visited cycles)
  case (Cons l ls)
  show ?case
  proof (cases "visited (source l)")
    case (Some b)
    show ?thesis
    proof (cases b)
      case False
      have src: "source l \<in> unmarked visited" using Some False by (simp add: unmarked_def)
      have "needed visited (source l) < search_fuel s"
        using Cons.prems src by (simp add: needed_def search_fuel_def)
      then have "returns (\<lambda>r. unmarked (fst (snd r)) \<subseteq> unmarked visited - {source l})
          (search_cycles (search_fuel s) s l visited [])"
        using Cons.prems src by (intro search_returns) auto
      then have "returns (\<lambda>cs. \<forall>c\<in>set cs. c \<noteq> [] \<and> chain c \<and> set c \<subseteq> set s)
          (bind_res (search_cycles (search_fuel s) s l visited []) (\<lambda>r.
            case r of (found, visited', cycle) \<Rightarrow>
              find_cycles_from s ls visited' (if found then cycles @ [cycle] else cycles)))"
      proof (rule returns_bind, goal_cases)
        case (1 r)
        obtain f v c where r: "r = (f, v, c)" by (cases r) auto
        have sub: "unmarked v \<subseteq> unmarked visited" using 1 r by auto
        have "finite (unmarked v)" "card (unmarked v) \<le> Suc (length s)"
          using sub Cons.prems(2,3) card_mono [OF Cons.prems(2) sub] by (auto intro: finite_subset)
        moreover have "\<forall>d\<in>set (if f then cycles @ [c] else cycles). d \<noteq> [] \<and> chain d \<and> set d \<subseteq> set s"
          using Cons.prems search_chain(1) [OF 1(1) [unfolded r]] by auto
        ultimately show ?case
          unfolding r prod.case using Cons.prems by (intro Cons.IH) auto
      qed
      then show ?thesis using Some False by simp
    qed (use Cons Some in simp)
  qed simp
qed simp

lemma chain_dropWhile: "chain c \<Longrightarrow> chain (dropWhile P c)"
  by (metis chain_drop dropWhile_eq_drop)

text \<open>
  C27. The search for cycles always ends.  Whatever it reports is a chain of links of the structure that
  leads from a field back to that field, or the empty list.
\<close>

theorem find_cycles_genuine:
  "returns (list_all (\<lambda>c. c = [] \<or> chain c \<and> set c \<subseteq> set s \<and> source (hd c) = target (last c)))
     (find_cycles s)"
proof -
  have u: "unmarked (initial_marks s) = insert FINAL (source ` set s)"
    by (auto simp: unmarked_def initial_marks_def)
  have "card (unmarked (initial_marks s)) \<le> Suc (length s)"
  proof -
    have "card (source ` set s) \<le> length s"
      by (meson card_image_le card_length finite_set le_trans)
    then show ?thesis unfolding u by (simp add: card_insert_if)
  qed
  then have r: "returns (\<lambda>cs. \<forall>c\<in>set cs. c \<noteq> [] \<and> chain c \<and> set c \<subseteq> set s)
      (find_cycles_from s (filter (\<lambda>l. source l \<noteq> INITIAL \<and> target l \<noteq> FINAL) s) (initial_marks s) [])"
    by (intro find_cycles_from_returns) (auto simp: u)
  have genuine: "relevant_links c = [] \<or> (chain (relevant_links c) \<and> set (relevant_links c) \<subseteq> set s
      \<and> source (hd (relevant_links c)) = target (last (relevant_links c)))"
    if "chain c" "set c \<subseteq> set s" for c
  proof (cases "relevant_links c = []")
    case False
    then have "source (hd (relevant_links c)) = target (last c)"
      unfolding relevant_links_def using hd_dropWhile by blast
    moreover have "last (relevant_links c) = last c"
      using False unfolding relevant_links_def by (metis last_append takeWhile_dropWhile_id)
    moreover have "set (relevant_links c) \<subseteq> set s"
      using that(2) set_dropWhileD unfolding relevant_links_def by fast
    ultimately show ?thesis
      using chain_dropWhile [OF that(1)] by (simp add: relevant_links_def)
  qed simp
  show ?thesis
    unfolding find_cycles_def by (rule returns_bind [OF r]) (use genuine in \<open>simp add: list_all_iff\<close>)
qed

text \<open>
  \<open>_compute_topological_sorting\<close> as a whole: a structure that cannot be sorted is searched for cycles,
  each of which becomes an error.
\<close>

definition compute_topological_sorting ::
    "bool \<Rightarrow> link list \<Rightarrow> (link list list \<times> field list option) res"
where
  "compute_topological_sorting has_unreachable s =
     bind_res (topological_sorting has_unreachable s) (\<lambda>r.
       case r of
         None \<Rightarrow> bind_res (find_cycles s) (\<lambda>cycles. Inr (cycles, None))
       | Some fs \<Rightarrow> Inr ([], Some fs))"

text \<open>
  A structure with a cycle and a field without outgoing links makes the search fail with a
  \<open>KeyError\<close>, which is not one of the errors of the model: the dictionary of visited fields has no
  entry for that field.
\<close>

definition dead_end_beside_cycle :: "link list" where
  "dead_end_beside_cycle =
     [plain_link ''A'' ''C'', plain_link ''A'' ''X'', plain_link INITIAL ''X'', plain_link ''X'' ''A'',
      plain_link ''X'' FINAL]"

lemma dead_end_beside_cycle_crashes:
  "compute_topological_sorting False dead_end_beside_cycle = Inl (KeyError ''C'')"
  by code_simp

section \<open>Fields that lead nowhere\<close>

text \<open>\<open>_prune_dangling_fields\<close>: the loop over the links; the second result collects the removed fields.\<close>

definition dangling_fields :: "link list \<Rightarrow> field list" where
  "dangling_fields s =
     filter (\<lambda>f. f \<noteq> FINAL \<and> list_all (\<lambda>l. source l \<noteq> f) s) (field_list s)"

lemma dangling_shrinks:
  assumes "dangling_fields s \<noteq> []"
  shows "length (filter (\<lambda>l. target l \<notin> set (dangling @ dangling_fields s)) s) < length s"
proof -
  obtain f where f: "f \<in> set (dangling_fields s)"
    using assms by (cases "dangling_fields s") auto
  then obtain l where "l \<in> set s" "target l = f"
    by (auto simp: dangling_fields_def structure_fields_def list_all_iff)
  then show ?thesis
    using f by (intro length_filter_less) auto
qed

function prune_links :: "link list \<Rightarrow> field list \<Rightarrow> link list \<times> field list" where
  "prune_links s dangling =
     (if dangling_fields s = [] then (filter (\<lambda>l. target l \<notin> set dangling) s, dangling)
      else prune_links (filter (\<lambda>l. target l \<notin> set (dangling @ dangling_fields s)) s)
             (dangling @ dangling_fields s))"
  by pat_completeness auto
termination
  by (relation "measure (\<lambda>(s, d). length s)") (auto simp: dangling_shrinks simp del: set_append)

declare prune_links.simps [simp del]

definition prune_dangling_fields ::
    "link list \<Rightarrow> (field \<times> 't) list \<Rightarrow> (field \<times> 'b) list
     \<Rightarrow> link list \<times> (field \<times> 't) list \<times> (field \<times> 'b) list"
where
  "prune_dangling_fields s field_types byte_order =
     (case prune_links s [] of
        (s', dangling) \<Rightarrow>
          (s', filter (\<lambda>ft. fst ft \<notin> set dangling) field_types,
           filter (\<lambda>fb. fst fb \<notin> set dangling) byte_order))"

text \<open>A set of links from each of which one can go on within the set, or has arrived.\<close>

definition leads_on :: "link set \<Rightarrow> bool" where
  "leads_on S = (\<forall>l\<in>S. target l = FINAL \<or> (\<exists>m\<in>S. source m = target l))"

lemma prune_links_dangling: "set dangling \<subseteq> set (snd (prune_links s dangling))"
proof (induction s dangling rule: prune_links.induct)
  case (1 s dangling)
  show ?case
  proof (cases "dangling_fields s = []")
    case True
    then show ?thesis by (subst prune_links.simps) simp
  next
    case False
    have "prune_links s dangling = prune_links (filter (\<lambda>l. target l \<notin> set (dangling @ dangling_fields s)) s)
        (dangling @ dangling_fields s)"
      using False by (subst prune_links.simps) simp
    then show ?thesis using "1.IH" [OF False] by simp
  qed
qed

lemma prune_links_inv:
  assumes "\<forall>l\<in>set s. target l \<notin> set dangling" "FINAL \<notin> set dangling"
  shows "leads_on (set (fst (prune_links s dangling))) \<and>
    (\<forall>S. S \<subseteq> set s \<and> leads_on S \<longrightarrow> S \<subseteq> set (fst (prune_links s dangling))) \<and>
    set (fst (prune_links s dangling)) = {l \<in> set s. target l \<notin> set (snd (prune_links s dangling))}"
  using assms
proof (induction s dangling rule: prune_links.induct)
  case (1 s dangling)
  show ?case
  proof (cases "dangling_fields s = []")
    case True
    have "filter (\<lambda>l. target l \<notin> set dangling) s = s"
      using "1.prems"(1) by (intro filter_True) blast
    then have r: "prune_links s dangling = (s, dangling)"
      using True by (subst prune_links.simps) simp
    have "leads_on (set s)"
      using True by (auto simp: leads_on_def dangling_fields_def filter_empty_conv structure_fields_def list_all_iff)
    then show ?thesis using "1.prems"(1) by (auto simp: r)
  next
    case False
    let ?d = "dangling @ dangling_fields s" and ?t = "filter (\<lambda>l. target l \<notin> set (dangling @ dangling_fields s)) s"
    have r: "prune_links s dangling = prune_links ?t ?d"
      using False by (subst prune_links.simps) simp
    have fin: "FINAL \<notin> set ?d"
      using "1.prems"(2) by (simp add: dangling_fields_def)
    have "\<forall>l\<in>set ?t. target l \<notin> set ?d" by simp
    note ih = "1.IH" [OF False this fin]
    have d: "set ?d \<subseteq> set (snd (prune_links ?t ?d))"
      by (rule prune_links_dangling)
    have sub: "S \<subseteq> set ?t" if S: "S \<subseteq> set s" "leads_on S" for S
    proof
      fix l assume l: "l \<in> S"
      have "target l \<notin> set (dangling_fields s)"
        using S l by (auto simp: leads_on_def dangling_fields_def list_all_iff)
      then show "l \<in> set ?t" using "1.prems"(1) S l by auto
    qed
    have "set (fst (prune_links ?t ?d)) = {l \<in> set s. target l \<notin> set (snd (prune_links ?t ?d))}"
      using ih [THEN conjunct2, THEN conjunct2] d by fastforce
    moreover have "\<forall>S. S \<subseteq> set s \<and> leads_on S \<longrightarrow> S \<subseteq> set (fst (prune_links ?t ?d))"
      using ih [THEN conjunct2, THEN conjunct1] sub by blast
    ultimately show ?thesis
      unfolding r using ih [THEN conjunct1] by blast
  qed
qed

text \<open>
  C28. Pruning keeps the largest part of a structure in which every link ends at the final field or can be
  followed by another link, and drops the types and byte orders of exactly the fields it removes.
\<close>

theorem prune_dangling_fields_largest:
  "case prune_dangling_fields s field_types byte_order of (s', fts, bos) \<Rightarrow>
     leads_on (set s') \<and> set s' \<subseteq> set s \<and> (\<forall>S. S \<subseteq> set s \<and> leads_on S \<longrightarrow> S \<subseteq> set s') \<and>
     (\<exists>removed. set s' = {l \<in> set s. target l \<notin> removed} \<and>
        set fts = {ft \<in> set field_types. fst ft \<notin> removed} \<and>
        set bos = {bo \<in> set byte_order. fst bo \<notin> removed})"
proof -
  obtain s' d where p: "prune_links s [] = (s', d)" by (cases "prune_links s []")
  have inv: "leads_on (set s') \<and> (\<forall>S. S \<subseteq> set s \<and> leads_on S \<longrightarrow> S \<subseteq> set s') \<and>
    set s' = {l \<in> set s. target l \<notin> set d}"
    using prune_links_inv [of s "[]"] unfolding p fst_conv snd_conv by (metis empty_iff list.set(1))
  show ?thesis
    unfolding prune_dangling_fields_def p prod.case
  proof (intro conjI exI [of _ "set d"])
    show "leads_on (set s')" "\<forall>S. S \<subseteq> set s \<and> leads_on S \<longrightarrow> S \<subseteq> set s'"
      "set s' = {l \<in> set s. target l \<notin> set d}"
      using inv by blast+
    then show "set s' \<subseteq> set s" by auto
  qed auto
qed

theorem prune_dangling_fields_largest_witness:
  "leads_on {plain_link INITIAL ''A'', plain_link ''A'' FINAL}"
proof -
  have "prune_dangling_fields [plain_link INITIAL ''A'', plain_link ''A'' ''B'', plain_link ''A'' FINAL]
      ([] :: (field \<times> nat) list) ([] :: (field \<times> nat) list)
    = ([plain_link INITIAL ''A'', plain_link ''A'' FINAL], [], [])"
    by code_simp
  then show ?thesis
    using prune_dangling_fields_largest [of "[plain_link INITIAL ''A'', plain_link ''A'' ''B'', plain_link ''A'' FINAL]"
        "[] :: (field \<times> nat) list" "[] :: (field \<times> nat) list"]
    by simp
qed

end
