(* ===== verification/Bitstring.thy ===== *)
theory Bitstring
  imports Prelude "HOL-Library.Word" "HOL-Library.Multiset"
begin

text \<open>
  Bit strings and the Internet checksum of the Python run-time library (\<open>rflx/pyrflx/bitstring.py\<close> and
  \<open>rflx/pyrflx/utils.py\<close>).  Bits are the characters 0 and 1, bytes are 8-bit words.
\<close>

section \<open>Bit strings\<close>

type_synonym bits = string

type_synonym byte = "8 word"

definition valid_bitstring :: "string \<Rightarrow> bool" where
  "valid_bitstring s = list_all (\<lambda>c. c = CHR ''0'' \<or> c = CHR ''1'') s"

definition bitstring_error :: py_error where
  "bitstring_error = PyRFLXError [''Bitstring does not consist of only 0 and 1'']"

definition bitstring :: "string \<Rightarrow> bits res" where
  "bitstring s = (if valid_bitstring s then Inr s else Inl bitstring_error)"

text \<open>\<open>__add__\<close>, \<open>__getitem__\<close> with an index and with the slice \<open>[i:j]\<close>.\<close>

definition add_bits :: "bits \<Rightarrow> bits \<Rightarrow> bits res" where
  "add_bits a b = bitstring (a @ b)"

definition get_bit :: "bits \<Rightarrow> int \<Rightarrow> bits res" where
  "get_bit b k =
     (let i = (if k < 0 then k + int (length b) else k) in
      if 0 \<le> i \<and> i < int (length b) then bitstring [b ! nat i] else Inl IndexError)"

definition get_slice :: "bits \<Rightarrow> nat \<Rightarrow> nat \<Rightarrow> bits res" where
  "get_slice b i j = (if length b < j then Inl IndexError else bitstring (take (j - i) (drop i b)))"

text \<open>\<open>int(bits, 2)\<close>: the empty string is refused.\<close>

definition bit_val :: "char \<Rightarrow> nat" where
  "bit_val c = (if c = CHR ''1'' then 1 else 0)"

definition bits_val :: "bits \<Rightarrow> nat" where
  "bits_val b = foldl (\<lambda>n c. 2 * n + bit_val c) 0 b"

definition bits_int :: "bits \<Rightarrow> nat res" where
  "bits_int b = (if b = [] then Inl ValueError else Inr (bits_val b))"

text \<open>\<open>__bytes__\<close>: eight bits at a time; a last group of fewer bits is a number of its own.\<close>

fun bits_bytes :: "bits \<Rightarrow> byte list" where
  "bits_bytes b =
     (if b = [] then [] else word_of_nat (bits_val (take 8 b)) # bits_bytes (drop 8 b))"

declare bits_bytes.simps [simp del]

text \<open>\<open>swap\<close>: the order of the bytes is reversed.\<close>

fun swap_bytes :: "bits \<Rightarrow> bits" where
  "swap_bytes b = (if b = [] then [] else swap_bytes (drop 8 b) @ take 8 b)"

declare swap_bytes.simps [simp del]

definition swap_bitstring :: "bits \<Rightarrow> bits res" where
  "swap_bitstring b =
     (if 8 < length b \<and> length b mod 8 = 0 then bitstring (swap_bytes b) else Inl AssertionError)"

text \<open>
  \<open>from_bytes\<close>: the number is formatted with leading zeros to eight digits a byte.  Without bytes the
  width is zero, and the text of the number 0 still has one digit.
\<close>

definition bytes_val :: "byte list \<Rightarrow> nat" where
  "bytes_val bs = foldl (\<lambda>n b. 256 * n + unat b) 0 bs"

fun bin_digits :: "nat \<Rightarrow> string" where
  "bin_digits n = (if n < 2 then [if n = 1 then CHR ''1'' else CHR ''0'']
                   else bin_digits (n div 2) @ [if n mod 2 = 1 then CHR ''1'' else CHR ''0''])"

declare bin_digits.simps [simp del]

definition format_bin :: "nat \<Rightarrow> nat \<Rightarrow> string" where
  "format_bin w n = replicate (w - length (bin_digits n)) CHR ''0'' @ bin_digits n"

definition from_bytes :: "byte list \<Rightarrow> bits res" where
  "from_bytes bs = bitstring (format_bin (8 * length bs) (bytes_val bs))"

definition join_bits :: "bits list \<Rightarrow> bits" where
  "join_bits bs = foldl (@) [] bs"

section \<open>Values of bit strings\<close>

lemma foldl_bits: "foldl (\<lambda>n c. 2 * n + bit_val c) a b = a * 2 ^ length b + bits_val b"
proof (induction b rule: rev_induct)
  case (snoc c b)
  then show ?case by (simp add: bits_val_def algebra_simps)
qed (simp add: bits_val_def)

lemma bits_val_append: "bits_val (a @ b) = bits_val a * 2 ^ length b + bits_val b"
  using foldl_bits [of "bits_val a" b] by (simp add: bits_val_def)

lemma bits_val_Nil [simp]: "bits_val [] = 0"
  by (simp add: bits_val_def)

lemma bits_val_single [simp]: "bits_val [c] = bit_val c"
  by (simp add: bits_val_def)

lemma bit_val_le: "bit_val c \<le> 1"
  by (simp add: bit_val_def)

lemma bits_val_less: "bits_val b < 2 ^ length b"
proof (induction b rule: rev_induct)
  case (snoc c b)
  then show ?case
    using bit_val_le [of c] by (simp add: bits_val_append)
qed simp

lemma bits_val_zeros [simp]: "bits_val (replicate n CHR ''0'') = 0"
  by (induction n) (simp_all add: replicate_append_same [symmetric] bits_val_append bit_val_def)

lemma bits_val_inj:
  "length a = length b \<Longrightarrow> valid_bitstring a \<Longrightarrow> valid_bitstring b \<Longrightarrow> bits_val a = bits_val b \<Longrightarrow> a = b"
proof (induction a arbitrary: b rule: rev_induct)
  case (snoc c a)
  then obtain d e where b: "b = d @ [e]" "length d = length a"
    by (cases b rule: rev_cases) auto
  have v: "valid_bitstring a" "valid_bitstring d" "c = CHR ''0'' \<or> c = CHR ''1''" "e = CHR ''0'' \<or> e = CHR ''1''"
    using snoc.prems b by (auto simp: valid_bitstring_def)
  have "2 * bits_val a + bit_val c = 2 * bits_val d + bit_val e"
    using snoc.prems(4) b by (simp add: bits_val_append mult.commute)
  moreover have "bit_val c = (2 * bits_val a + bit_val c) mod 2" "bit_val e = (2 * bits_val d + bit_val e) mod 2"
    by (simp_all add: bit_val_def)
  ultimately have ce: "bit_val c = bit_val e" and "bits_val a = bits_val d" by simp_all
  then have "a = d" using snoc.IH [of d] b v by simp
  moreover have "c = e" using ce v by (auto simp: bit_val_def)
  ultimately show ?case using b by simp
qed simp

lemma bin_digits_val: "bits_val (bin_digits n) = n"
proof (induction n rule: bin_digits.induct)
  case (1 n)
  show ?case
  proof (cases "n < 2")
    case True
    then have "n = 0 \<or> n = 1" by linarith
    then show ?thesis by (subst bin_digits.simps) (auto simp: bit_val_def)
  next
    case False
    then have "bits_val (bin_digits n) = bits_val (bin_digits (n div 2)) * 2 + n mod 2"
      by (subst bin_digits.simps) (simp add: bits_val_append bit_val_def)
    then show ?thesis using 1 False by simp
  qed
qed

lemma bin_digits_valid: "valid_bitstring (bin_digits n)"
proof (induction n rule: bin_digits.induct)
  case (1 n)
  then show ?case by (subst bin_digits.simps) (auto simp: valid_bitstring_def)
qed

lemma bin_digits_length: "n < 2 ^ k \<Longrightarrow> 0 < k \<Longrightarrow> length (bin_digits n) \<le> k"
proof (induction n arbitrary: k rule: bin_digits.induct)
  case (1 n)
  show ?case
  proof (cases "n < 2")
    case True
    then show ?thesis using 1 by (subst bin_digits.simps) simp
  next
    case False
    then obtain j where j: "k = Suc j" "0 < j"
      using 1 by (cases k; cases "k - 1") auto
    then have "n div 2 < 2 ^ j" using 1 by simp
    then show ?thesis using 1 False j by (subst bin_digits.simps) simp
  qed
qed

lemma valid_parts: "valid_bitstring (a @ b) \<longleftrightarrow> valid_bitstring a \<and> valid_bitstring b"
  by (simp add: valid_bitstring_def)

lemma format_bin_valid: "valid_bitstring (format_bin w n)"
proof -
  have "valid_bitstring (replicate k CHR ''0'')" for k
    by (induction k) (simp_all add: valid_bitstring_def)
  then show ?thesis
    by (simp only: format_bin_def valid_parts bin_digits_valid)
qed

lemma format_bin_val [simp]: "bits_val (format_bin w n) = n"
  by (simp add: format_bin_def bits_val_append bin_digits_val)

lemma format_bin_length: "n < 2 ^ w \<Longrightarrow> 0 < w \<Longrightarrow> length (format_bin w n) = w"
  using bin_digits_length [of n w] by (simp add: format_bin_def)


section \<open>Bytes\<close>

lemma valid_take_drop: "valid_bitstring b \<Longrightarrow> valid_bitstring (take n b) \<and> valid_bitstring (drop n b)"
  by (metis append_take_drop_id valid_parts)

lemma bits_bytes_append:
  "length a = 8 \<Longrightarrow> bits_bytes (a @ b) = word_of_nat (bits_val a) # bits_bytes b"
  by (subst bits_bytes.simps) auto

lemma bits_bytes_snoc:
  "length a mod 8 = 0 \<Longrightarrow> length b = 8 \<Longrightarrow> bits_bytes (a @ b) = bits_bytes a @ [word_of_nat (bits_val b)]"
proof (induction a rule: bits_bytes.induct)
  case (1 a)
  show ?case
  proof (cases "a = []")
    case True
    then show ?thesis using 1 bits_bytes_append [of b "[]"] by (simp add: bits_bytes.simps)
  next
    case False
    then have "8 \<le> length a" using 1(2) by (metis dvd_imp_le length_greater_0_conv mod_0_imp_dvd)
    then have l: "length (take 8 a) = 8" "length (drop 8 a) mod 8 = 0"
      using 1(2) by (auto simp: le_mod_geq)
    have "bits_bytes (a @ b) = bits_bytes (take 8 a @ (drop 8 a @ b))"
      by (metis append.assoc append_take_drop_id)
    also have "\<dots> = word_of_nat (bits_val (take 8 a)) # bits_bytes (drop 8 a @ b)"
      using l(1) by (rule bits_bytes_append)
    also have "\<dots> = bits_bytes a @ [word_of_nat (bits_val b)]"
      using 1(1) [OF False l(2) 1(3)] False by (subst (2) bits_bytes.simps) simp
    finally show ?thesis .
  qed
qed

lemma byte_less: "unat (b :: byte) < 256"
  using unsigned_less [of b, where 'a = nat] by simp

lemma bytes_val_snoc: "bytes_val (bs @ [b]) = 256 * bytes_val bs + unat b"
  by (simp add: bytes_val_def)

lemma bytes_val_less: "bytes_val bs < 2 ^ (8 * length bs)"
proof (induction bs rule: rev_induct)
  case Nil
  then show ?case by (simp add: bytes_val_def)
next
  case (snoc b bs)
  have "unat b < 256" by (rule byte_less)
  then show ?case using snoc by (simp add: bytes_val_snoc power_add)
qed

lemma quotient_unique:
  fixes q r q' r' :: nat
  assumes "q * 256 + r = 256 * q' + r'" "r < 256" "r' < 256"
  shows "q = q' \<and> r = r'"
proof -
  have "(q * 256 + r) div 256 = q" "(256 * q' + r') div 256 = q'"
    using assms(2,3) by simp_all
  with assms(1) show ?thesis by simp
qed

text \<open>The bits of a list of bytes are determined by their number and their value.\<close>

lemma bits_bytes_val:
  "length b = 8 * length bs \<Longrightarrow> valid_bitstring b \<Longrightarrow> bits_val b = bytes_val bs \<Longrightarrow> bits_bytes b = bs"
proof (induction bs arbitrary: b rule: rev_induct)
  case Nil
  then show ?case by (simp add: bits_bytes.simps)
next
  case (snoc x bs)
  let ?n = "8 * length bs"
  define u v where "u = take ?n b" and "v = drop ?n b"
  have b: "b = u @ v" and l: "length u = ?n" "length v = 8" and valid: "valid_bitstring u"
    using snoc.prems valid_take_drop [of b ?n] by (auto simp: u_def v_def)
  have "bits_val u * 256 + bits_val v = 256 * bytes_val bs + unat x"
    using snoc.prems(3) l by (simp add: b bits_val_append bytes_val_snoc)
  moreover have "bits_val v < 256" "unat x < 256"
    using bits_val_less [of v] byte_less [of x] l by simp_all
  ultimately have "bits_val u = bytes_val bs \<and> bits_val v = unat x"
    by (rule quotient_unique)
  then show ?case
    using snoc.IH [of u] l valid by (simp add: b bits_bytes_snoc)
qed

text \<open>
  C36. Bytes survive the way through bits and back: the bits of a non-empty byte string are eight times as
  many as its bytes, and converting them to bytes restores the byte string.
\<close>

theorem bytes_roundtrip:
  assumes "bs \<noteq> []"
  shows "\<exists>b. from_bytes bs = Inr b \<and> length b = 8 * length bs \<and> bits_bytes b = bs"
proof -
  let ?b = "format_bin (8 * length bs) (bytes_val bs)"
  have "length ?b = 8 * length bs"
    using assms bytes_val_less [of bs] by (intro format_bin_length) auto
  then show ?thesis
    using bits_bytes_val [of ?b bs] format_bin_valid
    by (simp add: from_bytes_def bitstring_def)
qed

theorem bytes_roundtrip_witness:
  "\<exists>b. from_bytes [0x45, 0] = Inr b \<and> length b = 16 \<and> bits_bytes b = [0x45, 0]"
  using bytes_roundtrip [of "[0x45, 0]"] by simp

section \<open>Byte order\<close>

lemma swap_bytes_Nil [simp]: "swap_bytes [] = []"
  by (subst swap_bytes.simps) simp

lemma bits_bytes_Nil [simp]: "bits_bytes [] = []"
  by (subst bits_bytes.simps) simp

lemma swap_bytes_append: "length a = 8 \<Longrightarrow> swap_bytes (a @ b) = swap_bytes b @ a"
  by (subst swap_bytes.simps) auto

lemma octets:
  assumes "length b mod 8 = 0" "b \<noteq> []"
  obtains a c where "b = a @ c" "length a = 8" "length c mod 8 = 0" "length c < length b"
proof -
  have "8 \<le> length b" using assms by (metis dvd_imp_le length_greater_0_conv mod_0_imp_dvd)
  then show ?thesis
    using assms by (intro that [of "take 8 b" "drop 8 b"]) (auto simp: le_mod_geq)
qed

lemma swap_bytes_props:
  "length b mod 8 = 0 \<Longrightarrow>
   length (swap_bytes b) = length b \<and> (valid_bitstring b \<longrightarrow> valid_bitstring (swap_bytes b))
   \<and> bits_bytes (swap_bytes b) = rev (bits_bytes b)
   \<and> (\<forall>a. length a = 8 \<longrightarrow> swap_bytes (swap_bytes b @ a) = a @ b)"
proof (induction "length b" arbitrary: b rule: less_induct)
  case less
  show ?case
  proof (cases "b = []")
    case True
    have "swap_bytes a = a" if "length a = 8" for a
      using swap_bytes_append [OF that, of "[]"] by simp
    with True show ?thesis by simp
  next
    case False
    obtain a c where b: "b = a @ c" "length a = 8" "length c mod 8 = 0" "length c < length b"
      by (rule octets [OF less.prems False])
    note ih = less.hyps [OF b(4,3)]
    have "length (swap_bytes c) mod 8 = 0" using ih b(3) by simp
    then have "bits_bytes (swap_bytes c @ a) = bits_bytes (swap_bytes c) @ [word_of_nat (bits_val a)]"
      by (rule bits_bytes_snoc [OF _ b(2)])
    moreover have "swap_bytes ((swap_bytes c @ a) @ d) = d @ a @ c" if "length d = 8" for d
    proof -
      have tail: "swap_bytes (x @ a @ d) = d @ swap_bytes (x @ a)" if "length x mod 8 = 0" for x
        using that
      proof (induction "length x" arbitrary: x rule: less_induct)
        case (less x)
        show ?case
        proof (cases "x = []")
          case True
          then show ?thesis
            using swap_bytes_append [OF b(2), of d] swap_bytes_append [OF b(2), of "[]"]
              swap_bytes_append [OF \<open>length d = 8\<close>, of "[]"] by simp
        next
          case False
          obtain y z where x: "x = y @ z" "length y = 8" "length z mod 8 = 0" "length z < length x"
            by (rule octets [OF less.prems False])
          then show ?thesis
            using less.hyps [OF x(4,3)] by (simp add: swap_bytes_append [OF x(2)])
        qed
      qed
      have "swap_bytes (swap_bytes c @ a @ d) = d @ swap_bytes (swap_bytes c @ a)"
        by (rule tail) (rule \<open>length (swap_bytes c) mod 8 = 0\<close>)
      then show ?thesis using ih b(2) by simp
    qed
    ultimately show ?thesis
      using ih b by (simp add: swap_bytes_append [OF b(2)] bits_bytes_append valid_parts)
  qed
qed

text \<open>
  Swapping the byte order of a bit string of at least two bytes succeeds, reverses its bytes, and
  undoes itself.
\<close>

theorem swap_reverses_bytes:
  assumes "valid_bitstring b" "8 < length b" "length b mod 8 = 0"
  shows "\<exists>s. swap_bitstring b = Inr s \<and> bits_bytes s = rev (bits_bytes b) \<and> swap_bitstring s = Inr b"
proof -
  have "b \<noteq> []" using assms(2) by auto
  then obtain a c where b: "b = a @ c" "length a = 8" "length c mod 8 = 0"
    by (rule octets [OF assms(3)])
  have "swap_bytes (swap_bytes b) = b"
    using swap_bytes_props [OF b(3)] b(2) by (simp add: b(1) swap_bytes_append)
  then show ?thesis
    using assms swap_bytes_props [OF assms(3)] by (simp add: swap_bitstring_def bitstring_def)
qed

theorem swap_reverses_bytes_witness:
  "\<exists>s. swap_bitstring ''0000000111111110'' = Inr s \<and> bits_bytes s = rev (bits_bytes ''0000000111111110'')
     \<and> swap_bitstring s = Inr ''0000000111111110''"
proof (rule swap_reverses_bytes)
  show "valid_bitstring ''0000000111111110''" by code_simp
  show "8 < length ''0000000111111110''" by simp
  show "length ''0000000111111110'' mod 8 = 0" by simp
qed

text \<open>
  The bits of an empty byte string are not empty: formatting the number 0 yields one digit, so the
  conversion does not preserve lengths, and converting back yields a byte.
\<close>

lemma from_bytes_empty:
  "from_bytes [] = Inr ''0'' \<and> bits_bytes ''0'' = [0]"
  by code_simp

section \<open>Internet checksum\<close>

unbundle bit_operations_syntax

fun sixteen_bit_chunks :: "byte list \<Rightarrow> int list" where
  "sixteen_bit_chunks [] = []"
| "sixteen_bit_chunks [a] = [uint a]"
| "sixteen_bit_chunks (a # b # bs) = (256 * uint a + uint b) # sixteen_bit_chunks bs"

definition add_ones_complement :: "int \<Rightarrow> int \<Rightarrow> int" where
  "add_ones_complement a b = (let r = a + b in if r < 65536 then r else (r + 1) mod 65536)"

definition internet_checksum :: "byte list \<Rightarrow> int res" where
  "internet_checksum bs =
     (case sixteen_bit_chunks bs of
        [] \<Rightarrow> Inl IndexError
      | c # cs \<Rightarrow> Inr (foldl add_ones_complement c cs XOR 0xFFFF))"

lemma byte_range: "0 \<le> uint (b :: byte) \<and> uint b < 256"
  using unsigned_less [of b, where 'a = int] by simp

lemma chunk_range: "c \<in> set (sixteen_bit_chunks bs) \<Longrightarrow> 0 \<le> c \<and> c < 65536"
proof (induction bs rule: sixteen_bit_chunks.induct)
  case (2 a)
  then show ?case using byte_range [of a] by auto
next
  case (3 a b bs)
  then show ?case using byte_range [of a] byte_range [of b] by auto
qed simp

lemma ones_range:
  "0 \<le> a \<Longrightarrow> a < 65536 \<Longrightarrow> 0 \<le> b \<Longrightarrow> b < 65536 \<Longrightarrow> 0 \<le> add_ones_complement a b \<and> add_ones_complement a b < 65536"
  by (simp add: add_ones_complement_def Let_def)

lemma foldl_ones_range:
  "0 \<le> a \<Longrightarrow> a < 65536 \<Longrightarrow> \<forall>c\<in>set cs. 0 \<le> c \<and> c < 65536 \<Longrightarrow>
   0 \<le> foldl add_ones_complement a cs \<and> foldl add_ones_complement a cs < 65536"
  by (induction cs arbitrary: a) (auto simp: ones_range)

lemma xor_ffff:
  fixes x :: int
  assumes "0 \<le> x" "x < 65536"
  shows "x XOR 0xFFFF = 0xFFFF - x"
proof -
  have x: "take_bit 16 x = x" using assms by (simp add: take_bit_int_eq_self)
  have "x XOR mask 16 = take_bit 16 (NOT x)"
    by (subst (1) x [symmetric], rule bit_eqI) (auto simp: bit_simps)
  also have "\<dots> = mask 16 - x"
    by (simp add: take_bit_not_eq_mask_diff x)
  finally show ?thesis by (simp add: mask_eq_exp_minus_1)
qed

lemma chunks_append:
  "length bs mod 2 = 0 \<Longrightarrow> sixteen_bit_chunks (bs @ cs) = sixteen_bit_chunks bs @ sixteen_bit_chunks cs"
  by (induction bs rule: sixteen_bit_chunks.induct) auto



text \<open>The sum in ones' complement, as a function of the sum of the words.\<close>

definition ones_sum :: "int \<Rightarrow> int" where
  "ones_sum x = (if x = 0 then 0 else (x - 1) mod 65535 + 1)"

lemma ones_sum_small: "0 \<le> x \<Longrightarrow> x < 65536 \<Longrightarrow> ones_sum x = x"
  by (auto simp: ones_sum_def mod_pos_pos_trivial)

lemma add_ones_sum:
  assumes "0 \<le> a" "a < 65536" "0 \<le> b" "b < 65536"
  shows "add_ones_complement a b = ones_sum (a + b)"
proof (cases "a + b < 65536")
  case True
  then show ?thesis using assms ones_sum_small [of "a + b"] by (simp add: add_ones_complement_def Let_def)
next
  case False
  have "(a + b + 1) mod 65536 = (a + b + 1 - 65536) mod 65536"
    by (simp only: minus_mod_self2)
  also have "\<dots> = a + b - 65535"
    using assms False by (subst mod_pos_pos_trivial) auto
  finally have l: "add_ones_complement a b = a + b - 65535"
    using False by (simp add: add_ones_complement_def Let_def)
  have "(a + b - 1) mod 65535 = (a + b - 1 - 65535) mod 65535"
    by (simp only: minus_mod_self2)
  also have "\<dots> = a + b - 65536"
    using assms False by (subst mod_pos_pos_trivial) auto
  finally have "ones_sum (a + b) = a + b - 65535"
    using assms False by (simp add: ones_sum_def)
  then show ?thesis using l by simp
qed

lemma ones_sum_range: "0 \<le> ones_sum x \<and> ones_sum x < 65536"
  by (simp add: ones_sum_def)

lemma ones_sum_add:
  assumes "0 \<le> a" "0 \<le> c"
  shows "ones_sum (ones_sum a + c) = ones_sum (a + c)"
proof (cases "a = 0")
  case False
  have m: "0 \<le> (a - 1) mod 65535" by simp
  have "((a - 1) mod 65535 + c) mod 65535 = (a - 1 + c) mod 65535"
    by (rule mod_add_left_eq)
  then have "(ones_sum a + c - 1) mod 65535 = (a + c - 1) mod 65535"
    using False by (simp add: ones_sum_def algebra_simps)
  moreover have "ones_sum a + c \<noteq> 0" "a + c \<noteq> 0"
    using False assms m by (simp_all add: ones_sum_def)
  ultimately show ?thesis by (simp add: ones_sum_def [of "ones_sum a + c"] ones_sum_def [of "a + c"])
qed (simp add: ones_sum_def [of 0])

lemma foldl_ones_sum:
  "0 \<le> a \<Longrightarrow> \<forall>c\<in>set cs. 0 \<le> c \<and> c < 65536 \<Longrightarrow>
   foldl add_ones_complement (ones_sum a) cs = ones_sum (a + sum_list cs)"
proof (induction cs arbitrary: a)
  case (Cons c cs)
  have "add_ones_complement (ones_sum a) c = ones_sum (a + c)"
    using Cons.prems ones_sum_range [of a] add_ones_sum [of "ones_sum a" c] ones_sum_add [of a c] by simp
  then show ?case using Cons.IH [of "a + c"] Cons.prems by (simp add: algebra_simps)
qed simp

text \<open>
  The checksum does not depend on the order of the 16-bit words.
\<close>

theorem internet_checksum_order:
  assumes "mset (sixteen_bit_chunks bs) = mset (sixteen_bit_chunks cs)"
  shows "internet_checksum bs = internet_checksum cs"
proof -
  have sum: "internet_checksum ds = (if sixteen_bit_chunks ds = [] then Inl IndexError
      else Inr (ones_sum (sum_list (sixteen_bit_chunks ds)) XOR 0xFFFF))" for ds
  proof (cases "sixteen_bit_chunks ds")
    case (Cons d es)
    have r: "\<forall>c\<in>set (d # es). 0 \<le> c \<and> c < 65536"
      using chunk_range [of _ ds] Cons by simp
    then have "foldl add_ones_complement d es = ones_sum (d + sum_list es)"
      using foldl_ones_sum [of d es] ones_sum_small [of d] by simp
    then show ?thesis using Cons by (simp add: internet_checksum_def)
  qed (simp add: internet_checksum_def)
  have "sum_list (sixteen_bit_chunks bs) = sum_list (sixteen_bit_chunks cs)"
    using assms by (metis sum_mset_sum_list)
  moreover have "sixteen_bit_chunks bs = [] \<longleftrightarrow> sixteen_bit_chunks cs = []"
    using assms by (metis mset_zero_iff)
  ultimately show ?thesis by (simp add: sum)
qed

theorem internet_checksum_order_witness:
  "internet_checksum [0x45, 0, 0, 0x73, 1] = internet_checksum [0, 0x73, 0x45, 0, 1]"
  by (rule internet_checksum_order) simp

text \<open>
  A last odd byte is added as a word of its own value.  RFC 1071 pads the data with a zero byte on the
  right, which gives a different checksum.
\<close>

lemma internet_checksum_odd:
  "internet_checksum [1] = Inr 0xFFFE \<and> internet_checksum [1, 0] = Inr 0xFEFF"
  by code_simp

end
