(* ===== verification/Integration.thy ===== *)
theory Integration
  imports Identifier
begin

text \<open>
  Integration files (\<open>rflx/integration.py\<close>): the buffer sizes requested for the variables of state
  machines, how the code generator looks them up, and the validation against the model.
\<close>

section \<open>Contents of integration files\<close>

text \<open>
  The sizes are positive (\<open>Annotated[int, Gt(0)]\<close>), which pydantic checks when a file is loaded.
\<close>

record machine_size =
  default_size :: "int option"
  global_sizes :: "(string \<times> int) list option"
  local_sizes :: "(string \<times> (string \<times> int) list) list option"

record machine_integration =
  buffer_size :: "machine_size option"
  external_io_buffers :: bool

text \<open>The packages by name, each with its state machines by name.\<close>

type_synonym integration = "(string \<times> (string \<times> machine_integration) list) list"

definition defaultsize :: int where
  "defaultsize = 4096"

section \<open>Look-up\<close>

definition parent_res :: "ident \<Rightarrow> ident res" where
  "parent_res i = (case id_parent i of None \<Rightarrow> Inl (FatalError ''no parent'') | Some p \<Rightarrow> Inr p)"

text \<open>The entry of a state machine, if its package and the package its name are present.\<close>

definition machine_entry :: "integration \<Rightarrow> ident \<Rightarrow> machine_integration option res" where
  "machine_entry pk sm =
     bind_res (parent_res sm) (\<lambda>p.
       Inr (case map_of pk (lower p) of None \<Rightarrow> None | Some ms \<Rightarrow> map_of ms (id_name sm)))"

definition global_size :: "machine_size \<Rightarrow> string \<Rightarrow> int \<Rightarrow> int" where
  "global_size bs v d =
     (case global_sizes bs of
        None \<Rightarrow> d
      | Some gs \<Rightarrow> (case map_of gs v of None \<Rightarrow> d | Some n \<Rightarrow> n))"

definition local_size :: "machine_size \<Rightarrow> string \<Rightarrow> string \<Rightarrow> int option" where
  "local_size bs st v =
     (case local_sizes bs of
        None \<Rightarrow> None
      | Some ls \<Rightarrow> (case map_of ls st of None \<Rightarrow> None | Some vs \<Rightarrow> map_of vs v))"

definition size_in :: "machine_size \<Rightarrow> ident option \<Rightarrow> ident option \<Rightarrow> int" where
  "size_in bs variable state =
     (let d = (case default_size bs of None \<Rightarrow> defaultsize | Some n \<Rightarrow> n) in
      case variable of
        None \<Rightarrow> d
      | Some v \<Rightarrow>
          (case state of
             None \<Rightarrow> global_size bs (id_name v) d
           | Some st \<Rightarrow>
               (case local_size bs st (id_name v) of
                  Some n \<Rightarrow> n
                | None \<Rightarrow> global_size bs (id_name v) d)))"

definition get_size :: "integration \<Rightarrow> ident \<Rightarrow> ident option \<Rightarrow> ident option \<Rightarrow> int res" where
  "get_size pk sm variable state =
     bind_res (machine_entry pk sm) (\<lambda>entry.
       Inr (case entry of
              None \<Rightarrow> defaultsize
            | Some mi \<Rightarrow> (case buffer_size mi of None \<Rightarrow> defaultsize | Some bs \<Rightarrow> size_in bs variable state)))"

definition use_external_io_buffers :: "integration \<Rightarrow> ident \<Rightarrow> bool res" where
  "use_external_io_buffers pk sm =
     bind_res (machine_entry pk sm) (\<lambda>entry.
       Inr (case entry of None \<Rightarrow> False | Some mi \<Rightarrow> external_io_buffers mi))"

section \<open>Validation\<close>

text \<open>What validation reads of a state machine of the model.\<close>

record machine_decl =
  machine_id :: ident
  machine_globals :: "ident list"
  machine_states :: "(ident \<times> ident list) list"

datatype integration_error =
    UnknownMachine string
  | UnknownGlobal string
  | UnknownState string
  | UnknownVariable string string

definition validate_globals :: "machine_integration \<Rightarrow> machine_decl \<Rightarrow> integration_error list" where
  "validate_globals mi m =
     (case buffer_size mi of
        None \<Rightarrow> []
      | Some bs \<Rightarrow>
          (case global_sizes bs of
             None \<Rightarrow> []
           | Some gs \<Rightarrow>
               map UnknownGlobal
                 (filter (\<lambda>v. v \<notin> set (map id_name (machine_globals m))) (map fst gs))))"

text \<open>The last state of the name is taken; an unknown state ends the check of the machine.\<close>

fun validate_local ::
    "machine_decl \<Rightarrow> (string \<times> (string \<times> int) list) list \<Rightarrow> integration_error list" where
  "validate_local m [] = []"
| "validate_local m ((st, vs) # ls) =
     (case rev (filter (\<lambda>s. id_name (fst s) = st) (machine_states m)) of
        [] \<Rightarrow> [UnknownState st]
      | s # _ \<Rightarrow>
          map (UnknownVariable st) (filter (\<lambda>v. v \<notin> set (map id_name (snd s))) (map fst vs))
          @ validate_local m ls)"

definition validate_states :: "machine_integration \<Rightarrow> machine_decl \<Rightarrow> integration_error list" where
  "validate_states mi m =
     (case buffer_size mi of
        None \<Rightarrow> []
      | Some bs \<Rightarrow> (case local_sizes bs of None \<Rightarrow> [] | Some ls \<Rightarrow> validate_local m ls))"

definition matching_machines :: "machine_decl list \<Rightarrow> string \<Rightarrow> string \<Rightarrow> machine_decl list" where
  "matching_machines ms package name =
     filter (\<lambda>m. (case id_parent (machine_id m) of None \<Rightarrow> False | Some p \<Rightarrow> package = lower p)
               \<and> id_name (machine_id m) = name) ms"

text \<open>
  \<open>validate\<close> runs through the packages and their machines and returns at the first unknown machine;
  the first component tells that it has returned.
\<close>

fun validate_machines ::
    "machine_decl list \<Rightarrow> string \<Rightarrow> (string \<times> machine_integration) list
     \<Rightarrow> (bool \<times> integration_error list) res" where
  "validate_machines ms package [] = Inr (False, [])"
| "validate_machines ms package ((name, mi) # es) =
     (case matching_machines ms package name of
        [] \<Rightarrow> Inr (True, [UnknownMachine name])
      | [m] \<Rightarrow>
          bind_res (validate_machines ms package es) (\<lambda>r.
            Inr (fst r, validate_globals mi m @ validate_states mi m @ snd r))
      | _ \<Rightarrow> Inl AssertionError)"

fun validate :: "machine_decl list \<Rightarrow> integration \<Rightarrow> integration_error list res" where
  "validate ms [] = Inr []"
| "validate ms ((package, es) # pk) =
     bind_res (validate_machines ms package es) (\<lambda>r.
       if fst r then Inr (snd r)
       else bind_res (validate ms pk) (\<lambda>errors. Inr (snd r @ errors)))"

section \<open>Sizes are positive\<close>

definition positive_sizes :: "machine_size \<Rightarrow> bool" where
  "positive_sizes bs =
     ((case default_size bs of None \<Rightarrow> True | Some n \<Rightarrow> 0 < n)
      \<and> (case global_sizes bs of None \<Rightarrow> True | Some gs \<Rightarrow> list_all (\<lambda>x. 0 < snd x) gs)
      \<and> (case local_sizes bs of None \<Rightarrow> True
         | Some ls \<Rightarrow> list_all (\<lambda>l. list_all (\<lambda>x. 0 < snd x) (snd l)) ls))"

definition well_formed :: "integration \<Rightarrow> bool" where
  "well_formed pk =
     list_all (\<lambda>p. list_all (\<lambda>m. case buffer_size (snd m) of None \<Rightarrow> True | Some bs \<Rightarrow> positive_sizes bs)
       (snd p)) pk"

lemma map_of_all: "map_of xs k = Some v \<Longrightarrow> list_all (\<lambda>x. P (snd x)) xs \<Longrightarrow> P v"
  using map_of_SomeD [of xs k v] by (fastforce simp: list_all_iff)

lemma size_in_positive:
  assumes "positive_sizes bs"
  shows "0 < size_in bs v st"
proof -
  let ?d = "case default_size bs of None \<Rightarrow> defaultsize | Some n \<Rightarrow> n"
  have d: "0 < ?d"
    using assms by (auto simp: positive_sizes_def defaultsize_def split: option.splits)
  have g: "0 < global_size bs x ?d" for x
    using assms d map_of_all [where P = "\<lambda>n. 0 < n"]
    by (auto simp: positive_sizes_def global_size_def split: option.splits)
  have "0 < n" if n: "local_size bs x y = Some n" for x y n
  proof -
    obtain ls vs where l: "local_sizes bs = Some ls" "map_of ls x = Some vs" "map_of vs y = Some n"
      using n by (auto simp: local_size_def split: option.splits)
    then have "list_all (\<lambda>x. 0 < snd x) vs"
      using assms map_of_all [OF l(2), of "list_all (\<lambda>x. 0 < snd x)"] by (simp add: positive_sizes_def)
    then show ?thesis
      using map_of_all [OF l(3), of "\<lambda>n. 0 < n"] by simp
  qed
  then show ?thesis
    using d g by (auto simp: size_in_def split: option.split)
qed

lemma get_size_pos:
  assumes "well_formed pk"
  shows "returns (\<lambda>n. 0 < n) (get_size pk sm v st)"
proof -
  let ?P = "\<lambda>m. case buffer_size m of None \<Rightarrow> True | Some bs \<Rightarrow> positive_sizes bs"
  have "?P mi" if "map_of pk p = Some es" "map_of es name = Some mi" for p es name mi
  proof -
    have "list_all (\<lambda>m. ?P (snd m)) es"
      using assms map_of_all [OF that(1), of "list_all (\<lambda>m. ?P (snd m))"] by (simp add: well_formed_def)
    then show ?thesis using map_of_all [OF that(2), of ?P] by simp
  qed
  then have "returns (\<lambda>e. case e of None \<Rightarrow> True | Some mi \<Rightarrow> ?P mi) (machine_entry pk sm)"
    by (auto simp: machine_entry_def parent_res_def split: option.split)
  then show ?thesis
    unfolding get_size_def
    by (rule returns_bind) (auto simp: defaultsize_def size_in_positive split: option.splits)
qed

text \<open>
  With the positive sizes that pydantic enforces, every buffer size that is looked up is positive.
\<close>

theorem get_size_positive:
  assumes "well_formed pk"
  shows "returns (\<lambda>n. 0 < n) (get_size pk sm v st)"
  by (rule get_size_pos [OF assms])

theorem get_size_positive_witness:
  "returns (\<lambda>n. 0 < n) (get_size
     [(''p'', [(''M'', \<lparr>buffer_size = Some \<lparr>default_size = None, global_sizes = Some [(''X'', 64)], local_sizes = None\<rparr>,
         external_io_buffers = False\<rparr>)])] ''P::M'' (Some ''X'') None)"
  by (rule get_size_positive) (simp add: well_formed_def positive_sizes_def)

section \<open>No size of a validated file is ignored\<close>

lemma validate_machines_stopped:
  "validate_machines ms package es = Inr (True, errors) \<Longrightarrow> errors \<noteq> []"
proof (induction ms package es arbitrary: errors rule: validate_machines.induct)
  case (2 ms package name mi es)
  show ?case
  proof (cases "matching_machines ms package name")
    case (Cons m ms')
    then have single: "matching_machines ms package name = [m]" if "ms' \<noteq> [] \<Longrightarrow> False"
      using that by auto
    show ?thesis
    proof (cases ms')
      case Nil
      then show ?thesis
        using 2(2) 2(1) [OF single] single by (auto simp: bind_res_eq_Inr)
    qed (use 2(2) Cons in simp)
  qed (use 2 in auto)
qed simp

lemma validate_machines_no_errors:
  assumes "validate_machines ms package es = Inr (False, [])" "(name, mi) \<in> set es"
  shows "\<exists>m. matching_machines ms package name = [m] \<and> validate_globals mi m = [] \<and> validate_states mi m = []"
  using assms
proof (induction ms package es rule: validate_machines.induct)
  case (2 ms package name' mi' es)
  obtain m where m: "matching_machines ms package name' = [m]"
    using "2.prems"(1) by (auto split: list.splits)
  then have rest: "validate_machines ms package es = Inr (False, [])"
      "validate_globals mi' m = []" "validate_states mi' m = []"
    using "2.prems"(1) by (auto simp: bind_res_eq_Inr)
  show ?case
  proof (cases "(name, mi) = (name', mi')")
    case True
    then show ?thesis using m rest by auto
  next
    case False
    then show ?thesis using "2.IH" [OF m] rest(1) "2.prems"(2) by auto
  qed
qed simp

lemma validate_no_errors:
  assumes "validate ms pk = Inr []" "(package, es) \<in> set pk"
  shows "validate_machines ms package es = Inr (False, [])"
  using assms
  by (induction ms pk rule: validate.induct)
     (auto simp: bind_res_eq_Inr dest: validate_machines_stopped split: if_splits)

lemma validate_local_no_errors:
  "validate_local m ls = [] \<Longrightarrow> (st, vs) \<in> set ls \<Longrightarrow> (v, n) \<in> set vs \<Longrightarrow>
   \<exists>s\<in>set (machine_states m). id_name (fst s) = st \<and> v \<in> id_name ` set (snd s)"
proof (induction m ls rule: validate_local.induct)
  case (2 m st' vs' ls)
  show ?case
  proof (cases "rev (filter (\<lambda>s. id_name (fst s) = st') (machine_states m))")
    case Nil
    then show ?thesis using 2 by simp
  next
    case (Cons s ss)
    have "s \<in> set (rev (filter (\<lambda>s. id_name (fst s) = st') (machine_states m)))"
      using Cons by simp
    then have s: "s \<in> set (machine_states m)" "id_name (fst s) = st'" by auto
    have rest: "validate_local m ls = []" "\<forall>x\<in>fst ` set vs'. x \<in> id_name ` set (snd s)"
      using "2.prems"(1) Cons by (auto simp: filter_empty_conv)
    show ?thesis
    proof (cases "(st, vs) = (st', vs')")
      case True
      then show ?thesis using rest(2) s "2.prems"(3) by force
    next
      case False
      then show ?thesis using "2.IH" [OF Cons rest(1)] "2.prems" by auto
    qed
  qed
qed simp

lemma validated_entry:
  assumes "validate ms pk = Inr []" "map_of pk package = Some es" "map_of es name = Some mi"
    "buffer_size mi = Some bs"
  shows "\<exists>m\<in>set ms. id_name (machine_id m) = name \<and> validate_globals mi m = [] \<and> validate_states mi m = []
    \<and> (\<forall>v st. get_size pk (machine_id m) v st = Inr (size_in bs v st))"
proof -
  obtain m where m: "matching_machines ms package name = [m]"
      and v: "validate_globals mi m = []" "validate_states mi m = []"
    using validate_machines_no_errors [OF validate_no_errors [OF assms(1) map_of_SomeD [OF assms(2)]]
        map_of_SomeD [OF assms(3)]] by auto
  have "m \<in> set (matching_machines ms package name)" using m by simp
  then have mem: "m \<in> set ms" "id_name (machine_id m) = name"
      and p: "\<exists>p. id_parent (machine_id m) = Some p \<and> package = lower p"
    by (auto simp: matching_machines_def split: option.splits)
  then have "get_size pk (machine_id m) v st = Inr (size_in bs v st)" for v st
    using assms by (auto simp: get_size_def machine_entry_def parent_res_def)
  then show ?thesis using mem v by auto
qed

text \<open>
  C39. If validation finds no error, a size given for a variable of a state belongs to a declared
  variable of a state of the model, and it is the size that is looked up for this variable.
\<close>

theorem validated_local_size:
  assumes "validate ms pk = Inr []"
    and "map_of pk package = Some es" "map_of es name = Some mi" "buffer_size mi = Some bs"
    and "local_sizes bs = Some ls" "map_of ls st = Some vs" "map_of vs v = Some n"
  shows "\<exists>m\<in>set ms. \<exists>s\<in>set (machine_states m). \<exists>d\<in>set (snd s).
    id_name (machine_id m) = name \<and> id_name (fst s) = st \<and> id_name d = v
    \<and> get_size pk (machine_id m) (Some d) (Some st) = Inr n"
proof -
  obtain m where m: "m \<in> set ms" "id_name (machine_id m) = name" "validate_states mi m = []"
      and size: "\<forall>v st. get_size pk (machine_id m) v st = Inr (size_in bs v st)"
    using validated_entry [OF assms(1-4)] by auto
  have l: "validate_local m ls = []"
    using m(3) assms(4,5) by (simp add: validate_states_def)
  obtain s where s: "s \<in> set (machine_states m)" "id_name (fst s) = st" "v \<in> id_name ` set (snd s)"
    using validate_local_no_errors [OF l map_of_SomeD [OF assms(6)] map_of_SomeD [OF assms(7)]] by auto
  then obtain d where d: "d \<in> set (snd s)" "id_name d = v" by auto
  have "get_size pk (machine_id m) (Some d) (Some st) = Inr n"
    using d(2) assms(5-7) size by (simp add: size_in_def local_size_def)
  then show ?thesis using m s d by blast
qed

definition sample_machine :: machine_decl where
  "sample_machine =
     \<lparr>machine_id = ''P::M'', machine_globals = [''G''], machine_states = [(''S'', [''X'']), (''T'', [])]\<rparr>"

definition sample_size :: machine_size where
  "sample_size = \<lparr>default_size = None, global_sizes = Some [(''G'', 128)], local_sizes = Some [(''S'', [(''X'', 64)])]\<rparr>"

definition sample_entry :: machine_integration where
  "sample_entry = \<lparr>buffer_size = Some sample_size, external_io_buffers = False\<rparr>"

lemma sample_valid: "validate [sample_machine] [(''p'', [(''M'', sample_entry)])] = Inr []"
  by code_simp

theorem validated_local_size_witness:
  "\<exists>m\<in>set [sample_machine]. \<exists>s\<in>set (machine_states m). \<exists>d\<in>set (snd s).
    id_name (machine_id m) = ''M'' \<and> id_name (fst s) = ''S'' \<and> id_name d = ''X''
    \<and> get_size [(''p'', [(''M'', sample_entry)])] (machine_id m) (Some d) (Some ''S'') = Inr 64"
  by (rule validated_local_size [OF sample_valid, of "''p''" "[(''M'', sample_entry)]" "''M''" sample_entry
        sample_size "[(''S'', [(''X'', 64)])]" "''S''" "[(''X'', 64)]"])
     (simp_all add: sample_entry_def sample_size_def)

text \<open>
  Likewise for a size given for a global variable, which is the size looked up for the variable
  outside of all states, and in every state for which no size of its own is given.
\<close>

theorem validated_global_size:
  assumes "validate ms pk = Inr []"
    and "map_of pk package = Some es" "map_of es name = Some mi" "buffer_size mi = Some bs"
    and "global_sizes bs = Some gs" "map_of gs v = Some n"
  shows "\<exists>m\<in>set ms. \<exists>d\<in>set (machine_globals m). id_name (machine_id m) = name \<and> id_name d = v
    \<and> get_size pk (machine_id m) (Some d) None = Inr n
    \<and> (\<forall>st. local_size bs st v = None \<longrightarrow> get_size pk (machine_id m) (Some d) (Some st) = Inr n)"
proof -
  obtain m where m: "m \<in> set ms" "id_name (machine_id m) = name" "validate_globals mi m = []"
      and size: "\<forall>v st. get_size pk (machine_id m) v st = Inr (size_in bs v st)"
    using validated_entry [OF assms(1-4)] by auto
  have "v \<in> set (map fst gs)" using map_of_SomeD [OF assms(6)] by force
  then have "v \<in> id_name ` set (machine_globals m)"
    using m(3) assms(4,5) by (auto simp: validate_globals_def filter_empty_conv)
  then obtain d where d: "d \<in> set (machine_globals m)" "id_name d = v" by auto
  have "get_size pk (machine_id m) (Some d) None = Inr n"
    "local_size bs st v = None \<Longrightarrow> get_size pk (machine_id m) (Some d) (Some st) = Inr n" for st
    using d(2) assms(5,6) size by (simp_all add: size_in_def global_size_def)
  then show ?thesis using m(1,2) d by blast
qed

theorem validated_global_size_witness:
  "\<exists>m\<in>set [sample_machine]. \<exists>d\<in>set (machine_globals m). id_name d = ''G''
    \<and> get_size [(''p'', [(''M'', sample_entry)])] (machine_id m) (Some d) None = Inr 128
    \<and> get_size [(''p'', [(''M'', sample_entry)])] (machine_id m) (Some d) (Some ''T'') = Inr 128"
proof -
  have "local_size sample_size ''T'' ''G'' = None"
    by (simp add: sample_size_def local_size_def)
  then show ?thesis
    using validated_global_size [OF sample_valid, of "''p''" "[(''M'', sample_entry)]" "''M''" sample_entry
        sample_size "[(''G'', 128)]" "''G''" 128]
    by (auto simp: sample_entry_def sample_size_def)
qed

text \<open>
  The validation stops at the first unknown machine: what is wrong in the entries after it is not
  reported.
\<close>

lemma validation_stops_early:
  "validate [sample_machine] [(''p'', [(''N'', sample_entry), (''O'', sample_entry)])]
     = Inr [UnknownMachine ''N'']"
  by code_simp

end
