(* ===== verification/Allocator.thy ===== *)
theory Allocator
  imports Integration
begin

text \<open>
  The allocation of buffers for a generated state machine (\<open>rflx/generator/allocator.py\<close>): every
  variable and every action that needs a buffer gets a slot; the variables and actions of different
  states share slots.  The second half models the generated Ada package that holds the slots.
\<close>

section \<open>The part of the intermediate representation that is inspected\<close>

text \<open>Source locations: the file, the start and the end.\<close>

datatype location = NO_LOCATION | Location "string option" "nat \<times> nat" "(nat \<times> nat) option"

datatype buffer_type = MessageType ident | SequenceType buffer_type | ScalarType ident

datatype sequence_expr = Var ident buffer_type | FieldAccess ident ident buffer_type

datatype stmt =
    VarDecl ident buffer_type location
  | Assign tac_expr location
  | ChannelStmt "(ident \<times> buffer_type) option" location
  | OtherStmt location
and tac_expr =
    Comprehension sequence_expr "stmt list" "stmt list"
  | Find sequence_expr "stmt list" "stmt list"
  | Head ident
  | OtherExpr

record ir_state =
  state_id :: ident
  state_actions :: "stmt list"

record ir_machine =
  sm_id :: ident
  sm_declarations :: "(ident \<times> buffer_type \<times> location) list"
  sm_states :: "ir_state list"

text \<open>\<open>State.declarations\<close>: the variables declared among the actions.\<close>

fun declared_variable :: "stmt \<Rightarrow> ident list" where
  "declared_variable (VarDecl v t l) = [v]"
| "declared_variable _ = []"

definition state_declarations :: "ir_state \<Rightarrow> ident list" where
  "state_declarations s = concat (map declared_variable (state_actions s))"

section \<open>Requirements\<close>

text \<open>
  The sizes come from \<open>Integration.get_size\<close>, applied to the state machine; they are an argument
  \<open>sz\<close> of the definitions of this section.
\<close>

type_synonym sizes = "ident option \<Rightarrow> ident option \<Rightarrow> int res"

type_synonym requirement = "location \<times> int"

fun needs_allocation :: "buffer_type \<Rightarrow> bool" where
  "needs_allocation (MessageType i) = True"
| "needs_allocation (SequenceType t) = True"
| "needs_allocation (ScalarType i) = False"

definition scope :: "ir_state \<Rightarrow> ident \<Rightarrow> ident option" where
  "scope s v = (if list_ex (id_eq v) (state_declarations s) then Some (id_name (state_id s)) else None)"

definition one_requirement :: "location \<Rightarrow> int res \<Rightarrow> requirement list res" where
  "one_requirement l n = bind_res n (\<lambda>k. Inr [(l, k)])"

fun sequence_type :: "sequence_expr \<Rightarrow> buffer_type" where
  "sequence_type (Var v t) = t"
| "sequence_type (FieldAccess m f t) = t"

fun sequence_owner :: "sequence_expr \<Rightarrow> ident" where
  "sequence_owner (Var v t) = v"
| "sequence_owner (FieldAccess m f t) = m"

definition message_sequence :: "buffer_type \<Rightarrow> bool" where
  "message_sequence t = (case t of SequenceType (MessageType i) \<Rightarrow> True | _ \<Rightarrow> False)"

fun requirements :: "sizes \<Rightarrow> ir_state \<Rightarrow> stmt list \<Rightarrow> requirement list res"
  and stmt_requirements :: "sizes \<Rightarrow> ir_state \<Rightarrow> stmt \<Rightarrow> requirement list res"
  and nested_requirements :: "sizes \<Rightarrow> ir_state \<Rightarrow> location \<Rightarrow> tac_expr \<Rightarrow> requirement list res" where
  "requirements sz st [] = Inr []"
| "requirements sz st (s # ss) =
     bind_res (stmt_requirements sz st s) (\<lambda>r.
       bind_res (requirements sz st ss) (\<lambda>rs. Inr (r @ rs)))"
| "stmt_requirements sz st (VarDecl v t l) =
     (if needs_allocation t then one_requirement l (sz (Some v) (Some (id_name (state_id st)))) else Inr [])"
| "stmt_requirements sz st (Assign e l) = nested_requirements sz st l e"
| "stmt_requirements sz st (ChannelStmt e l) = Inr []"
| "stmt_requirements sz st (OtherStmt l) = Inr []"
| "nested_requirements sz st l (Comprehension q sel cond) =
     bind_res
       (if message_sequence (sequence_type q)
        then one_requirement l (sz (Some (sequence_owner q)) (scope st (sequence_owner q)))
        else Inr []) (\<lambda>r.
       bind_res (requirements sz st sel) (\<lambda>r1.
         bind_res (requirements sz st cond) (\<lambda>r2. Inr (r @ r1 @ r2))))"
| "nested_requirements sz st l (Find q sel cond) =
     bind_res (one_requirement l (sz (Some (sequence_owner q)) (scope st (sequence_owner q)))) (\<lambda>r.
       bind_res (requirements sz st sel) (\<lambda>r1.
         bind_res (requirements sz st cond) (\<lambda>r2. Inr (r @ r1 @ r2))))"
| "nested_requirements sz st l (Head v) = one_requirement l (sz (Some v) (scope st v))"
| "nested_requirements sz st l OtherExpr = Inr []"

section \<open>Slots\<close>

record slot_info =
  slot_size :: int
  slot_locations :: "location list"

record numbered_slot = slot_info +
  slot_id :: nat
  slot_global :: bool

text \<open>\<open>itertools.zip_longest\<close>.\<close>

definition zip_longest :: "'a \<Rightarrow> 'a list list \<Rightarrow> 'a list list" where
  "zip_longest fill xss =
     map (\<lambda>i. map (\<lambda>xs. if i < length xs then xs ! i else fill) xss)
       [0..<foldr max (map length xss) 0]"

text \<open>The fill value stands for no requirement; it has no location.\<close>

definition some_requirements :: "requirement list \<Rightarrow> (location option \<times> int) list" where
  "some_requirements rs = map (\<lambda>r. (Some (fst r), snd r)) rs"

text \<open>\<open>max\<close>, of a column, which is never empty.\<close>

fun max_of :: "int list \<Rightarrow> int" where
  "max_of [] = 0"
| "max_of (x # xs) = fold max xs x"

definition slot_of_column :: "(location option \<times> int) list \<Rightarrow> slot_info" where
  "slot_of_column col =
     \<lparr>slot_size = max_of (map snd col),
      slot_locations = concat (map (\<lambda>x. case fst x of None \<Rightarrow> [] | Some l \<Rightarrow> [l]) col)\<rparr>"

definition sort_requirements :: "requirement list \<Rightarrow> requirement list" where
  "sort_requirements = sort_key (\<lambda>r. - snd r)"

definition local_slots :: "requirement list list \<Rightarrow> slot_info list" where
  "local_slots rss =
     map slot_of_column (zip_longest (None, 0) (map (some_requirements \<circ> sort_requirements) rss))"

definition allocate_local_slots :: "sizes \<Rightarrow> ir_machine \<Rightarrow> slot_info list res" where
  "allocate_local_slots sz sm =
     bind_res (map_res (\<lambda>s. requirements sz s (state_actions s)) (sm_states sm)) (\<lambda>rss.
       Inr (local_slots rss))"

text \<open>The messages that are read or written on a channel (\<open>common.external_io_buffers\<close>), by name.\<close>

fun io_buffer :: "stmt \<Rightarrow> ident list" where
  "io_buffer (ChannelStmt (Some (v, MessageType t)) l) = [v]"
| "io_buffer _ = []"

definition external_io_buffers_of :: "ir_machine \<Rightarrow> ident list" where
  "external_io_buffers_of sm = concat (map (\<lambda>s. concat (map io_buffer (state_actions s))) (sm_states sm))"

fun allocate_global_slots ::
    "sizes \<Rightarrow> ident list \<Rightarrow> (ident \<times> buffer_type \<times> location) list \<Rightarrow> (slot_info list \<times> location list) res" where
  "allocate_global_slots sz ext [] = Inr ([], [])"
| "allocate_global_slots sz ext ((v, t, l) # ds) =
     (if needs_allocation t then
        if list_all (\<lambda>b. \<not> id_eq v b) ext then
          bind_res (sz (Some v) None) (\<lambda>n.
            bind_res (allocate_global_slots sz ext ds) (\<lambda>r.
              Inr (\<lparr>slot_size = n, slot_locations = [l]\<rparr> # fst r, snd r)))
        else
          bind_res (allocate_global_slots sz ext ds) (\<lambda>r. Inr (fst r, l # snd r))
      else allocate_global_slots sz ext ds)"

definition number_slot :: "bool \<Rightarrow> slot_info \<Rightarrow> nat \<Rightarrow> numbered_slot" where
  "number_slot g s n =
     \<lparr>slot_size = slot_size s, slot_locations = slot_locations s, slot_id = n, slot_global = g\<rparr>"

definition number_slots :: "slot_info list \<Rightarrow> slot_info list \<Rightarrow> numbered_slot list" where
  "number_slots gs ls =
     map2 (number_slot True) gs [1..<1 + length gs]
     @ map2 (number_slot False) ls [1 + length gs..<1 + length gs + length ls]"

text \<open>\<open>_allocation_slots\<close>: the dictionary from locations to slot numbers.\<close>

definition allocation_slots :: "numbered_slot list \<Rightarrow> (location \<times> nat) list" where
  "allocation_slots ss =
     fold (\<lambda>s d. fold (\<lambda>l. dict_set l (slot_id s)) (slot_locations s) d) ss []"

record allocator =
  numbered_slots :: "numbered_slot list"
  slot_table :: "(location \<times> nat) list"
  externally_managed :: "location list"

definition allocate :: "integration \<Rightarrow> ir_machine \<Rightarrow> allocator res" where
  "allocate pk sm =
     (let sz = get_size pk (sm_id sm) in
      bind_res (use_external_io_buffers pk (sm_id sm)) (\<lambda>ext.
        bind_res (allocate_global_slots sz (if ext then external_io_buffers_of sm else []) (sm_declarations sm)) (\<lambda>g.
          bind_res (allocate_local_slots sz sm) (\<lambda>ls.
            let ss = number_slots (fst g) ls in
            Inr \<lparr>numbered_slots = ss, slot_table = allocation_slots ss, externally_managed = snd g\<rparr>))))"

definition required :: "allocator \<Rightarrow> bool" where
  "required a = (slot_table a \<noteq> [])"

definition slot_name :: "nat \<Rightarrow> ident" where
  "slot_name n = ''Slot_Ptr_'' @ int_str (int n)"

definition get_slot_ptr :: "allocator \<Rightarrow> location \<Rightarrow> ident res" where
  "get_slot_ptr a l =
     assert_res (l \<noteq> NO_LOCATION)
       (case map_of (slot_table a) l of None \<Rightarrow> Inl (KeyError ''location'') | Some n \<Rightarrow> Inr (slot_name n))"

definition get_global_slot_ptrs :: "allocator \<Rightarrow> ident list" where
  "get_global_slot_ptrs a = map (slot_name \<circ> slot_id) (filter slot_global (numbered_slots a))"

definition get_local_slot_ptrs :: "allocator \<Rightarrow> ident list" where
  "get_local_slot_ptrs a = map (slot_name \<circ> slot_id) (filter (\<lambda>s. \<not> slot_global s) (numbered_slots a))"

definition is_externally_managed :: "allocator \<Rightarrow> location \<Rightarrow> bool res" where
  "is_externally_managed a l = assert_res (l \<noteq> NO_LOCATION) (Inr (l \<in> set (externally_managed a)))"

lemma slot_name_inj: "slot_name m = slot_name n \<longleftrightarrow> m = n"
  by (simp add: slot_name_def int_str_def digits_of_inj)

section \<open>Slots are positive\<close>

text \<open>What the allocator relies on of the provider of the sizes.\<close>

locale buffer_sizes =
  fixes valid :: "'c \<Rightarrow> bool"
    and get :: "'c \<Rightarrow> ident \<Rightarrow> sizes"
  assumes get_positive: "valid c \<Longrightarrow> returns (\<lambda>n. 0 < n) (get c m v st)"
begin

lemma one_requirement_positive:
  "valid c \<Longrightarrow> returns (list_all (\<lambda>r. 0 < snd r)) (one_requirement l (get c m v st))"
  unfolding one_requirement_def by (rule returns_bind [OF get_positive]) auto

lemma requirements_positive:
  assumes "valid c"
  shows "returns (list_all (\<lambda>r. 0 < snd r)) (requirements (get c m) st ss)"
    and "returns (list_all (\<lambda>r. 0 < snd r)) (stmt_requirements (get c m) st s)"
    and "returns (list_all (\<lambda>r. 0 < snd r)) (nested_requirements (get c m) st l e)"
proof (induction "get c m" st ss and "get c m" st s and "get c m" st l e
    rule: requirements_stmt_requirements_nested_requirements.induct)
qed (auto intro!: returns_bind [where Q = "list_all (\<lambda>r. 0 < snd r)"] one_requirement_positive [OF assms])

lemma global_slots_positive:
  assumes "valid c"
  shows "returns (\<lambda>r. list_all (\<lambda>s. 0 < slot_size s) (fst r)) (allocate_global_slots (get c m) ext ds)"
proof (induction "get c m" ext ds rule: allocate_global_slots.induct)
  case (2 ext v t l ds)
  let ?Q = "\<lambda>r. list_all (\<lambda>s. 0 < slot_size s) (fst r)"
  show ?case
    using 2 by (auto intro!: returns_bind [OF get_positive [OF assms]] returns_bind [where Q = ?Q])
qed simp

end

interpretation integration: buffer_sizes well_formed get_size
  by unfold_locales (rule get_size_pos)

lemma max_of_ge: "n \<in> set ns \<Longrightarrow> n \<le> max_of ns"
proof (cases ns)
  case (Cons x xs)
  have "y \<le> fold max xs y" "n \<in> set xs \<Longrightarrow> n \<le> fold max xs y" for y :: int
  proof (induction xs arbitrary: y)
    case (Cons a xs)
    { case 1 then show ?case using Cons.IH(1) [of "max a y"] by simp }
    { case 2 then show ?case using Cons.IH(1) [of "max a y"] Cons.IH(2) [of "max a y"] by auto }
  qed simp_all
  then show "n \<in> set ns \<Longrightarrow> n \<le> max_of ns" using Cons by auto
qed simp

lemma foldr_max_le: "x \<in> set xs \<Longrightarrow> x \<le> foldr max xs (0::nat)"
  by (induction xs) auto

lemma foldr_max_mem: "xs \<noteq> [] \<Longrightarrow> foldr max xs (0::nat) \<in> set xs"
proof (induction xs)
  case (Cons x xs)
  then show ?case by (cases xs) (auto simp: max_def)
qed simp

lemma length_local_slots:
  "length (local_slots rss) = foldr max (map length rss) 0"
  by (simp add: local_slots_def zip_longest_def comp_def some_requirements_def sort_requirements_def)

lemma nth_local_slots:
  assumes "i < foldr max (map length rss) 0"
  shows "local_slots rss ! i =
    slot_of_column (map (\<lambda>rs. if i < length rs
      then (Some (fst (sort_requirements rs ! i)), snd (sort_requirements rs ! i)) else (None, 0)) rss)"
  using assms
  by (simp add: local_slots_def zip_longest_def comp_def some_requirements_def sort_requirements_def cong: if_cong)

text \<open>The slot of the requirement at position \<open>i\<close> of the sorted requirements of a state.\<close>

lemma local_slot_of:
  assumes "rs \<in> set rss" "i < length rs"
  shows "i < length (local_slots rss)"
    and "fst (sort_requirements rs ! i) \<in> set (slot_locations (local_slots rss ! i))"
    and "snd (sort_requirements rs ! i) \<le> slot_size (local_slots rss ! i)"
proof -
  have i: "i < foldr max (map length rss) 0"
    using assms foldr_max_le [of "length rs" "map length rss"] by auto
  then show "i < length (local_slots rss)"
    by (simp add: length_local_slots)
  show "fst (sort_requirements rs ! i) \<in> set (slot_locations (local_slots rss ! i))"
    using assms by (force simp: nth_local_slots [OF i] slot_of_column_def)
  show "snd (sort_requirements rs ! i) \<le> slot_size (local_slots rss ! i)"
    using assms by (force simp: nth_local_slots [OF i] slot_of_column_def intro!: max_of_ge)
qed

text \<open>Every location of a local slot is that of the requirement at its position in some state.\<close>

lemma local_slot_location:
  assumes "i < length (local_slots rss)" "l \<in> set (slot_locations (local_slots rss ! i))"
  shows "\<exists>rs\<in>set rss. i < length rs \<and> l = fst (sort_requirements rs ! i)"
  using assms by (auto simp: length_local_slots nth_local_slots slot_of_column_def split: if_splits)

lemma distinct_concat_map_mem:
  "distinct (concat (map f xss)) \<Longrightarrow> xs \<in> set xss \<Longrightarrow> ys \<in> set xss \<Longrightarrow>
   x \<in> set (f xs) \<Longrightarrow> x \<in> set (f ys) \<Longrightarrow> xs = ys"
  by (induction xss) auto

lemma distinct_concat_nth:
  "distinct (concat xss) \<Longrightarrow> i < length xss \<Longrightarrow> j < length xss \<Longrightarrow>
   x \<in> set (xss ! i) \<Longrightarrow> x \<in> set (xss ! j) \<Longrightarrow> i = j"
proof (induction xss arbitrary: i j)
  case (Cons xs xss)
  have no: False if "x \<in> set xs" "n < length xss" "x \<in> set (xss ! n)" for n
  proof -
    have "x \<in> \<Union> (set ` set xss)" using that(3) nth_mem [OF that(2)] by blast
    then show False using that(1) Cons.prems(1) by auto
  qed
  show ?case
    using Cons.prems no Cons.IH by (cases i; cases j) auto
qed simp

lemma set_sort_requirements [simp]: "set (sort_requirements rs) = set rs"
  by (simp add: sort_requirements_def)

lemma length_sort_requirements [simp]: "length (sort_requirements rs) = length rs"
  by (simp add: sort_requirements_def)

lemma distinct_sort_requirements:
  "distinct (map fst rs) \<Longrightarrow> distinct (map fst (sort_requirements rs))"
  by (simp add: sort_requirements_def distinct_map)

text \<open>The locations of the requirements of all states.\<close>

definition all_locations :: "requirement list list \<Rightarrow> location list" where
  "all_locations rss = concat (map (map fst) rss)"

lemma local_slots_disjoint:
  assumes "distinct (all_locations rss)"
    and "i < length (local_slots rss)" "j < length (local_slots rss)"
    and "l \<in> set (slot_locations (local_slots rss ! i))" "l \<in> set (slot_locations (local_slots rss ! j))"
  shows "i = j"
proof -
  obtain rs where rs: "rs \<in> set rss" "i < length rs" "l = fst (sort_requirements rs ! i)"
    using local_slot_location assms by blast
  obtain rs' where rs': "rs' \<in> set rss" "j < length rs'" "l = fst (sort_requirements rs' ! j)"
    using local_slot_location assms by blast
  have mem: "l \<in> set (map fst rs)" "l \<in> set (map fst rs')"
    using rs rs' by (metis image_eqI length_sort_requirements nth_mem set_map set_sort_requirements)+
  have "rs = rs'"
    by (rule distinct_concat_map_mem [where x = l and f = "map fst" and xss = rss])
       (use assms(1) rs(1) rs'(1) mem in \<open>auto simp: all_locations_def\<close>)
  have "distinct (map fst rs)"
    using assms(1) rs(1) by (auto simp: all_locations_def distinct_concat_iff)
  then have "distinct (map fst (sort_requirements rs))"
    by (rule distinct_sort_requirements)
  moreover have "map fst (sort_requirements rs) ! i = map fst (sort_requirements rs) ! j"
    using rs rs' \<open>rs = rs'\<close> by simp
  ultimately show ?thesis
    using rs rs' \<open>rs = rs'\<close> by (metis length_map length_sort_requirements nth_eq_iff_index_eq)
qed

lemma allocation_slots_lookup:
  assumes "\<And>s'. s' \<in> set ss \<Longrightarrow> l \<in> set (slot_locations s') \<Longrightarrow> slot_id s' = slot_id s"
    and "s \<in> set ss" "l \<in> set (slot_locations s)"
  shows "map_of (allocation_slots ss) l = Some (slot_id s)"
proof -
  have one: "map_of (fold (\<lambda>l. dict_set l n) ls d) l = (if l \<in> set ls then Some n else map_of d l)" for n ls d
    by (induction ls arbitrary: d) (auto simp: dict_set_lookup)
  have all: "map_of (fold (\<lambda>s d. fold (\<lambda>l. dict_set l (slot_id s)) (slot_locations s) d) ss d) l =
     (if \<exists>s\<in>set ss. l \<in> set (slot_locations s) then Some (slot_id s) else map_of d l)" for d
    using assms(1) by (induction ss arbitrary: d) (auto simp: one)
  show ?thesis using assms(2,3) by (simp add: allocation_slots_def all) blast
qed

lemma set_map2_upt:
  "s \<in> set (map2 f xs [n..<n + length xs]) \<longleftrightarrow> (\<exists>i<length xs. s = f (xs ! i) (n + i))"
  by (force simp: set_zip)

lemma set_number_slots:
  "s \<in> set (number_slots gs ls) \<longleftrightarrow>
     (\<exists>i<length gs. s = number_slot True (gs ! i) (1 + i))
     \<or> (\<exists>i<length ls. s = number_slot False (ls ! i) (1 + length gs + i))"
  by (simp only: number_slots_def set_append Un_iff set_map2_upt)

lemma number_slot_simps [simp]:
  "slot_size (number_slot g s n) = slot_size s"
  "slot_locations (number_slot g s n) = slot_locations s"
  "slot_id (number_slot g s n) = n"
  "slot_global (number_slot g s n) = g"
  by (simp_all add: number_slot_def)

text \<open>The slots of the global variables.\<close>

lemma global_slot_locations:
  "allocate_global_slots sz ext ds = Inr (gs, em) \<Longrightarrow> distinct (map (snd \<circ> snd) ds) \<Longrightarrow>
     distinct (concat (map slot_locations gs)) \<and> set (concat (map slot_locations gs)) \<subseteq> (snd \<circ> snd) ` set ds"
proof (induction sz ext ds arbitrary: gs em rule: allocate_global_slots.induct)
  case (2 sz ext v t l ds)
  show ?case
    using 2 by (auto simp: bind_res_eq_Inr split: if_splits) force+
qed simp

lemma global_slot_of:
  "allocate_global_slots sz ext ds = Inr (gs, em) \<Longrightarrow> (v, t, l) \<in> set ds \<Longrightarrow> needs_allocation t \<Longrightarrow>
   list_all (\<lambda>b. \<not> id_eq v b) ext \<Longrightarrow>
     \<exists>n. sz (Some v) None = Inr n \<and> \<lparr>slot_size = n, slot_locations = [l]\<rparr> \<in> set gs"
proof (induction sz ext ds arbitrary: gs em rule: allocate_global_slots.induct)
  case (2 sz ext v' t' l' ds)
  show ?case
    using 2 by (auto simp: bind_res_eq_Inr split: if_splits) blast+
qed simp

lemma external_slot:
  "allocate_global_slots sz ext ds = Inr (gs, em) \<Longrightarrow> (v, t, l) \<in> set ds \<Longrightarrow> needs_allocation t \<Longrightarrow>
   l \<in> set em \<or> list_all (\<lambda>b. \<not> id_eq v b) ext"
proof (induction sz ext ds arbitrary: gs em rule: allocate_global_slots.induct)
  case (2 sz ext v' t' l' ds)
  show ?case
    using 2 by (auto simp: bind_res_eq_Inr split: if_splits)
qed simp

text \<open>The locations that an allocation is asked to find slots for.\<close>

definition requested :: "integration \<Rightarrow> ir_machine \<Rightarrow> requirement list list \<Rightarrow> bool" where
  "requested pk sm rss =
     (map_res (\<lambda>s. requirements (get_size pk (sm_id sm)) s (state_actions s)) (sm_states sm) = Inr rss
      \<and> distinct (map (snd \<circ> snd) (sm_declarations sm) @ all_locations rss)
      \<and> NO_LOCATION \<notin> set (all_locations rss))"

lemma allocateE:
  assumes "allocate pk sm = Inr a" "requested pk sm rss"
  obtains ext gs em where
    "allocate_global_slots (get_size pk (sm_id sm)) ext (sm_declarations sm) = Inr (gs, em)"
    "numbered_slots a = number_slots gs (local_slots rss)"
    "slot_table a = allocation_slots (numbered_slots a)" "externally_managed a = em"
  using assms
  by (auto simp: allocate_def requested_def allocate_local_slots_def bind_res_eq_Inr Let_def split: if_splits)

text \<open>A location occurs in one slot only.\<close>

lemma slot_of_location_unique:
  assumes "allocate pk sm = Inr a" "requested pk sm rss"
    and "s \<in> set (numbered_slots a)" "s' \<in> set (numbered_slots a)"
    and "l \<in> set (slot_locations s)" "l \<in> set (slot_locations s')"
  shows "s' = s"
proof -
  obtain ext gs em where g: "allocate_global_slots (get_size pk (sm_id sm)) ext (sm_declarations sm) = Inr (gs, em)"
      and ss: "numbered_slots a = number_slots gs (local_slots rss)"
    using assms(1,2) by (rule allocateE)
  have d: "distinct (map (snd \<circ> snd) (sm_declarations sm))" "distinct (all_locations rss)"
      and disj: "set (map (snd \<circ> snd) (sm_declarations sm)) \<inter> set (all_locations rss) = {}"
    using assms(2) by (auto simp: requested_def)
  have gl: "distinct (concat (map slot_locations gs))"
      "set (concat (map slot_locations gs)) \<subseteq> (snd \<circ> snd) ` set (sm_declarations sm)"
    using global_slot_locations [OF g d(1)] by auto
  have ll: "set (slot_locations (local_slots rss ! i)) \<subseteq> set (all_locations rss)"
    if i: "i < length (local_slots rss)" for i
  proof
    fix x assume "x \<in> set (slot_locations (local_slots rss ! i))"
    then obtain rs where rs: "rs \<in> set rss" "i < length rs" "x = fst (sort_requirements rs ! i)"
      using local_slot_location [OF i] by blast
    then have "sort_requirements rs ! i \<in> set rs"
      using nth_mem [of i "sort_requirements rs"] by simp
    then show "x \<in> set (all_locations rss)" using rs by (auto simp: all_locations_def)
  qed
  have gg: "i = j" if "i < length gs" "j < length gs" "l \<in> set (slot_locations (gs ! i))" "l \<in> set (slot_locations (gs ! j))" for i j
    using distinct_concat_nth [OF gl(1), of i j l] that by simp
  have mixed: False if "i < length gs" "j < length (local_slots rss)" "l \<in> set (slot_locations (gs ! i))"
      "l \<in> set (slot_locations (local_slots rss ! j))" for i j
    using that gl(2) ll [OF that(2)] disj nth_mem [OF that(1)] by fastforce
  show ?thesis
    using assms(3-6) gg mixed local_slots_disjoint [OF d(2)] unfolding ss set_number_slots
    by (elim disjE exE conjE) (simp_all, blast+)
qed

lemma filter_number_slot:
  "filter slot_global (map2 (number_slot True) xs ns) = map2 (number_slot True) xs ns"
  "filter slot_global (map2 (number_slot False) xs ns) = []"
  "filter (\<lambda>s. \<not> slot_global s) (map2 (number_slot True) xs ns) = []"
  "filter (\<lambda>s. \<not> slot_global s) (map2 (number_slot False) xs ns) = map2 (number_slot False) xs ns"
  by (auto simp: filter_id_conv filter_empty_conv)

lemma slots_by_kind:
  "length (filter slot_global (number_slots gs ls)) = length gs"
  "length (filter (\<lambda>s. \<not> slot_global s) (number_slots gs ls)) = length ls"
  unfolding number_slots_def filter_append filter_number_slot by (simp_all del: upt_Suc)

text \<open>
  The slot of the requirement at position \<open>i\<close> of the sorted requirements of a state: it has the number
  \<open>i\<close> among the slots that are not global.
\<close>

lemma slot_of_requirement:
  assumes "allocate pk sm = Inr a" "requested pk sm rss" "rs \<in> set rss" "i < length rs"
  shows "\<exists>s\<in>set (numbered_slots a).
    map_of (slot_table a) (fst (sort_requirements rs ! i)) = Some (slot_id s)
    \<and> snd (sort_requirements rs ! i) \<le> slot_size s \<and> \<not> slot_global s
    \<and> slot_id s = 1 + length (filter slot_global (numbered_slots a)) + i"
proof -
  let ?l = "fst (sort_requirements rs ! i)"
  obtain ext gs em where ss: "numbered_slots a = number_slots gs (local_slots rss)"
      and tab: "slot_table a = allocation_slots (numbered_slots a)"
    using assms(1,2) by (rule allocateE)
  let ?s = "number_slot False (local_slots rss ! i) (1 + length gs + i)"
  have i: "i < length (local_slots rss)" and l: "?l \<in> set (slot_locations ?s)"
      and n: "snd (sort_requirements rs ! i) \<le> slot_size ?s"
    using local_slot_of [OF assms(3,4)] by simp_all
  have s: "?s \<in> set (numbered_slots a)"
    using i unfolding ss set_number_slots by blast
  have "map_of (slot_table a) ?l = Some (slot_id ?s)"
    unfolding tab
    by (rule allocation_slots_lookup [OF _ s l])
       (use slot_of_location_unique [OF assms(1,2) s _ l] in blast)
  then show ?thesis
    using s n by (intro bexI [of _ ?s]) (simp_all add: ss slots_by_kind)
qed

lemma requirement_position:
  assumes "(l, n) \<in> set rs"
  shows "\<exists>i<length rs. sort_requirements rs ! i = (l, n)"
  using assms by (metis in_set_conv_nth length_sort_requirements set_sort_requirements)



text \<open>
  No more slots are used than the state with the most requirements needs.
\<close>

theorem local_slots_minimal:
  assumes "allocate pk sm = Inr a" "requested pk sm rss"
  shows "length (get_local_slot_ptrs a) = foldr max (map length rss) 0"
proof -
  obtain ext gs em where "numbered_slots a = number_slots gs (local_slots rss)"
    using assms by (rule allocateE)
  then show ?thesis
    by (simp add: get_local_slot_ptrs_def slots_by_kind length_local_slots)
qed

text \<open>
  The variable of a state machine that needs a buffer has a global slot of its own, of the size requested
  for it, unless the buffer is managed externally.
\<close>

theorem global_variable_has_slot:
  assumes "allocate pk sm = Inr a" "requested pk sm rss"
    and "(v, t, l) \<in> set (sm_declarations sm)" "needs_allocation t"
    and "l \<notin> set (externally_managed a)" "l \<noteq> NO_LOCATION"
  shows "\<exists>s\<in>set (numbered_slots a). get_slot_ptr a l = Inr (slot_name (slot_id s))
    \<and> slot_global s \<and> slot_locations s = [l] \<and> get_size pk (sm_id sm) (Some v) None = Inr (slot_size s)"
proof -
  obtain ext gs em where g: "allocate_global_slots (get_size pk (sm_id sm)) ext (sm_declarations sm) = Inr (gs, em)"
      and ss: "numbered_slots a = number_slots gs (local_slots rss)"
      and tab: "slot_table a = allocation_slots (numbered_slots a)" and em: "externally_managed a = em"
    using assms(1,2) by (rule allocateE)
  have "list_all (\<lambda>b. \<not> id_eq v b) ext"
    using external_slot [OF g assms(3,4)] assms(5) em by blast
  then obtain n where n: "get_size pk (sm_id sm) (Some v) None = Inr n"
      and mem: "\<lparr>slot_size = n, slot_locations = [l]\<rparr> \<in> set gs"
    using global_slot_of [OF g assms(3,4)] by blast
  then obtain i where i: "i < length gs" "gs ! i = \<lparr>slot_size = n, slot_locations = [l]\<rparr>"
    by (auto simp: in_set_conv_nth)
  let ?s = "number_slot True (gs ! i) (1 + i)"
  have s: "?s \<in> set (numbered_slots a)" "l \<in> set (slot_locations ?s)"
    using i unfolding ss set_number_slots by auto
  have "map_of (slot_table a) l = Some (slot_id ?s)"
    unfolding tab
    by (rule allocation_slots_lookup [OF _ s])
       (use slot_of_location_unique [OF assms(1,2) s(1) _ s(2)] in blast)
  then show ?thesis
    using s(1) n i assms(6) by (intro bexI [of _ ?s]) (simp_all add: get_slot_ptr_def assert_res_def)
qed

lemma local_slots_positive:
  assumes "list_all (list_all (\<lambda>r. 0 < snd r)) rss" "s \<in> set (local_slots rss)"
  shows "0 < slot_size s"
proof -
  obtain i where i: "i < length (local_slots rss)" "s = local_slots rss ! i"
    using assms(2) by (auto simp: in_set_conv_nth)
  then have "i < foldr max (map length rss) 0" by (simp add: length_local_slots)
  moreover from this have "rss \<noteq> []" by auto
  ultimately obtain rs where rs: "rs \<in> set rss" "i < length rs"
    using foldr_max_mem [of "map length rss"] by auto
  have "sort_requirements rs ! i \<in> set rs"
    using rs nth_mem [of i "sort_requirements rs"] by simp
  then have "0 < snd (sort_requirements rs ! i)"
    using rs assms(1) by (auto simp: list_all_iff)
  then show ?thesis
    using local_slot_of(3) [OF rs] i by simp
qed

lemma returns_map_all:
  "(\<And>x. x \<in> set xs \<Longrightarrow> returns P (f x)) \<Longrightarrow> returns (list_all P) (map_res f xs)"
  by (induction xs) (auto intro!: returns_bind [where Q = P] returns_bind [where Q = "list_all P"])

lemma allocated_positive:
  assumes "well_formed pk"
  shows "returns (\<lambda>a. list_all (\<lambda>s. 0 < slot_size s) (numbered_slots a)) (allocate pk sm)"
proof -
  have r: "returns (list_all (list_all (\<lambda>r. 0 < snd r)))
      (map_res (\<lambda>s. requirements (get_size pk (sm_id sm)) s (state_actions s)) (sm_states sm))"
    by (rule returns_map_all) (rule integration.requirements_positive(1) [OF assms])
  have l: "returns (\<lambda>ls. \<forall>s\<in>set ls. 0 < slot_size s) (allocate_local_slots (get_size pk (sm_id sm)) sm)"
    unfolding allocate_local_slots_def
    by (rule returns_bind [OF r]) (auto intro: local_slots_positive)
  have e: "returns (\<lambda>_. True) (use_external_io_buffers pk (sm_id sm))"
    by (auto simp: use_external_io_buffers_def machine_entry_def parent_res_def split: option.split)
  show ?thesis
    unfolding allocate_def Let_def
    by (rule returns_bind [OF e], rule returns_bind [OF integration.global_slots_positive [OF assms]],
        rule returns_bind [OF l]) (auto simp: list_all_iff set_number_slots)
qed

text \<open>
  With sizes that passed the check of the integration file, every slot has a positive size, so the
  range of its memory component is not empty.
\<close>

theorem slots_positive:
  assumes "well_formed pk"
  shows "returns (\<lambda>a. list_all (\<lambda>s. 0 < slot_size s) (numbered_slots a)) (allocate pk sm)"
  by (rule allocated_positive [OF assms])

section \<open>An example\<close>

definition at_line :: "nat \<Rightarrow> location" where
  "at_line n = Location (Some ''p.rflx'') (n, 4) None"

definition sample_ir :: ir_machine where
  "sample_ir =
     \<lparr>sm_id = ''P::M'',
      sm_declarations = [(''G'', MessageType ''P::Msg'', at_line 1), (''N'', ScalarType ''P::Int'', at_line 2)],
      sm_states =
        [\<lparr>state_id = ''S'', state_actions =
            [VarDecl ''X'' (MessageType ''P::Msg'') (at_line 3),
             Assign (Find (Var ''Q'' (SequenceType (MessageType ''P::Msg''))) [] []) (at_line 4),
             OtherStmt (at_line 5)]\<rparr>,
         \<lparr>state_id = ''T'', state_actions =
            [Assign (Head ''G'') (at_line 6), VarDecl ''I'' (ScalarType ''P::Int'') (at_line 7)]\<rparr>]\<rparr>"

definition sample_requirements :: "requirement list list" where
  "sample_requirements = [[(at_line 3, 64), (at_line 4, 4096)], [(at_line 6, 128)]]"

definition sample_integration :: integration where
  "sample_integration = [(''p'', [(''M'', sample_entry)])]"

definition sample_allocation :: allocator where
  "sample_allocation =
     \<lparr>numbered_slots =
        [\<lparr>slot_size = 128, slot_locations = [at_line 1], slot_id = 1, slot_global = True\<rparr>,
         \<lparr>slot_size = 4096, slot_locations = [at_line 4, at_line 6], slot_id = 2, slot_global = False\<rparr>,
         \<lparr>slot_size = 64, slot_locations = [at_line 3], slot_id = 3, slot_global = False\<rparr>],
      slot_table = [(at_line 1, 1), (at_line 4, 2), (at_line 6, 2), (at_line 3, 3)],
      externally_managed = []\<rparr>"

lemma sample_allocated: "allocate sample_integration sample_ir = Inr sample_allocation"
  by code_simp

lemma sample_requested: "requested sample_integration sample_ir sample_requirements"
  by code_simp



theorem local_slots_minimal_witness: "length (get_local_slot_ptrs sample_allocation) = 2"
  using local_slots_minimal [OF sample_allocated sample_requested] by (simp add: sample_requirements_def)

theorem global_variable_has_slot_witness:
  "\<exists>s\<in>set (numbered_slots sample_allocation). get_slot_ptr sample_allocation (at_line 1) = Inr (slot_name (slot_id s))
    \<and> slot_global s \<and> slot_locations s = [at_line 1]
    \<and> get_size sample_integration (sm_id sample_ir) (Some ''G'') None = Inr (slot_size s)"
  by (rule global_variable_has_slot [OF sample_allocated sample_requested, of _ "MessageType ''P::Msg''"])
     (simp_all add: sample_ir_def sample_allocation_def at_line_def)

lemma sample_well_formed: "well_formed sample_integration"
  by (simp add: sample_integration_def well_formed_def positive_sizes_def sample_entry_def sample_size_def)

theorem slots_positive_witness:
  "list_all (\<lambda>s. 0 < slot_size s) (numbered_slots sample_allocation)"
proof -
  have "returns (\<lambda>a. list_all (\<lambda>s. 0 < slot_size s) (numbered_slots a)) (allocate sample_integration sample_ir)"
    by (rule slots_positive [OF sample_well_formed])
  then show ?thesis by (simp add: sample_allocated)
qed

end
