(* ===== verification/Allocator_Package.thy ===== *)
theory Allocator_Package
  imports Allocator
begin

text \<open>
  The Ada package that the allocator generates (the \<open>_create_*\<close> methods of
  \<open>rflx/generator/allocator.py\<close>): the memory, the pointer subtypes, the record of the slots, the
  predicates on it and the bodies of \<open>Initialize\<close> and \<open>Finalize\<close>.  Only the generated declarations,
  conditions and statements are modelled, not their printing; a small semantics says what they do.
\<close>

section \<open>Generated declarations\<close>

definition memory_component :: "nat \<Rightarrow> ident" where
  "memory_component n = ''Slot_'' @ int_str (int n)"

definition ptr_type :: "int \<Rightarrow> ident" where
  "ptr_type n = ''Slot_Ptr_Type_'' @ int_str n"

text \<open>A component of \<open>Memory\<close>: its name and the offset of its last index from \<open>Index'First\<close>.\<close>

definition create_memory :: "numbered_slot list \<Rightarrow> (ident \<times> int) list" where
  "create_memory ss = map (\<lambda>s. (memory_component (slot_id s), slot_size s - 1)) ss"

text \<open>A pointer subtype: its values are \<open>null\<close> and the arrays with the given offset of the last index.\<close>

definition create_ptr_subtypes :: "numbered_slot list \<Rightarrow> (ident \<times> int) list" where
  "create_ptr_subtypes ss = map (\<lambda>n. (ptr_type n, n - 1)) (sort (remdups (map slot_size ss)))"

definition create_slots :: "numbered_slot list \<Rightarrow> (ident \<times> ident) list" where
  "create_slots ss = map (\<lambda>s. (slot_name (slot_id s), ptr_type (slot_size s))) ss"

datatype pointer_test = NullPointer ident | ValidPointer ident

definition create_init_pred :: "numbered_slot list \<Rightarrow> pointer_test list" where
  "create_init_pred ss = map (\<lambda>s. ValidPointer (slot_name (slot_id s))) ss"

definition create_uninitialized_pred :: "numbered_slot list \<Rightarrow> pointer_test list" where
  "create_uninitialized_pred ss = map (\<lambda>s. NullPointer (slot_name (slot_id s))) ss"

definition create_global_allocated_pred :: "numbered_slot list \<Rightarrow> pointer_test list" where
  "create_global_allocated_pred ss =
     map (\<lambda>s. NullPointer (slot_name (slot_id s))) (filter slot_global ss)
     @ map (\<lambda>s. ValidPointer (slot_name (slot_id s))) (filter (\<lambda>s. \<not> slot_global s) ss)"

datatype slot_stmt = AssignAccess ident ident | AssignNull ident | NullStatement

definition create_init_proc :: "numbered_slot list \<Rightarrow> slot_stmt list" where
  "create_init_proc ss =
     (if ss \<noteq> [] then map (\<lambda>s. AssignAccess (slot_name (slot_id s)) (memory_component (slot_id s))) ss
      else [NullStatement])"

definition create_finalize_proc :: "numbered_slot list \<Rightarrow> slot_stmt list" where
  "create_finalize_proc ss =
     (if ss \<noteq> [] then map (\<lambda>s. AssignNull (slot_name (slot_id s))) ss else [NullStatement])"

section \<open>Their meaning\<close>

text \<open>The value of the record \<open>Slots\<close>: each pointer is null or designates a component of the memory.\<close>

type_synonym slots_value = "ident \<Rightarrow> ident option"

fun test_holds :: "slots_value \<Rightarrow> pointer_test \<Rightarrow> bool" where
  "test_holds v (NullPointer p) = (v p = None)"
| "test_holds v (ValidPointer p) = (v p \<noteq> None)"

fun exec_slot_stmt :: "slot_stmt \<Rightarrow> slots_value \<Rightarrow> slots_value" where
  "exec_slot_stmt (AssignAccess p c) v = v(p := Some c)"
| "exec_slot_stmt (AssignNull p) v = v(p := None)"
| "exec_slot_stmt NullStatement v = v"

definition exec_slot_stmts :: "slot_stmt list \<Rightarrow> slots_value \<Rightarrow> slots_value" where
  "exec_slot_stmts = fold exec_slot_stmt"

text \<open>Every pointer is null or has the bounds that its subtype asks for.\<close>

definition well_typed_slots :: "numbered_slot list \<Rightarrow> slots_value \<Rightarrow> bool" where
  "well_typed_slots ss v =
     list_all (\<lambda>(p, t).
       case v p of
         None \<Rightarrow> t \<in> set (map fst (create_ptr_subtypes ss))
       | Some c \<Rightarrow>
           (case (map_of (create_ptr_subtypes ss) t, map_of (create_memory ss) c) of
              (Some n, Some k) \<Rightarrow> n = k
            | _ \<Rightarrow> False)) (create_slots ss)"

text \<open>Slots of the allocator have the numbers from one on.\<close>

lemma slot_ids: "map slot_id (number_slots gs ls) = [1..<1 + length gs + length ls]"
  by (rule nth_equalityI) (auto simp: number_slots_def nth_append simp del: upt_Suc)

lemma allocated_distinct:
  assumes "allocate pk sm = Inr a"
  shows "distinct (map slot_id (numbered_slots a))"
proof -
  obtain gs ls where "numbered_slots a = number_slots gs ls"
    using assms by (auto simp: allocate_def bind_res_eq_Inr Let_def)
  then show ?thesis by (simp only: slot_ids distinct_upt)
qed

lemma exec_init:
  "exec_slot_stmts (map (\<lambda>s. AssignAccess (slot_name (slot_id s)) (memory_component (slot_id s))) ss) v p =
     (if p \<in> slot_name ` slot_id ` set ss then Some (memory_component (the_elem {n. slot_name n = p})) else v p)"
proof (induction ss arbitrary: v)
  case (Cons s ss)
  have "{n. slot_name n = slot_name k} = {k}" for k
    by (auto simp: slot_name_inj)
  then show ?case using Cons by (auto simp: exec_slot_stmts_def)
qed (simp add: exec_slot_stmts_def)

lemma exec_init_slot:
  assumes "s \<in> set ss"
  shows "exec_slot_stmts (create_init_proc ss) v (slot_name (slot_id s)) = Some (memory_component (slot_id s))"
proof -
  have "{n. slot_name n = slot_name (slot_id s)} = {slot_id s}"
    by (auto simp: slot_name_inj)
  then show ?thesis using assms by (auto simp: create_init_proc_def exec_init)
qed

lemma exec_nulls:
  "exec_slot_stmts (map AssignNull ps) v p = (if p \<in> set ps then None else v p)"
  by (induction ps arbitrary: v) (auto simp: exec_slot_stmts_def)

lemma exec_finalize_slot:
  assumes "s \<in> set ss"
  shows "exec_slot_stmts (create_finalize_proc ss) v (slot_name (slot_id s)) = None"
proof -
  have "create_finalize_proc ss = map AssignNull (map (\<lambda>s. slot_name (slot_id s)) ss)"
    using assms by (auto simp: create_finalize_proc_def)
  then show ?thesis using assms by (simp only: exec_nulls) auto
qed

text \<open>
  The generated \<open>Initialize\<close> and \<open>Finalize\<close> establish their postconditions, whatever the slots held
  before.
\<close>

theorem init_finalize_postconditions:
  "list_all (test_holds (exec_slot_stmts (create_init_proc ss) v)) (create_init_pred ss)
   \<and> list_all (test_holds (exec_slot_stmts (create_finalize_proc ss) v)) (create_uninitialized_pred ss)"
  by (auto simp: list_all_iff create_init_pred_def create_uninitialized_pred_def exec_init_slot exec_finalize_slot)

text \<open>
  C34. Taking the pointers of the global variables out of the initialized slots, as the generated state
  machine does at its start, establishes \<open>Global_Allocated\<close>: the local slots keep their buffers.
\<close>

theorem global_allocated:
  assumes "allocate pk sm = Inr a"
  shows "list_all
    (test_holds
       (exec_slot_stmts (map AssignNull (get_global_slot_ptrs a))
         (exec_slot_stmts (create_init_proc (numbered_slots a)) v)))
    (create_global_allocated_pred (numbered_slots a))"
proof -
  have inj: "s = s'" if "s \<in> set (numbered_slots a)" "s' \<in> set (numbered_slots a)" "slot_id s = slot_id s'" for s s'
    using allocated_distinct [OF assms] that by (auto simp: distinct_map dest: inj_onD)
  have "slot_name (slot_id s) \<in> set (get_global_slot_ptrs a) \<longleftrightarrow> slot_global s"
    if "s \<in> set (numbered_slots a)" for s
    using that by (auto simp: get_global_slot_ptrs_def slot_name_inj) (metis inj)
  then show ?thesis
    by (auto simp: list_all_iff create_global_allocated_pred_def exec_nulls exec_init_slot)
qed

lemma ptr_type_inj: "0 < m \<Longrightarrow> 0 < n \<Longrightarrow> ptr_type m = ptr_type n \<longleftrightarrow> m = n"
  by (auto simp: ptr_type_def int_str_def digits_of_inj)

lemma memory_component_inj: "memory_component m = memory_component n \<longleftrightarrow> m = n"
  by (simp add: memory_component_def int_str_def digits_of_inj)

lemma map_of_map_inj:
  "k \<in> set xs \<Longrightarrow> (\<And>x y. x \<in> set xs \<Longrightarrow> y \<in> set xs \<Longrightarrow> f x = f y \<Longrightarrow> g x = g y) \<Longrightarrow>
   map_of (map (\<lambda>x. (f x, g x)) xs) (f k) = Some (g k)"
proof (induction xs)
  case (Cons x xs)
  show ?case
  proof (cases "f x = f k")
    case True
    then show ?thesis using Cons.prems(2) [of x k] Cons.prems(1) by simp
  next
    case False
    then have "k \<in> set xs" using Cons.prems(1) by auto
    then show ?thesis using False Cons.IH Cons.prems(2) by simp
  qed
qed simp

lemma ptr_subtype_of:
  assumes "list_all (\<lambda>s. 0 < slot_size s) ss" "s \<in> set ss"
  shows "map_of (create_ptr_subtypes ss) (ptr_type (slot_size s)) = Some (slot_size s - 1)"
  unfolding create_ptr_subtypes_def
  by (rule map_of_map_inj [where f = ptr_type]) (use assms in \<open>auto simp: list_all_iff ptr_type_inj\<close>)

lemma memory_of:
  assumes "distinct (map slot_id ss)" "s \<in> set ss"
  shows "map_of (create_memory ss) (memory_component (slot_id s)) = Some (slot_size s - 1)"
  unfolding create_memory_def
  by (rule map_of_map_inj [where f = "\<lambda>s. memory_component (slot_id s)" and g = "\<lambda>s. slot_size s - 1"])
     (use assms in \<open>auto simp: memory_component_inj distinct_map dest: inj_onD\<close>)

text \<open>
  C35. The pointers that \<open>Initialize\<close> assigns satisfy the predicates of their subtypes: each designates a
  memory component of exactly the length that the subtype asks for, and every subtype is declared.
\<close>

theorem initialized_well_typed:
  assumes "well_formed pk" "allocate pk sm = Inr a"
  shows "well_typed_slots (numbered_slots a) (exec_slot_stmts (create_init_proc (numbered_slots a)) v)"
proof -
  have "list_all (\<lambda>s. 0 < slot_size s) (numbered_slots a)"
    using allocated_positive [OF assms(1), of sm] assms(2) by simp
  then show ?thesis
    using allocated_distinct [OF assms(2)]
    by (auto simp: well_typed_slots_def list_all_iff create_slots_def exec_init_slot memory_of ptr_subtype_of)
qed

theorem global_allocated_witness:
  "list_all
    (test_holds
       (exec_slot_stmts (map AssignNull (get_global_slot_ptrs sample_allocation))
         (exec_slot_stmts (create_init_proc (numbered_slots sample_allocation)) (\<lambda>_. None))))
    (create_global_allocated_pred (numbered_slots sample_allocation))"
  by (rule global_allocated [OF sample_allocated])

theorem initialized_well_typed_witness:
  "well_typed_slots (numbered_slots sample_allocation)
     (exec_slot_stmts (create_init_proc (numbered_slots sample_allocation)) (\<lambda>_. None))"
  by (rule initialized_well_typed [OF sample_well_formed sample_allocated])

end
