(* ===== verification/Types.thy ===== *)
theory Types
  imports Identifier
begin

text \<open>
  The types that expressions are checked against (\<open>librapidflux/src/ty.rs\<close>): compatibility, common
  types and the builtin types.  Of messages and structures only the identifier, the fields and the
  parameters are kept; \<open>AnyInteger\<close>, \<open>Composite\<close> and \<open>Compound\<close>, which are used in \<open>isinstance\<close> tests only,
  are predicates.
\<close>

section \<open>Types\<close>

text \<open>Inclusive bounds.\<close>

type_synonym bounds = "int \<times> int"

datatype ty =
    Undefined
  | Any
  | Enumeration ident
  | UniversalInteger bounds
  | Integer ident bounds
  | Aggregate ty
  | Sequence ident ty
  | Structure ident "(ident \<times> ty) list" "(ident \<times> ty) list"
  | Message ident "(ident \<times> ty) list" "(ident \<times> ty) list"
  | Channel bool bool

text \<open>The types of the fields of a message or structure, and of its parameters and fields (\<open>types\<close>).\<close>

fun field_types :: "ty \<Rightarrow> (ident \<times> ty) list" where
  "field_types (Structure i ps fs) = fs"
| "field_types (Message i ps fs) = fs"
| "field_types _ = []"

fun all_types :: "ty \<Rightarrow> (ident \<times> ty) list" where
  "all_types (Structure i ps fs) = ps @ fs"
| "all_types (Message i ps fs) = ps @ fs"
| "all_types _ = []"

text \<open>Look-up in a dictionary whose keys are identifiers.\<close>

definition id_lookup :: "(ident \<times> 'a) list \<Rightarrow> ident \<Rightarrow> 'a option" where
  "id_lookup d i = map_of (map (\<lambda>(k, v). (lower k, v)) d) (lower i)"

lemma id_lookup_code [code]:
  "id_lookup [] i = None"
  "id_lookup ((k, v) # d) i = (if id_eq k i then Some v else id_lookup d i)"
  by (auto simp: id_lookup_def id_eq_def)

fun is_any_integer :: "ty \<Rightarrow> bool" where
  "is_any_integer (UniversalInteger b) = True"
| "is_any_integer (Integer i b) = True"
| "is_any_integer _ = False"

fun is_integer :: "ty \<Rightarrow> bool" where
  "is_integer (Integer i b) = True"
| "is_integer _ = False"

fun is_enumeration :: "ty \<Rightarrow> bool" where
  "is_enumeration (Enumeration i) = True"
| "is_enumeration _ = False"

fun is_message :: "ty \<Rightarrow> bool" where
  "is_message (Message i ps fs) = True"
| "is_message _ = False"

fun is_composite :: "ty \<Rightarrow> bool" where
  "is_composite (Aggregate t) = True"
| "is_composite (Sequence i t) = True"
| "is_composite _ = False"

fun is_compound :: "ty \<Rightarrow> bool" where
  "is_compound (Structure i ps fs) = True"
| "is_compound (Message i ps fs) = True"
| "is_compound _ = False"

text \<open>\<open>type_.bounds\<close> of an integer type.\<close>

fun bounds_of :: "ty \<Rightarrow> bounds option" where
  "bounds_of (UniversalInteger b) = Some b"
| "bounds_of (Integer i b) = Some b"
| "bounds_of _ = None"

section \<open>Bounds\<close>

definition contains_int :: "bounds \<Rightarrow> int \<Rightarrow> bool" where
  "contains_int b n = (fst b \<le> n \<and> n \<le> snd b)"

definition contains_bounds :: "bounds \<Rightarrow> bounds \<Rightarrow> bool" where
  "contains_bounds a b = (fst a \<le> fst b \<and> snd b \<le> snd a)"

definition merge_bounds :: "bounds \<Rightarrow> bounds \<Rightarrow> bounds" where
  "merge_bounds a b = (min (fst a) (fst b), max (snd a) (snd b))"

lemma contains_boundsD: "contains_bounds a b \<Longrightarrow> contains_int b n \<Longrightarrow> contains_int a n"
  by (simp add: contains_bounds_def contains_int_def)

lemma contains_merge: "contains_bounds (merge_bounds a b) a" "contains_bounds (merge_bounds a b) b"
  by (simp_all add: contains_bounds_def merge_bounds_def)

section \<open>Builtin types\<close>

definition max_scalar_size :: nat where
  "max_scalar_size = 63"

definition BASE_INTEGER :: ty where
  "BASE_INTEGER = Integer ''__BUILTINS__::Base_Integer'' (0, 2 ^ max_scalar_size - 1)"

definition UNIVERSAL_INTEGER :: ty where
  "UNIVERSAL_INTEGER = UniversalInteger (0, 2 ^ max_scalar_size - 1)"

definition BIT_LENGTH :: ty where
  "BIT_LENGTH = Integer ''__BUILTINS__::Bit_Length'' (0, (2 ^ 31 - 1) * 8)"

definition BOOLEAN :: ty where
  "BOOLEAN = Enumeration ''__BUILTINS__::Boolean''"

definition OPAQUE :: ty where
  "OPAQUE = Sequence ''__INTERNAL__::Opaque'' (Integer ''__INTERNAL__::Byte'' (0, 255))"

section \<open>Equality and compatibility\<close>

text \<open>
  Types are compared by their identifiers; \<open>Aggregate\<close> and \<open>UniversalInteger\<close> have none and are compared by
  their contents.
\<close>

primrec ty_eq :: "ty \<Rightarrow> ty \<Rightarrow> bool" where
  "ty_eq Undefined t = (case t of Undefined \<Rightarrow> True | _ \<Rightarrow> False)"
| "ty_eq Any t = (case t of Any \<Rightarrow> True | _ \<Rightarrow> False)"
| "ty_eq (Enumeration i) t = (case t of Enumeration j \<Rightarrow> id_eq i j | _ \<Rightarrow> False)"
| "ty_eq (UniversalInteger a) t = (case t of UniversalInteger b \<Rightarrow> a = b | _ \<Rightarrow> False)"
| "ty_eq (Integer i a) t = (case t of Integer j b \<Rightarrow> id_eq i j | _ \<Rightarrow> False)"
| "ty_eq (Aggregate a) t = (case t of Aggregate b \<Rightarrow> ty_eq a b | _ \<Rightarrow> False)"
| "ty_eq (Sequence i a) t = (case t of Sequence j b \<Rightarrow> id_eq i j | _ \<Rightarrow> False)"
| "ty_eq (Structure i p f) t = (case t of Structure j q g \<Rightarrow> id_eq i j | _ \<Rightarrow> False)"
| "ty_eq (Message i p f) t = (case t of Message j q g \<Rightarrow> id_eq i j | _ \<Rightarrow> False)"
| "ty_eq (Channel r w) t = (case t of Channel r' w' \<Rightarrow> r = r' \<and> w = w' | _ \<Rightarrow> False)"

text \<open>
  The two compatibilities call each other on the element type of an aggregate; the flag selects the
  strong one.
\<close>

function compat :: "bool \<Rightarrow> ty \<Rightarrow> ty \<Rightarrow> bool" where
  "compat strong Undefined t = False"
| "compat strong Any t = (case t of Undefined \<Rightarrow> False | _ \<Rightarrow> True)"
| "compat strong (Enumeration i) t =
     (case t of Any \<Rightarrow> True | Enumeration j \<Rightarrow> id_eq i j | _ \<Rightarrow> False)"
| "compat strong (UniversalInteger a) t =
     (case t of
        Any \<Rightarrow> True
      | UniversalInteger b \<Rightarrow> True
      | Integer j b \<Rightarrow> (if strong then contains_bounds b a else True)
      | _ \<Rightarrow> False)"
| "compat strong (Integer i a) t =
     (case t of
        Any \<Rightarrow> True
      | UniversalInteger b \<Rightarrow> (if strong then contains_bounds a b else True)
      | Integer j b \<Rightarrow> (if strong then id_eq i j else True)
      | _ \<Rightarrow> False)"
| "compat strong (Aggregate a) t =
     (case t of
        Any \<Rightarrow> True
      | Aggregate b \<Rightarrow> compat False a b
      | Sequence j b \<Rightarrow> compat True a b
      | _ \<Rightarrow> False)"
| "compat strong (Sequence i a) t =
     (case t of
        Any \<Rightarrow> True
      | Aggregate b \<Rightarrow> compat True b a
      | Sequence j b \<Rightarrow> id_eq i j
      | _ \<Rightarrow> False)"
| "compat strong (Structure i p f) t =
     (case t of Any \<Rightarrow> True | Structure j q g \<Rightarrow> id_eq i j | _ \<Rightarrow> False)"
| "compat strong (Message i p f) t =
     (case t of Any \<Rightarrow> True | Message j q g \<Rightarrow> id_eq i j | _ \<Rightarrow> False)"
| "compat strong (Channel r w) t =
     (case t of Any \<Rightarrow> True | Channel r' w' \<Rightarrow> (r \<or> \<not> r') \<and> (w \<or> \<not> w') | _ \<Rightarrow> False)"
  by pat_completeness auto

termination
  by (relation "measure (\<lambda>(g, s, t). size s + size t)") auto

definition is_compatible :: "ty \<Rightarrow> ty \<Rightarrow> bool" where
  "is_compatible s t = compat False s t"

definition is_compatible_strong :: "ty \<Rightarrow> ty \<Rightarrow> bool" where
  "is_compatible_strong s t = compat True s t"

text \<open>\<open>self\<close> if the types are equal.\<close>

definition same_type :: "ty \<Rightarrow> ty \<Rightarrow> ty" where
  "same_type s t = (if ty_eq s t then s else Undefined)"

primrec common_type :: "ty \<Rightarrow> ty \<Rightarrow> ty" where
  "common_type Undefined t = Undefined"
| "common_type Any t = t"
| "common_type (Enumeration i) t =
     (case t of Any \<Rightarrow> Enumeration i | _ \<Rightarrow> same_type (Enumeration i) t)"
| "common_type (UniversalInteger a) t =
     (case t of
        Any \<Rightarrow> UniversalInteger a
      | UniversalInteger b \<Rightarrow> UniversalInteger (merge_bounds a b)
      | Integer j b \<Rightarrow> BASE_INTEGER
      | _ \<Rightarrow> Undefined)"
| "common_type (Integer i a) t =
     (case t of
        Any \<Rightarrow> Integer i a
      | UniversalInteger b \<Rightarrow> BASE_INTEGER
      | Integer j b \<Rightarrow> BASE_INTEGER
      | _ \<Rightarrow> Undefined)"
| "common_type (Aggregate a) t =
     (case t of
        Any \<Rightarrow> Aggregate a
      | Aggregate b \<Rightarrow>
          (if ty_eq a b then Aggregate a
           else let e = common_type a b in if is_any_integer e then Aggregate e else Undefined)
      | Sequence j b \<Rightarrow> (if is_compatible_strong (Aggregate a) t then t else Undefined)
      | _ \<Rightarrow> Undefined)"
| "common_type (Sequence i a) t =
     (case t of
        Any \<Rightarrow> Sequence i a
      | Aggregate b \<Rightarrow> (if is_compatible_strong t (Sequence i a) then Sequence i a else Undefined)
      | _ \<Rightarrow> same_type (Sequence i a) t)"
| "common_type (Structure i p f) t = (case t of Any \<Rightarrow> Structure i p f | _ \<Rightarrow> same_type (Structure i p f) t)"
| "common_type (Message i p f) t = (case t of Any \<Rightarrow> Message i p f | _ \<Rightarrow> same_type (Message i p f) t)"
| "common_type (Channel r w) t = (case t of Any \<Rightarrow> Channel r w | _ \<Rightarrow> same_type (Channel r w) t)"

text \<open>The common type of a list, \<open>ty.common_type\<close>.\<close>

definition common_types :: "ty list \<Rightarrow> ty" where
  "common_types ts = fold (\<lambda>t r. common_type r t) ts Any"

section \<open>Properties\<close>

lemma ty_eq_refl [simp]: "ty_eq t t"
  by (induction t) auto

lemma ty_eq_sym: "ty_eq s t \<Longrightarrow> ty_eq t s"
  by (induction s arbitrary: t; case_tac t) (auto intro: id_eq_sym)

lemma ty_eq_trans: "ty_eq s t \<Longrightarrow> ty_eq t u \<Longrightarrow> ty_eq s u"
  by (induction s arbitrary: t u) (auto intro: id_eq_trans split: ty.splits)

lemma strong_compatible: "is_compatible_strong s t \<Longrightarrow> is_compatible s t"
  by (cases s) (auto simp: is_compatible_def is_compatible_strong_def split: ty.splits)

lemma common_integer_type:
  "is_any_integer s \<Longrightarrow> is_any_integer t \<Longrightarrow> is_any_integer (common_type s t)"
  by (cases s; cases t) (simp_all add: BASE_INTEGER_def)

end
