(* ===== verification/Tac.thy ===== *)
theory Tac
  imports Types
begin

text \<open>
  The three-address code of the intermediate representation (\<open>rflx/ir.py\<close>): expressions, statements,
  their textual form, their types, the variables they access and the substitution of variables.  Where
  expressions come from (\<open>origin\<close>) is left out: only messages read it.  \<open>NamedAgg\<close>, which only the
  code generator builds, is left out.  The preconditions of a \<open>Call\<close> are part of it; the program never
  sets them.
\<close>

section \<open>Abstract syntax\<close>

datatype int_op = AddOp | SubOp | MulOp | DivOp | PowOp | ModOp

datatype bool_op = AndOp | OrOp

datatype ir_rel = LessRel | LessEqualRel | EqualRel | GreaterEqualRel | GreaterRel | NotEqualRel

datatype attr =
    SizeAttr | LengthAttr | FirstAttr | LastAttr | ValidChecksumAttr | ValidAttr | PresentAttr
  | HasDataAttr | HeadAttr | OpaqueAttr | HasElement

datatype field_attr = FieldValidNext | FieldValid | FieldPresent | FieldSize | SufficientSpace

text \<open>The prefix \<open>Int\<close>, \<open>Bool\<close> or \<open>Obj\<close> of calls, field accesses and case distinctions.\<close>

datatype kind = IntKind | BoolKind | ObjKind

datatype ir_expr =
    IntVar ident ty
  | BoolVar ident
  | ObjVar ident ty
  | EnumLit ident ty
  | IntVal int
  | BoolVal bool
  | Attr attr ident ty
  | FieldAccessAttr field_attr ident ident ty
  | IrNeg ir_expr
  | IrNot ir_expr
  | IntBin int_op ir_expr ir_expr
  | BoolBin bool_op ir_expr ir_expr
  | IrRel ir_rel ir_expr ir_expr
  | IrCall kind ident "ir_expr list" ty "(ir_expr \<times> ir_stmt list) list"
  | FieldAccess kind ident ident ty
  | IrIf "ty option" ir_expr ir_complex ir_complex
  | IrConversion ty ir_expr
  | IntConversion ty ir_expr
  | IrComprehension ident ir_expr ir_complex ir_complex
  | Find ident ir_expr ir_complex ir_complex
  | Agg "ir_expr list"
  | Str string
  | MsgAgg bool ident "(ident \<times> ir_expr) list" ty
  | IrCase ir_expr "(ir_expr list \<times> ir_expr) list" ty
and ir_stmt =
    VarDecl ident ty "ir_complex option"
  | Assign ident ir_expr ty
  | FieldAssign ident ident ir_expr ty
  | Append ident ir_expr ty
  | Extend ident ir_expr ty
  | Reset ident "(ident \<times> ir_expr) list" ty
  | Read ident ir_expr
  | Write ident ir_expr
  | Check ir_expr
and ir_complex = Complex "ir_stmt list" ir_expr

text \<open>
  \<open>IrIf\<close> has a type if it is an \<open>IntIfExpr\<close> and none if it is a \<open>BoolIfExpr\<close>; the flag of \<open>MsgAgg\<close> tells
  a \<open>DeltaMsgAgg\<close>.
\<close>

primrec stmts_of :: "ir_complex \<Rightarrow> ir_stmt list" where
  "stmts_of (Complex ss e) = ss"

primrec expr_of :: "ir_complex \<Rightarrow> ir_expr" where
  "expr_of (Complex ss e) = e"

definition is_expr :: "ir_complex \<Rightarrow> bool" where
  "is_expr c = (stmts_of c = [])"

section \<open>Classes\<close>

fun is_var :: "ir_expr \<Rightarrow> bool" where
  "is_var (IntVar i t) = True"
| "is_var (BoolVar i) = True"
| "is_var (ObjVar i t) = True"
| "is_var _ = False"

fun is_basic :: "ir_expr \<Rightarrow> bool" where
  "is_basic (IntVar i t) = True"
| "is_basic (BoolVar i) = True"
| "is_basic (ObjVar i t) = True"
| "is_basic (EnumLit i t) = True"
| "is_basic (IntVal n) = True"
| "is_basic (BoolVal b) = True"
| "is_basic (IntConversion t e) = True"
| "is_basic _ = False"

fun is_int_expr :: "ir_expr \<Rightarrow> bool" where
  "is_int_expr (IntVar i t) = True"
| "is_int_expr (IntVal n) = True"
| "is_int_expr (Attr a i t) = (a \<in> {SizeAttr, LengthAttr, FirstAttr, LastAttr})"
| "is_int_expr (FieldAccessAttr a m f t) = (a = FieldSize)"
| "is_int_expr (IrNeg e) = True"
| "is_int_expr (IntBin op l r) = True"
| "is_int_expr (IrCall k i es t c) = (k = IntKind)"
| "is_int_expr (FieldAccess k m f t) = (k = IntKind)"
| "is_int_expr (IrIf t c a b) = (t \<noteq> None)"
| "is_int_expr (IntConversion t e) = True"
| "is_int_expr _ = False"

text \<open>\<open>Present\<close> has the type Boolean but is no \<open>BoolExpr\<close>.\<close>

fun is_bool_expr :: "ir_expr \<Rightarrow> bool" where
  "is_bool_expr (BoolVar i) = True"
| "is_bool_expr (BoolVal b) = True"
| "is_bool_expr (Attr a i t) = (a \<in> {ValidChecksumAttr, ValidAttr, HasDataAttr, HasElement})"
| "is_bool_expr (FieldAccessAttr a m f t) = (a \<noteq> FieldSize)"
| "is_bool_expr (IrNot e) = True"
| "is_bool_expr (BoolBin op l r) = True"
| "is_bool_expr (IrRel op l r) = True"
| "is_bool_expr (IrCall k i es t c) = (k = BoolKind)"
| "is_bool_expr (FieldAccess k m f t) = (k = BoolKind)"
| "is_bool_expr (IrIf t c a b) = (t = None)"
| "is_bool_expr _ = False"

definition is_basic_expr :: "ir_complex \<Rightarrow> bool" where
  "is_basic_expr c = (is_expr c \<and> is_basic (expr_of c))"

definition is_basic_int :: "ir_expr \<Rightarrow> bool" where
  "is_basic_int e = (is_basic e \<and> is_int_expr e)"

definition is_basic_bool :: "ir_expr \<Rightarrow> bool" where
  "is_basic_bool e = (is_basic e \<and> is_bool_expr e)"

section \<open>Textual form\<close>

fun int_symbol :: "int_op \<Rightarrow> string" where
  "int_symbol AddOp = '' + ''"
| "int_symbol SubOp = '' - ''"
| "int_symbol MulOp = '' * ''"
| "int_symbol DivOp = '' / ''"
| "int_symbol PowOp = '' ** ''"
| "int_symbol ModOp = '' mod ''"

fun bool_symbol :: "bool_op \<Rightarrow> string" where
  "bool_symbol AndOp = '' and ''"
| "bool_symbol OrOp = '' or ''"

fun rel_symbol :: "ir_rel \<Rightarrow> string" where
  "rel_symbol LessRel = '' < ''"
| "rel_symbol LessEqualRel = '' <= ''"
| "rel_symbol EqualRel = '' = ''"
| "rel_symbol GreaterEqualRel = '' >= ''"
| "rel_symbol GreaterRel = '' > ''"
| "rel_symbol NotEqualRel = '' /= ''"

fun attr_symbol :: "attr \<Rightarrow> string" where
  "attr_symbol SizeAttr = ''Size''"
| "attr_symbol LengthAttr = ''Length''"
| "attr_symbol FirstAttr = ''First''"
| "attr_symbol LastAttr = ''Last''"
| "attr_symbol ValidChecksumAttr = ''Valid_Checksum''"
| "attr_symbol ValidAttr = ''Valid''"
| "attr_symbol PresentAttr = ''Present''"
| "attr_symbol HasDataAttr = ''Has_Data''"
| "attr_symbol HeadAttr = ''Head''"
| "attr_symbol OpaqueAttr = ''Opaque''"
| "attr_symbol HasElement = ''Has_Element''"

fun field_attr_symbol :: "field_attr \<Rightarrow> string" where
  "field_attr_symbol FieldValidNext = ''Valid_Next''"
| "field_attr_symbol FieldValid = ''Valid''"
| "field_attr_symbol FieldPresent = ''Present''"
| "field_attr_symbol FieldSize = ''Size''"
| "field_attr_symbol SufficientSpace = ''Sufficient_Space''"

text \<open>The identifier of a named type.\<close>

fun ty_id :: "ty \<Rightarrow> ident" where
  "ty_id (Enumeration i) = i"
| "ty_id (Integer i b) = i"
| "ty_id (Sequence i t) = i"
| "ty_id (Structure i p f) = i"
| "ty_id (Message i p f) = i"
| "ty_id _ = []"

definition tick :: string where
  "tick = [CHR 0x27]"

definition quote :: string where
  "quote = [CHR 0x22]"

fun ir_str :: "ir_expr \<Rightarrow> string"
  and stmt_str :: "ir_stmt \<Rightarrow> string"
  and complex_str :: "ir_complex \<Rightarrow> string" where
  "ir_str (IntVar i t) = i"
| "ir_str (BoolVar i) = i"
| "ir_str (ObjVar i t) = i"
| "ir_str (EnumLit i t) = i"
| "ir_str (IntVal n) = int_str n"
| "ir_str (BoolVal b) = (if b then ''True'' else ''False'')"
| "ir_str (Attr a i t) = i @ tick @ attr_symbol a"
| "ir_str (FieldAccessAttr a m f t) = m @ ''.'' @ f @ tick @ field_attr_symbol a"
| "ir_str (IrNeg e) = ''-'' @ ir_str e"
| "ir_str (IrNot e) = ''not '' @ ir_str e"
| "ir_str (IntBin op l r) = ir_str l @ int_symbol op @ ir_str r"
| "ir_str (BoolBin op l r) = ir_str l @ bool_symbol op @ ir_str r"
| "ir_str (IrRel op l r) = ir_str l @ rel_symbol op @ ir_str r"
| "ir_str (IrCall k i es t c) = i @ (if es = [] then [] else '' ('' @ join_str '', '' (map ir_str es) @ '')'')"
| "ir_str (FieldAccess k m f t) = m @ ''.'' @ f"
| "ir_str (IrIf t c a b) = ''(if '' @ ir_str c @ '' then '' @ complex_str a @ '' else '' @ complex_str b @ '')''"
| "ir_str (IrConversion t e) = ty_id t @ '' ('' @ ir_str e @ '')''"
| "ir_str (IntConversion t e) = ty_id t @ '' ('' @ ir_str e @ '')''"
| "ir_str (IrComprehension i q s c) =
     ''[for '' @ i @ '' in '' @ ir_str q @ '' if '' @ complex_str c @ '' => '' @ complex_str s @ '']''"
| "ir_str (Find i q s c) =
     ''Find (for '' @ i @ '' in '' @ ir_str q @ '' if '' @ complex_str c @ '' => '' @ complex_str s @ '')''"
| "ir_str (Agg es) = ''['' @ join_str '', '' (map ir_str es) @ '']''"
| "ir_str (Str s) = quote @ s @ quote"
| "ir_str (MsgAgg delta i fs t) =
     (let vs = if fs = [] then ''null message''
               else join_str '' => '' (map (\<lambda>(f, e). f @ '' => '' @ ir_str e) fs) in
      if delta then i @ '' with delta '' @ vs else i @ tick @ ''('' @ vs @ '')'')"
| "ir_str (IrCase e cs t) =
     ''(case '' @ ir_str e @ '' is'' @ [newline_char]
       @ join_str ('','' @ [newline_char])
           (map (\<lambda>(vs, r). ''      when '' @ join_str '' | '' (map ir_str vs) @ '' => '' @ ir_str r) cs) @ '')''"
| "stmt_str (VarDecl i t c) =
     ''Var '' @ i @ '' : '' @ ty_id t @ (case c of None \<Rightarrow> [] | Some x \<Rightarrow> '' = '' @ complex_str x)"
| "stmt_str (Assign i e t) = i @ '' := '' @ ir_str e"
| "stmt_str (FieldAssign m f e t) = m @ ''.'' @ f @ '' := '' @ ir_str e"
| "stmt_str (Append s e t) = s @ tick @ ''Append ('' @ ir_str e @ '')''"
| "stmt_str (Extend s e t) = s @ tick @ ''Extend ('' @ ir_str e @ '')''"
| "stmt_str (Reset i ps t) =
     i @ tick @ ''Reset''
     @ (if ps = [] then []
        else '' ('' @ join_str '' => '' (map (\<lambda>(f, e). f @ '' => '' @ ir_str e) ps) @ '')'')"
| "stmt_str (Read c e) = c @ tick @ ''Read ('' @ ir_str e @ '')''"
| "stmt_str (Write c e) = c @ tick @ ''Write ('' @ ir_str e @ '')''"
| "stmt_str (Check e) = ''Check '' @ ir_str e"
| "complex_str (Complex ss e) = ''{'' @ concat (map (\<lambda>s. stmt_str s @ ''; '') ss) @ ir_str e @ ''}''"

section \<open>Accessed variables\<close>

fun accessed_vars :: "ir_expr \<Rightarrow> ident list"
  and stmt_accessed_vars :: "ir_stmt \<Rightarrow> ident list"
  and complex_accessed_vars :: "ir_complex \<Rightarrow> ident list" where
  "accessed_vars (IntVar i t) = [i]"
| "accessed_vars (BoolVar i) = [i]"
| "accessed_vars (ObjVar i t) = [i]"
| "accessed_vars (EnumLit i t) = []"
| "accessed_vars (IntVal n) = []"
| "accessed_vars (BoolVal b) = []"
| "accessed_vars (Attr a i t) = [i]"
| "accessed_vars (FieldAccessAttr a m f t) = [m]"
| "accessed_vars (IrNeg e) = accessed_vars e"
| "accessed_vars (IrNot e) = accessed_vars e"
| "accessed_vars (IntBin op l r) = accessed_vars l @ accessed_vars r"
| "accessed_vars (BoolBin op l r) = accessed_vars l @ accessed_vars r"
| "accessed_vars (IrRel op l r) = accessed_vars l @ accessed_vars r"
| "accessed_vars (IrCall k i es t c) = concat (map accessed_vars es)"
| "accessed_vars (FieldAccess k m f t) = [m]"
| "accessed_vars (IrIf t c a b) = accessed_vars c @ complex_accessed_vars a @ complex_accessed_vars b"
| "accessed_vars (IrConversion t e) = accessed_vars e"
| "accessed_vars (IntConversion t e) = accessed_vars e"
| "accessed_vars (IrComprehension i q s c) = accessed_vars q @ complex_accessed_vars s @ complex_accessed_vars c"
| "accessed_vars (Find i q s c) = accessed_vars q @ complex_accessed_vars s @ complex_accessed_vars c"
| "accessed_vars (Agg es) = concat (map accessed_vars es)"
| "accessed_vars (Str s) = []"
| "accessed_vars (MsgAgg delta i fs t) = concat (map (\<lambda>(f, e). accessed_vars e) fs)"
| "accessed_vars (IrCase e cs t) = accessed_vars e @ concat (map (\<lambda>(vs, r). accessed_vars r) cs)"
| "stmt_accessed_vars (VarDecl i t c) = []"
| "stmt_accessed_vars (Assign i e t) = accessed_vars e"
| "stmt_accessed_vars (FieldAssign m f e t) = m # accessed_vars e"
| "stmt_accessed_vars (Append s e t) = s # accessed_vars e"
| "stmt_accessed_vars (Extend s e t) = s # accessed_vars e"
| "stmt_accessed_vars (Reset i ps t) = i # concat (map (\<lambda>(f, e). accessed_vars e) ps)"
| "stmt_accessed_vars (Read c e) = accessed_vars e"
| "stmt_accessed_vars (Write c e) = accessed_vars e"
| "stmt_accessed_vars (Check e) = accessed_vars e"
| "complex_accessed_vars (Complex ss e) = concat (map stmt_accessed_vars ss) @ accessed_vars e"

section \<open>Substitution of variables\<close>

text \<open>\<open>mapping.get(i, i)\<close>; the keys are identifiers, which are compared ignoring case.\<close>

definition renamed :: "(ident \<times> ident) list \<Rightarrow> ident \<Rightarrow> ident" where
  "renamed m i = (case id_lookup m i of None \<Rightarrow> i | Some j \<Rightarrow> j)"

text \<open>\<open>VarDecl\<close> does not define the substitution: the inherited method raises.\<close>

fun ir_substituted :: "(ident \<times> ident) list \<Rightarrow> ir_expr \<Rightarrow> ir_expr res"
  and stmt_substituted :: "(ident \<times> ident) list \<Rightarrow> ir_stmt \<Rightarrow> ir_stmt res"
  and complex_substituted :: "(ident \<times> ident) list \<Rightarrow> ir_complex \<Rightarrow> ir_complex res" where
  "ir_substituted m (IntVar i t) = Inr (IntVar (renamed m i) t)"
| "ir_substituted m (BoolVar i) = Inr (BoolVar (renamed m i))"
| "ir_substituted m (ObjVar i t) = Inr (ObjVar (renamed m i) t)"
| "ir_substituted m (EnumLit i t) = Inr (EnumLit i t)"
| "ir_substituted m (IntVal n) = Inr (IntVal n)"
| "ir_substituted m (BoolVal b) = Inr (BoolVal b)"
| "ir_substituted m (Attr a i t) = Inr (Attr a (renamed m i) t)"
| "ir_substituted m (FieldAccessAttr a x f t) = Inr (FieldAccessAttr a (renamed m x) f t)"
| "ir_substituted m (IrNeg e) = bind_res (ir_substituted m e) (\<lambda>e. Inr (IrNeg e))"
| "ir_substituted m (IrNot e) = bind_res (ir_substituted m e) (\<lambda>e. Inr (IrNot e))"
| "ir_substituted m (IntBin op l r) =
     bind_res (ir_substituted m l) (\<lambda>l. bind_res (ir_substituted m r) (\<lambda>r. Inr (IntBin op l r)))"
| "ir_substituted m (BoolBin op l r) =
     bind_res (ir_substituted m l) (\<lambda>l. bind_res (ir_substituted m r) (\<lambda>r. Inr (BoolBin op l r)))"
| "ir_substituted m (IrRel op l r) =
     bind_res (ir_substituted m l) (\<lambda>l. bind_res (ir_substituted m r) (\<lambda>r. Inr (IrRel op l r)))"
| "ir_substituted m (IrCall k i es t c) =
     bind_res (map_res (ir_substituted m) es) (\<lambda>es. Inr (IrCall k i es t []))"
| "ir_substituted m (FieldAccess k x f t) = Inr (FieldAccess k (renamed m x) f t)"
| "ir_substituted m (IrIf t c a b) =
     bind_res (ir_substituted m c) (\<lambda>c.
       bind_res (complex_substituted m a) (\<lambda>a.
         bind_res (complex_substituted m b) (\<lambda>b. Inr (IrIf t c a b))))"
| "ir_substituted m (IrConversion t e) = bind_res (ir_substituted m e) (\<lambda>e. Inr (IrConversion t e))"
| "ir_substituted m (IntConversion t e) = bind_res (ir_substituted m e) (\<lambda>e. Inr (IntConversion t e))"
| "ir_substituted m (IrComprehension i q s c) =
     bind_res (ir_substituted m q) (\<lambda>q.
       bind_res (complex_substituted m s) (\<lambda>s.
         bind_res (complex_substituted m c) (\<lambda>c. Inr (IrComprehension (renamed m i) q s c))))"
| "ir_substituted m (Find i q s c) =
     bind_res (ir_substituted m q) (\<lambda>q.
       bind_res (complex_substituted m s) (\<lambda>s.
         bind_res (complex_substituted m c) (\<lambda>c. Inr (Find (renamed m i) q s c))))"
| "ir_substituted m (Agg es) = bind_res (map_res (ir_substituted m) es) (\<lambda>es. Inr (Agg es))"
| "ir_substituted m (Str s) = Inr (Str s)"
| "ir_substituted m (MsgAgg delta i fs t) =
     bind_res (map_res (\<lambda>(f, e). bind_res (ir_substituted m e) (\<lambda>e. Inr (f, e))) fs) (\<lambda>fs.
       Inr (MsgAgg delta i fs t))"
| "ir_substituted m (IrCase e cs t) =
     bind_res (ir_substituted m e) (\<lambda>e.
       bind_res
         (map_res (\<lambda>(vs, r).
            bind_res (map_res (ir_substituted m) vs) (\<lambda>vs.
              bind_res (ir_substituted m r) (\<lambda>r. Inr (vs, r)))) cs) (\<lambda>cs.
         Inr (IrCase e cs t)))"
| "stmt_substituted m (VarDecl i t c) = Inl NotImplementedError"
| "stmt_substituted m (Assign i e t) =
     bind_res (ir_substituted m e) (\<lambda>e. Inr (Assign (renamed m i) e t))"
| "stmt_substituted m (FieldAssign x f e t) =
     bind_res (ir_substituted m e) (\<lambda>e. Inr (FieldAssign (renamed m x) f e t))"
| "stmt_substituted m (Append s e t) =
     bind_res (ir_substituted m e) (\<lambda>e. Inr (Append (renamed m s) e t))"
| "stmt_substituted m (Extend s e t) =
     bind_res (ir_substituted m e) (\<lambda>e. Inr (Extend (renamed m s) e t))"
| "stmt_substituted m (Reset i ps t) =
     bind_res (map_res (\<lambda>(f, e). bind_res (ir_substituted m e) (\<lambda>e. Inr (f, e))) ps) (\<lambda>ps.
       Inr (Reset (renamed m i) ps t))"
| "stmt_substituted m (Read c e) = bind_res (ir_substituted m e) (\<lambda>e. Inr (Read c e))"
| "stmt_substituted m (Write c e) = bind_res (ir_substituted m e) (\<lambda>e. Inr (Write c e))"
| "stmt_substituted m (Check e) = bind_res (ir_substituted m e) (\<lambda>e. Inr (Check e))"
| "complex_substituted m (Complex ss e) =
     bind_res (map_res (stmt_substituted m) ss) (\<lambda>ss.
       bind_res (ir_substituted m e) (\<lambda>e. Inr (Complex ss e)))"

end
