(* ===== verification/Tac_Checks.thy ===== *)
theory Tac_Checks
  imports Tac
begin

text \<open>
  Preparation of three-address code for code generation (\<open>rflx/ir.py\<close>): types of expressions,
  preconditions of statements and expressions, conversions between integer types (\<open>add_conversions\<close>)
  and the insertion of runtime checks (\<open>add_checks\<close>, \<open>add_required_checks\<close>).
\<close>

section \<open>Generation of variables\<close>

text \<open>
  \<open>id_generator\<close> (\<open>rflx/identifier.py\<close>): the state of the generator is the number of variables it has
  produced.
\<close>

type_synonym 'a gen = "nat \<Rightarrow> ('a \<times> nat) res"

definition fresh :: "nat \<Rightarrow> ident" where
  "fresh n = ''T_'' @ int_str (int n)"

definition bind_gen :: "'a gen \<Rightarrow> ('a \<Rightarrow> 'b gen) \<Rightarrow> 'b gen" where
  "bind_gen m f = (\<lambda>n. bind_res (m n) (\<lambda>(x, n'). f x n'))"

definition return_gen :: "'a \<Rightarrow> 'a gen" where
  "return_gen x = (\<lambda>n. Inr (x, n))"

definition lift_gen :: "'a res \<Rightarrow> 'a gen" where
  "lift_gen m = (\<lambda>n. bind_res m (\<lambda>x. Inr (x, n)))"

definition next_id :: "ident gen" where
  "next_id = (\<lambda>n. Inr (fresh n, Suc n))"

primrec concat_gen :: "('a \<Rightarrow> 'b list gen) \<Rightarrow> 'a list \<Rightarrow> 'b list gen" where
  "concat_gen f [] = return_gen []"
| "concat_gen f (x # xs) =
     bind_gen (f x) (\<lambda>ys. bind_gen (concat_gen f xs) (\<lambda>zs. return_gen (ys @ zs)))"

lemma concat_gen_cong [fundef_cong]:
  "xs = ys \<Longrightarrow> (\<And>x. x \<in> set ys \<Longrightarrow> f x = g x) \<Longrightarrow> concat_gen f xs = concat_gen g ys"
  by (induction xs arbitrary: ys) auto

lemma bind_gen_Inr:
  "bind_gen m f n = Inr (y, n') \<longleftrightarrow> (\<exists>x k. m n = Inr (x, k) \<and> f x k = Inr (y, n'))"
  by (auto simp: bind_gen_def bind_res_eq_Inr)

lemma return_gen_Inr [simp]: "return_gen x n = Inr (y, n') \<longleftrightarrow> y = x \<and> n' = n"
  by (auto simp: return_gen_def)

lemma next_id_Inr [simp]: "next_id n = Inr (y, n') \<longleftrightarrow> y = fresh n \<and> n' = Suc n"
  by (auto simp: next_id_def)

lemma lift_gen_Inr [simp]: "lift_gen m n = Inr (y, n') \<longleftrightarrow> m = Inr y \<and> n' = n"
  by (auto simp: lift_gen_def bind_res_eq_Inr)

section \<open>Types of expressions\<close>

definition key_res :: "(ident \<times> 'a) list \<Rightarrow> ident \<Rightarrow> 'a res" where
  "key_res d i = (case id_lookup d i of None \<Rightarrow> Inl (KeyError i) | Some v \<Rightarrow> Inr v)"

fun element_type :: "ty \<Rightarrow> ty res" where
  "element_type (Sequence i t) = assert_res (t \<noteq> Undefined) (Inr t)"
| "element_type (Aggregate t) = assert_res (t \<noteq> Undefined) (Inr t)"
| "element_type _ = Inl TypeError"

definition attr_type :: "attr \<Rightarrow> ty \<Rightarrow> ty res" where
  "attr_type a t =
     (case a of
        SizeAttr \<Rightarrow> Inr (if is_composite t \<or> is_compound t then BIT_LENGTH else UNIVERSAL_INTEGER)
      | LengthAttr \<Rightarrow> Inr UNIVERSAL_INTEGER
      | FirstAttr \<Rightarrow> Inr UNIVERSAL_INTEGER
      | LastAttr \<Rightarrow> Inr UNIVERSAL_INTEGER
      | HeadAttr \<Rightarrow> element_type t
      | OpaqueAttr \<Rightarrow> Inr OPAQUE
      | _ \<Rightarrow> Inr BOOLEAN)"

definition field_access_type :: "kind \<Rightarrow> ty \<Rightarrow> ident \<Rightarrow> ty res" where
  "field_access_type k t f =
     (case k of
        IntKind \<Rightarrow> bind_res (key_res (all_types t) f) (\<lambda>u. assert_res (is_any_integer u) (Inr u))
      | BoolKind \<Rightarrow> Inr BOOLEAN
      | ObjKind \<Rightarrow> bind_res (key_res (field_types t) f) (\<lambda>u. assert_res (u \<noteq> Undefined) (Inr u)))"

fun ir_type :: "ir_expr \<Rightarrow> ty res" where
  "ir_type (IntVar i t) = Inr t"
| "ir_type (BoolVar i) = Inr BOOLEAN"
| "ir_type (ObjVar i t) = Inr t"
| "ir_type (EnumLit i t) = Inr t"
| "ir_type (IntVal n) = Inr (UniversalInteger (n, n))"
| "ir_type (BoolVal b) = Inr BOOLEAN"
| "ir_type (Attr a i t) = attr_type a t"
| "ir_type (FieldAccessAttr a m f t) = Inr (if a = FieldSize then BIT_LENGTH else BOOLEAN)"
| "ir_type (IrNeg e) = ir_type e"
| "ir_type (IrNot e) = Inr BOOLEAN"
| "ir_type (IntBin op l r) =
     bind_res (ir_type l) (\<lambda>s. bind_res (ir_type r) (\<lambda>t.
       let u = common_type s t in assert_res (is_any_integer u) (Inr u)))"
| "ir_type (BoolBin op l r) = Inr BOOLEAN"
| "ir_type (IrRel op l r) = Inr BOOLEAN"
| "ir_type (IrCall k i es t c) = Inr (if k = BoolKind then BOOLEAN else t)"
| "ir_type (FieldAccess k m f t) = field_access_type k t f"
| "ir_type (IrIf t c a b) = Inr (case t of None \<Rightarrow> BOOLEAN | Some u \<Rightarrow> u)"
| "ir_type (IrConversion t e) = Inr t"
| "ir_type (IntConversion t e) = Inr t"
| "ir_type (IrComprehension i q s c) =
     (case s of Complex ss e \<Rightarrow> bind_res (ir_type e) (\<lambda>t. Inr (Aggregate t)))"
| "ir_type (Find i q s c) = (case s of Complex ss e \<Rightarrow> ir_type e)"
| "ir_type (Agg es) = bind_res (map_res ir_type es) (\<lambda>ts. Inr (Aggregate (common_types ts)))"
| "ir_type (Str s) = Inr OPAQUE"
| "ir_type (MsgAgg delta i fs t) = Inr t"
| "ir_type (IrCase e cs t) = Inr t"

section \<open>Preconditions\<close>

text \<open>A condition (\<open>Cond\<close>): the goal and the statements that establish the facts it needs.\<close>

type_synonym ir_cond = "ir_expr \<times> ir_stmt list"

definition int_max :: int where
  "int_max = 2 ^ max_scalar_size - 1"

definition upper_bound :: "ty \<Rightarrow> int" where
  "upper_bound t = (case bounds_of t of Some b \<Rightarrow> snd b | None \<Rightarrow> int_max)"

text \<open>The right operand of an addition, converted for the subtraction in the fact.\<close>

definition to_base_integer :: "ir_expr \<Rightarrow> ir_expr res" where
  "to_base_integer e =
     bind_res (ir_type e) (\<lambda>t.
       Inr (if \<not> ty_eq t BASE_INTEGER \<and> (is_any_integer t \<longrightarrow> is_integer t) then IntConversion BASE_INTEGER e else e))"

definition int_facts :: "ident \<Rightarrow> ir_expr \<Rightarrow> ir_stmt list" where
  "int_facts v e = [VarDecl v BASE_INTEGER None, Assign v e BASE_INTEGER]"

text \<open>The condition of the operation itself, without those of its operands.\<close>

definition op_condition :: "int_op \<Rightarrow> ir_expr \<Rightarrow> ir_expr \<Rightarrow> ty \<Rightarrow> ident \<Rightarrow> ir_cond res" where
  "op_condition op l r t v =
     (case op of
        AddOp \<Rightarrow>
          bind_res (to_base_integer r) (\<lambda>r'.
            Inr (IrRel LessEqualRel l (IntVar v BASE_INTEGER),
                 int_facts v (IntBin SubOp (IntVal (upper_bound t)) r')))
      | SubOp \<Rightarrow> Inr (IrRel GreaterEqualRel l r, [])
      | MulOp \<Rightarrow>
          Inr (IrRel LessEqualRel l (IntVar v BASE_INTEGER),
               int_facts v (IntBin DivOp (IntVal (upper_bound t)) r))
      | DivOp \<Rightarrow> Inr (IrRel NotEqualRel r (IntVal 0), [])
      | PowOp \<Rightarrow>
          bind_res (ir_type (IntBin PowOp l r)) (\<lambda>u.
            Inr (IrRel LessEqualRel (IntVar v u) (IntVal (upper_bound t)),
                 int_facts v (IntBin PowOp l r)))
      | ModOp \<Rightarrow> Inr (IrRel NotEqualRel r (IntVal 0), []))"

definition uses_variable :: "int_op \<Rightarrow> bool" where
  "uses_variable op = (op = AddOp \<or> op = MulOp \<or> op = PowOp)"

definition conversion_conditions :: "ty \<Rightarrow> ir_expr \<Rightarrow> ir_cond list res" where
  "conversion_conditions t e =
     bind_res (ir_type e) (\<lambda>u. Inr
       [(IrRel LessEqualRel (IntConversion BASE_INTEGER (Attr FirstAttr (ty_id t) u)) (IntConversion BASE_INTEGER e), []),
        (IrRel LessEqualRel (IntConversion BASE_INTEGER e) (IntConversion BASE_INTEGER (Attr LastAttr (ty_id t) u)), [])])"

text \<open>
  The target type is that of an assignment.  Where \<open>target_type\<close> is not given, or is falsy, the type of
  the operation is used.  Expressions that do not define preconditions inherit the empty list.
\<close>

fun preconditions :: "ir_expr \<Rightarrow> ty option \<Rightarrow> ir_cond list gen" where
  "preconditions (IntBin op l r) target =
     (if uses_variable op then
        bind_gen (lift_gen (case target of Some t \<Rightarrow> Inr t | None \<Rightarrow> ir_type (IntBin op l r))) (\<lambda>t.
          bind_gen next_id (\<lambda>v.
            bind_gen (preconditions l None) (\<lambda>cl.
              bind_gen (preconditions r None) (\<lambda>cr.
                bind_gen (lift_gen (op_condition op l r t v)) (\<lambda>c.
                  return_gen (cl @ cr @ [c]))))))
      else
        bind_gen (preconditions l None) (\<lambda>cl.
          bind_gen (preconditions r None) (\<lambda>cr.
            bind_gen (lift_gen (op_condition op l r Any [])) (\<lambda>c.
              return_gen (cl @ cr @ [c])))))"
| "preconditions (IntConversion t e) target =
     bind_gen (preconditions e None) (\<lambda>ce.
       bind_gen (lift_gen (conversion_conditions t e)) (\<lambda>cs. return_gen (ce @ cs)))"
| "preconditions (IrConversion t e) target = preconditions e None"
| "preconditions (Attr a i t) target =
     return_gen (if a = OpaqueAttr then [(Attr ValidAttr i t, [])] else [])"
| "preconditions (FieldAccessAttr a m f t) target =
     return_gen (if a = FieldSize \<and> is_message t then [(FieldAccessAttr FieldValidNext m f t, [])] else [])"
| "preconditions (FieldAccess k m f t) target =
     return_gen (if is_message t \<and> id_lookup (field_types t) f \<noteq> None
                 then [(FieldAccessAttr FieldValid m f t, [])] else [])"
| "preconditions (IrCall k i es t cs) target =
     bind_gen (concat_gen (\<lambda>e. preconditions e None) es) (\<lambda>ce. return_gen (ce @ cs))"
| "preconditions (IrComprehension i q s c) target = preconditions q None"
| "preconditions (Find i q s c) target = preconditions q None"
| "preconditions (MsgAgg delta i fs t) target = concat_gen (\<lambda>(f, e). preconditions e None) fs"
| "preconditions _ target = return_gen []"

fun stmt_preconditions :: "ir_stmt \<Rightarrow> ir_cond list gen" where
  "stmt_preconditions (VarDecl i t c) = return_gen []"
| "stmt_preconditions (Assign i e t) = preconditions e (case e of IntBin _ _ _ \<Rightarrow> Some t | _ \<Rightarrow> None)"
| "stmt_preconditions (FieldAssign m f e t) =
     bind_gen (preconditions e None) (\<lambda>cs.
       return_gen ([(FieldAccessAttr FieldValidNext m f t, []), (FieldAccessAttr SufficientSpace m f t, [])] @ cs))"
| "stmt_preconditions (Append s e t) =
     bind_gen (preconditions e None) (\<lambda>cs. return_gen ([(Attr ValidAttr s t, []), (Attr HasElement s t, [])] @ cs))"
| "stmt_preconditions (Extend s e t) =
     bind_gen (preconditions e None) (\<lambda>cs. return_gen ((Attr ValidAttr s t, []) # cs))"
| "stmt_preconditions (Reset i ps t) = concat_gen (\<lambda>(f, e). preconditions e None) ps"
| "stmt_preconditions (Read c e) = preconditions e None"
| "stmt_preconditions (Write c e) = preconditions e None"
| "stmt_preconditions (Check e) = preconditions e None"

section \<open>Conversions\<close>

text \<open>\<open>target_type.is_compatible_strong (e.type_)\<close>.\<close>

definition fits :: "ty \<Rightarrow> ir_expr \<Rightarrow> bool res" where
  "fits t e = bind_res (ir_type e) (\<lambda>u. Inr (is_compatible_strong t u))"

definition convert_operand :: "ty \<Rightarrow> ir_expr \<Rightarrow> ir_expr res" where
  "convert_operand t e = bind_res (fits t e) (\<lambda>ok. Inr (if ok then e else IntConversion t e))"

text \<open>An expression whose type is compatible, or any expression if the target is no integer type.\<close>

definition convert_unless :: "bool \<Rightarrow> ty \<Rightarrow> ir_expr \<Rightarrow> ir_expr res \<Rightarrow> ir_expr res" where
  "convert_unless keep t e m = bind_res (fits t e) (\<lambda>ok. if ok \<or> keep then Inr e else m)"

fun convert_expression :: "ir_expr \<Rightarrow> ty \<Rightarrow> ir_expr res" where
  "convert_expression (IntBin op l r) t =
     assert_res (is_integer t)
       (bind_res (convert_operand t l) (\<lambda>l'. bind_res (convert_operand t r) (\<lambda>r'. Inr (IntBin op l' r'))))"
| "convert_expression (IrCase e cs u) t =
     convert_unless (\<not> is_integer t) t (IrCase e cs u)
       (bind_res (map_res (\<lambda>(vs, r). assert_res (is_int_expr r) (bind_res (convert_operand t r) (\<lambda>r'. Inr (vs, r')))) cs)
         (\<lambda>cs'. Inr (IrCase e cs' t)))"
| "convert_expression (MsgAgg delta i fs u) t =
     bind_res
       (map_res (\<lambda>(f, e). bind_res (key_res (all_types u) f) (\<lambda>ft. bind_res (convert_expression e ft) (\<lambda>e'. Inr (f, e')))) fs)
       (\<lambda>fs'. Inr (MsgAgg delta i fs' u))"
| "convert_expression e t =
     (if is_int_expr e
      then convert_unless (\<not> is_integer t) t e (Inr (IntConversion t e))
      else convert_unless (\<not> is_integer t \<and> \<not> is_enumeration t) t e (Inl AssertionError))"

fun convert_stmt :: "ir_stmt \<Rightarrow> ir_stmt res" where
  "convert_stmt (Assign i e t) = bind_res (convert_expression e t) (\<lambda>e'. Inr (Assign i e' t))"
| "convert_stmt (FieldAssign m f e t) =
     bind_res (key_res (field_types t) f) (\<lambda>ft.
       bind_res (convert_expression e ft) (\<lambda>e'. Inr (FieldAssign m f e' t)))"
| "convert_stmt (Append s e t) = bind_res (convert_expression e t) (\<lambda>e'. Inr (Append s e' t))"
| "convert_stmt s = Inr s"

definition add_conversions :: "ir_stmt list \<Rightarrow> ir_stmt list res" where
  "add_conversions ss = map_res convert_stmt ss"

section \<open>Checks\<close>

definition check_stmts :: "ir_cond list \<Rightarrow> ir_stmt list" where
  "check_stmts cs = concat (map (\<lambda>(goal, facts). facts @ [Check goal]) cs)"

text \<open>The statements of a selector or condition: all their checks come before all of them.\<close>

definition checked_complex :: "ir_complex \<Rightarrow> ir_complex gen" where
  "checked_complex c =
     bind_gen (concat_gen stmt_preconditions (stmts_of c)) (\<lambda>cs.
       bind_gen (preconditions (expr_of c) None) (\<lambda>ce.
         return_gen (Complex (check_stmts cs @ stmts_of c @ check_stmts ce) (expr_of c))))"

fun check_nested :: "ir_stmt \<Rightarrow> ir_stmt gen" where
  "check_nested (Assign i (IrComprehension v q s c) t) =
     bind_gen (checked_complex s) (\<lambda>s'. bind_gen (checked_complex c) (\<lambda>c'.
       return_gen (Assign i (IrComprehension v q s' c') t)))"
| "check_nested (Assign i (Find v q s c) t) =
     bind_gen (checked_complex s) (\<lambda>s'. bind_gen (checked_complex c) (\<lambda>c'.
       return_gen (Assign i (Find v q s' c') t)))"
| "check_nested s = return_gen s"

definition add_checks :: "ir_stmt list \<Rightarrow> ir_stmt list gen" where
  "add_checks ss =
     concat_gen (\<lambda>s.
       bind_gen (stmt_preconditions s) (\<lambda>cs.
         bind_gen (check_nested s) (\<lambda>s'. return_gen (check_stmts cs @ [s'])))) ss"

definition add_required_checks :: "ir_stmt list \<Rightarrow> ir_stmt list gen" where
  "add_required_checks ss = bind_gen (lift_gen (add_conversions ss)) add_checks"

text \<open>A transition condition gets its checks through a dummy assignment that is dropped again.\<close>

definition transition_checks :: "ir_complex \<Rightarrow> ir_complex gen" where
  "transition_checks c =
     bind_gen (add_required_checks (stmts_of c @ [Assign ''RFLX_Transition_Condition'' (expr_of c) BOOLEAN]))
       (\<lambda>ss. return_gen (Complex (butlast ss) (expr_of c)))"

end
