(* ===== verification/Tac_Semantics.thy ===== *)
theory Tac_Semantics
  imports Tac_Checks
begin

text \<open>
  The meaning of three-address code on integers and truth values, and what the inserted checks
  guarantee.  A run continues, ends with a failed check, on which the generated code leaves the state
  through its exception transition, or faults, where the generated code would violate a constraint or
  divide by zero.
\<close>

section \<open>Evaluation\<close>

text \<open>
  Variables, attributes and fields are read by their textual form, as in the conditions handed to the
  prover (\<open>to_z3_expr\<close>).
\<close>

record env =
  ints :: "string \<Rightarrow> int"
  bools :: "string \<Rightarrow> bool"

definition in_bounds :: "ty \<Rightarrow> int \<Rightarrow> bool" where
  "in_bounds t n = (case bounds_of t of None \<Rightarrow> True | Some b \<Rightarrow> contains_int b n)"

definition int_op_value :: "int_op \<Rightarrow> int \<Rightarrow> int \<Rightarrow> int option" where
  "int_op_value op a b =
     (case op of
        AddOp \<Rightarrow> Some (a + b)
      | SubOp \<Rightarrow> Some (a - b)
      | MulOp \<Rightarrow> Some (a * b)
      | DivOp \<Rightarrow> if b = 0 then None else Some (a div b)
      | PowOp \<Rightarrow> if b < 0 then None else Some (a ^ nat b)
      | ModOp \<Rightarrow> if b = 0 then None else Some (a mod b))"

definition rel_value :: "ir_rel \<Rightarrow> int \<Rightarrow> int \<Rightarrow> bool" where
  "rel_value op a b =
     (case op of
        LessRel \<Rightarrow> a < b
      | LessEqualRel \<Rightarrow> a \<le> b
      | EqualRel \<Rightarrow> a = b
      | GreaterEqualRel \<Rightarrow> a \<ge> b
      | GreaterRel \<Rightarrow> a > b
      | NotEqualRel \<Rightarrow> a \<noteq> b)"

fun int_val :: "env \<Rightarrow> ir_expr \<Rightarrow> int option" where
  "int_val \<sigma> (IntVar i t) = Some (ints \<sigma> i)"
| "int_val \<sigma> (IntVal n) = Some n"
| "int_val \<sigma> (IrNeg e) = map_option uminus (int_val \<sigma> e)"
| "int_val \<sigma> (IntBin op l r) =
     (case (int_val \<sigma> l, int_val \<sigma> r) of (Some a, Some b) \<Rightarrow> int_op_value op a b | _ \<Rightarrow> None)"
| "int_val \<sigma> (IntConversion t e) =
     (case int_val \<sigma> e of Some n \<Rightarrow> if in_bounds t n then Some n else None | None \<Rightarrow> None)"
| "int_val \<sigma> e = (if is_int_expr e then Some (ints \<sigma> (ir_str e)) else None)"

fun bool_val :: "env \<Rightarrow> ir_expr \<Rightarrow> bool option" where
  "bool_val \<sigma> (BoolVar i) = Some (bools \<sigma> i)"
| "bool_val \<sigma> (BoolVal b) = Some b"
| "bool_val \<sigma> (IrNot e) = map_option Not (bool_val \<sigma> e)"
| "bool_val \<sigma> (BoolBin op l r) =
     (case (bool_val \<sigma> l, bool_val \<sigma> r) of
        (Some a, Some b) \<Rightarrow> Some (case op of AndOp \<Rightarrow> a \<and> b | OrOp \<Rightarrow> a \<or> b)
      | _ \<Rightarrow> None)"
| "bool_val \<sigma> (IrRel op l r) =
     (if is_int_expr l \<and> is_int_expr r then
        (case (int_val \<sigma> l, int_val \<sigma> r) of (Some a, Some b) \<Rightarrow> Some (rel_value op a b) | _ \<Rightarrow> None)
      else
        (case (bool_val \<sigma> l, bool_val \<sigma> r) of
           (Some a, Some b) \<Rightarrow>
             (case op of EqualRel \<Rightarrow> Some (a = b) | NotEqualRel \<Rightarrow> Some (a \<noteq> b) | _ \<Rightarrow> None)
         | _ \<Rightarrow> None))"
| "bool_val \<sigma> e = (if is_bool_expr e then Some (bools \<sigma> (ir_str e)) else None)"

section \<open>Execution\<close>

datatype outcome = Continue env | CheckFailed ir_expr | Fault

definition set_int :: "ident \<Rightarrow> int \<Rightarrow> env \<Rightarrow> env" where
  "set_int i n \<sigma> = \<sigma>\<lparr>ints := (ints \<sigma>)(i := n)\<rparr>"

definition set_bool :: "ident \<Rightarrow> bool \<Rightarrow> env \<Rightarrow> env" where
  "set_bool i b \<sigma> = \<sigma>\<lparr>bools := (bools \<sigma>)(i := b)\<rparr>"

text \<open>Statements on messages and sequences change neither integer nor truth value variables.\<close>

fun exec :: "ir_stmt \<Rightarrow> env \<Rightarrow> outcome" where
  "exec (Assign i e t) \<sigma> =
     (if is_int_expr e then
        (case int_val \<sigma> e of
           Some n \<Rightarrow> if in_bounds t n then Continue (set_int i n \<sigma>) else Fault
         | None \<Rightarrow> Fault)
      else if is_bool_expr e then
        (case bool_val \<sigma> e of Some b \<Rightarrow> Continue (set_bool i b \<sigma>) | None \<Rightarrow> Fault)
      else Continue \<sigma>)"
| "exec (Check e) \<sigma> =
     (case bool_val \<sigma> e of Some b \<Rightarrow> if b then Continue \<sigma> else CheckFailed e | None \<Rightarrow> Fault)"
| "exec s \<sigma> = Continue \<sigma>"

fun run :: "ir_stmt list \<Rightarrow> env \<Rightarrow> outcome" where
  "run [] \<sigma> = Continue \<sigma>"
| "run (s # ss) \<sigma> = (case exec s \<sigma> of Continue \<sigma>' \<Rightarrow> run ss \<sigma>' | r \<Rightarrow> r)"

lemma run_append:
  "run (xs @ ys) \<sigma> = (case run xs \<sigma> of Continue \<sigma>' \<Rightarrow> run ys \<sigma>' | r \<Rightarrow> r)"
  by (induction xs arbitrary: \<sigma>) (auto split: outcome.splits)

definition continues :: "outcome \<Rightarrow> bool" where
  "continues r = (case r of Continue \<sigma> \<Rightarrow> True | _ \<Rightarrow> False)"

lemma continues_simps [simp]:
  "continues (Continue \<sigma>)" "\<not> continues (CheckFailed e)" "\<not> continues Fault"
  by (simp_all add: continues_def)

lemma continues_run_append:
  "continues (run (xs @ ys) \<sigma>) \<longleftrightarrow> (\<exists>\<sigma>'. run xs \<sigma> = Continue \<sigma>' \<and> continues (run ys \<sigma>'))"
  by (auto simp: run_append continues_def split: outcome.splits)

section \<open>Checks decide whether an operation is safe\<close>

text \<open>An operand as \<open>add_conversions\<close> leaves it: a variable or number, or the conversion of one.\<close>

fun plain :: "ir_expr \<Rightarrow> bool" where
  "plain (IntVar i t) = True"
| "plain (IntVal n) = (0 \<le> n \<and> n \<le> int_max)"
| "plain _ = False"

fun operand :: "ir_expr \<Rightarrow> bool" where
  "operand (IntConversion (Integer i b) e) = plain e"
| "operand e = plain e"

text \<open>
  The values of variables are those of the base integer type, the attributes of the type of a conversion
  have the values of its bounds.
\<close>

definition machine_env :: "env \<Rightarrow> bool" where
  "machine_env \<sigma> = (\<forall>i. 0 \<le> ints \<sigma> i \<and> ints \<sigma> i \<le> int_max)"

fun declares :: "env \<Rightarrow> ir_expr \<Rightarrow> bool" where
  "declares \<sigma> (IntConversion (Integer i b) e) =
     (ints \<sigma> (i @ tick @ ''First'') = fst b \<and> ints \<sigma> (i @ tick @ ''Last'') = snd b)"
| "declares \<sigma> e = True"

definition safe_op :: "int_op \<Rightarrow> int \<Rightarrow> int \<Rightarrow> int \<Rightarrow> bool" where
  "safe_op op a b ub =
     (case op of
        AddOp \<Rightarrow> a + b \<le> ub
      | SubOp \<Rightarrow> b \<le> a
      | MulOp \<Rightarrow> b \<noteq> 0 \<and> a * b \<le> ub
      | DivOp \<Rightarrow> b \<noteq> 0
      | PowOp \<Rightarrow> a ^ nat b \<le> ub
      | ModOp \<Rightarrow> b \<noteq> 0)"

lemma base_integer [simp]: "bounds_of BASE_INTEGER = Some (0, int_max)"
  by (simp add: BASE_INTEGER_def int_max_def)

lemma plain_value:
  assumes "plain e" "machine_env \<sigma>"
  shows "\<exists>n. int_val \<sigma> e = Some n \<and> 0 \<le> n \<and> n \<le> int_max"
  using assms by (cases e) (auto simp: machine_env_def)

lemma plain_is_int [simp]: "plain e \<Longrightarrow> is_int_expr e"
  by (cases e) auto

lemma operand_cases:
  assumes "operand e"
  obtains (plain) "plain e" | (conversion) i b p where "e = IntConversion (Integer i b) p" "plain p"
  using assms by (cases e rule: operand.cases) auto

lemma plain_operand: "plain e \<Longrightarrow> operand e"
  by (cases e) auto

lemma operand_is_int [simp]: "operand e \<Longrightarrow> is_int_expr e"
  by (cases e rule: operand.cases) auto

lemma operand_value:
  assumes "operand e" "machine_env \<sigma>" "int_val \<sigma> e = Some n"
  shows "0 \<le> n \<and> n \<le> int_max"
  using assms(1)
proof (cases rule: operand_cases)
  case plain
  then show ?thesis using plain_value [OF plain assms(2)] assms(3) by auto
next
  case (conversion i b p)
  then show ?thesis
    using plain_value [OF conversion(2) assms(2)] assms(3) by (auto split: if_splits)
qed

lemma plain_preconditions: "plain e \<Longrightarrow> preconditions e u n = Inr ([], n)"
  by (cases e) (simp_all add: return_gen_def)

text \<open>The checks of an operand pass exactly if its conversion succeeds; they change nothing.\<close>

lemma operand_checks:
  assumes "operand e" "machine_env \<sigma>" "declares \<sigma> e" "preconditions e None n = Inr (cs, n')"
  shows "run (check_stmts cs) \<sigma> = Continue \<sigma>' \<longleftrightarrow> \<sigma>' = \<sigma> \<and> int_val \<sigma> e \<noteq> None"
  using assms(1)
proof (cases rule: operand_cases)
  case plain
  then show ?thesis
    using assms plain_value [OF plain assms(2)]
    by (auto simp: plain_preconditions check_stmts_def)
next
  case (conversion i b p)
  note p = conversion(2)
  obtain v where v: "int_val \<sigma> p = Some v" "0 \<le> v" "v \<le> int_max"
    using plain_value [OF p assms(2)] by blast
  have b: "ints \<sigma> (i @ tick @ ''First'') = fst b" "ints \<sigma> (i @ tick @ ''Last'') = snd b"
    using assms(3) conversion by simp_all
  have m: "0 \<le> fst b" "fst b \<le> int_max" "0 \<le> snd b" "snd b \<le> int_max"
    using assms(2) b unfolding machine_env_def by metis+
  show ?thesis
    using assms(4) v b m p
    by (auto simp: conversion(1) bind_gen_Inr plain_preconditions conversion_conditions_def bind_res_eq_Inr
        check_stmts_def in_bounds_def contains_int_def rel_value_def continues_def
        split: if_splits outcome.splits)
qed

lemma check_stmts_append: "check_stmts (xs @ ys) = check_stmts xs @ check_stmts ys"
  by (simp add: check_stmts_def)

lemma int_val_set_int:
  "operand e \<Longrightarrow> v \<notin> set (accessed_vars e) \<Longrightarrow> int_val (set_int v n \<sigma>) e = int_val \<sigma> e"
proof (erule operand_cases)
  show "plain e \<Longrightarrow> v \<notin> set (accessed_vars e) \<Longrightarrow> int_val (set_int v n \<sigma>) e = int_val \<sigma> e"
    by (cases e) (auto simp: set_int_def)
next
  fix i b p assume "v \<notin> set (accessed_vars e)" "e = IntConversion (Integer i b) p" "plain p"
  then show "int_val (set_int v n \<sigma>) e = int_val \<sigma> e"
    by (cases p) (auto simp: set_int_def)
qed

lemma le_div_iff: "0 < (b::int) \<Longrightarrow> a \<le> u div b \<longleftrightarrow> a * b \<le> u"
proof
  assume b: "0 < b"
  { assume "a \<le> u div b"
    then have "a * b \<le> u div b * b" using b by simp
    also have "\<dots> \<le> u" using b by (simp add: minus_mod_eq_div_mult [symmetric])
    finally show "a * b \<le> u" . }
  { assume "a * b \<le> u"
    then show "a \<le> u div b" using b zdiv_mono1 [of "a * b" u b] by simp }
qed

lemma base_conversion_value:
  assumes "to_base_integer r = Inr r'" "int_val \<sigma> r = Some b" "0 \<le> b" "b \<le> int_max"
  shows "int_val \<sigma> r' = Some b"
  using assms by (auto simp: to_base_integer_def bind_res_eq_Inr in_bounds_def contains_int_def split: if_splits)

lemma op_condition_checks:
  assumes c: "op_condition op l r t v = Inr c"
    and l: "operand l" "int_val \<sigma> l = Some a" "uses_variable op \<Longrightarrow> v \<notin> set (accessed_vars l)"
    and r: "operand r" "int_val \<sigma> r = Some b"
    and ab: "0 \<le> a" "a \<le> int_max" "0 \<le> b" "b \<le> int_max"
    and ub: "uses_variable op \<Longrightarrow> 0 \<le> upper_bound t \<and> upper_bound t \<le> int_max"
  shows "continues (run (check_stmts [c]) \<sigma>) \<longleftrightarrow> safe_op op a b (upper_bound t)"
proof -
  have l': "int_val (set_int v n \<sigma>) l = Some a" if "uses_variable op" for n
    using int_val_set_int [OF l(1) l(3) [OF that]] l(2) by simp
  have v: "int_val (set_int v n \<sigma>) (IntVar v u) = Some n" for n u
    by (simp add: set_int_def)
  show ?thesis
  proof (cases op)
    case AddOp
    then obtain r' where r': "to_base_integer r = Inr r'"
        and c: "c = (IrRel LessEqualRel l (IntVar v BASE_INTEGER), int_facts v (IntBin SubOp (IntVal (upper_bound t)) r'))"
      using c by (auto simp: op_condition_def bind_res_eq_Inr)
    have "int_val \<sigma> r' = Some b"
      by (rule base_conversion_value [OF r' r(2) ab(3,4)])
    then show ?thesis
      using l' v ub ab l(1)
      by (auto simp: AddOp uses_variable_def c check_stmts_def int_facts_def int_op_value_def in_bounds_def contains_int_def
          rel_value_def continues_def safe_op_def simp del: int_val.simps(1))
  next
    case MulOp
    then have c: "c = (IrRel LessEqualRel l (IntVar v BASE_INTEGER), int_facts v (IntBin DivOp (IntVal (upper_bound t)) r))"
      using c by (auto simp: op_condition_def)
    have q: "0 \<le> upper_bound t div b \<and> upper_bound t div b \<le> int_max" if "b \<noteq> 0"
    proof -
      have "0 < b" using that ab by simp
      then have "0 \<le> upper_bound t div b" "upper_bound t div b \<le> upper_bound t"
        using ub MulOp int_div_le_self [of "upper_bound t" b]
        by (cases "upper_bound t = 0"; auto simp: uses_variable_def pos_imp_zdiv_nonneg_iff)+
      then show ?thesis using ub MulOp by (auto simp: uses_variable_def)
    qed
    then show ?thesis
      using l' v r ab l(1) le_div_iff [of b a "upper_bound t"]
      by (auto simp: MulOp c check_stmts_def int_facts_def int_op_value_def in_bounds_def contains_int_def
          rel_value_def continues_def safe_op_def uses_variable_def simp del: int_val.simps(1))
  next
    case PowOp
    then obtain u where c: "c = (IrRel LessEqualRel (IntVar v u) (IntVal (upper_bound t)), int_facts v (IntBin PowOp l r))"
      using c by (auto simp: op_condition_def bind_res_eq_Inr Let_def)
    have "0 \<le> a ^ nat b" using ab by simp
    then show ?thesis
      using v l(2) r ub ab
      by (auto simp: PowOp uses_variable_def c check_stmts_def int_facts_def int_op_value_def in_bounds_def contains_int_def
          rel_value_def continues_def safe_op_def simp del: int_val.simps(1))
  qed (use c l r ab in \<open>auto simp: op_condition_def check_stmts_def rel_value_def safe_op_def split: if_splits\<close>)
qed

lemma checks_decide:
  assumes "stmt_preconditions (Assign x (IntBin op l r) t) n = Inr (cs, n')"
    and "operand l" "operand r" "fresh n \<notin> set (accessed_vars l)"
    and "machine_env \<sigma>" "declares \<sigma> l" "declares \<sigma> r"
    and "0 \<le> upper_bound t" "upper_bound t \<le> int_max"
  shows "continues (run (check_stmts cs) \<sigma>) \<longleftrightarrow>
    (\<exists>a b. int_val \<sigma> l = Some a \<and> int_val \<sigma> r = Some b \<and> safe_op op a b (upper_bound t))"
proof -
  define w where "w = (if uses_variable op then t else Any)"
  define v where "v = (if uses_variable op then fresh n else [])"
  obtain cl cr c m k m' k' where pl: "preconditions l None m = Inr (cl, m')" and pr: "preconditions r None k = Inr (cr, k')"
      and c: "op_condition op l r w v = Inr c" and cs: "cs = cl @ cr @ [c]"
    using assms(1) by (auto simp: bind_gen_Inr w_def v_def split: if_splits)
  note kl = operand_checks [OF assms(2,5,6) pl] and kr = operand_checks [OF assms(3,5,7) pr]
  show ?thesis
  proof (cases "int_val \<sigma> l = None \<or> int_val \<sigma> r = None")
    case True
    then show ?thesis
      unfolding cs check_stmts_append continues_run_append by (auto simp: kl kr)
  next
    case False
    then obtain a b where a: "int_val \<sigma> l = Some a" and b: "int_val \<sigma> r = Some b" by auto
    have ab: "0 \<le> a" "a \<le> int_max" "0 \<le> b" "b \<le> int_max"
      using operand_value [OF assms(2,5) a] operand_value [OF assms(3,5) b] by auto
    have "continues (run (check_stmts [c]) \<sigma>) \<longleftrightarrow> safe_op op a b (upper_bound w)"
      by (rule op_condition_checks [OF c assms(2) a _ assms(3) b ab])
         (use assms(4,8,9) in \<open>auto simp: v_def w_def\<close>)
    also have "\<dots> = safe_op op a b (upper_bound t)"
      by (cases op) (simp_all add: w_def safe_op_def uses_variable_def)
    finally show ?thesis
      unfolding cs check_stmts_append continues_run_append using a b by (simp add: kl kr)
  qed
qed


section \<open>The checked assignment does not fault\<close>

text \<open>
  The value of a variable is within the bounds of its type, and a type of the same name as the target has
  the same bounds.
\<close>

fun typed_operand :: "ident \<Rightarrow> bounds \<Rightarrow> env \<Rightarrow> ir_expr \<Rightarrow> bool" where
  "typed_operand i b \<sigma> (IntVar v (Integer j c)) = (contains_int c (ints \<sigma> v) \<and> (id_eq i j \<longrightarrow> c = b))"
| "typed_operand i b \<sigma> (IntVar v (UniversalInteger c)) = contains_int c (ints \<sigma> v)"
| "typed_operand i b \<sigma> (IntVal n) = True"
| "typed_operand i b \<sigma> _ = False"

lemma converted_operand:
  assumes "plain e" "typed_operand i (0, ub) \<sigma> e" "machine_env \<sigma>"
    and "convert_operand (Integer i (0, ub)) e = Inr e'"
  shows "operand e'" "accessed_vars e' = accessed_vars e"
    and "\<exists>a. int_val \<sigma> e = Some a \<and> (int_val \<sigma> e' = Some a \<and> 0 \<le> a \<and> a \<le> ub \<or> int_val \<sigma> e' = None)"
proof -
  have e': "e' = e \<or> e' = IntConversion (Integer i (0, ub)) e"
    using assms(4) by (auto simp: convert_operand_def fits_def bind_res_eq_Inr split: if_splits)
  then show "operand e'" "accessed_vars e' = accessed_vars e"
    using assms(1) by (cases e; auto)+
  obtain a where a: "int_val \<sigma> e = Some a" "0 \<le> a"
    using plain_value [OF assms(1,3)] by blast
  have "a \<le> ub" if "e' = e"
    using assms(1,2,4) a that
    by (cases "(i, (0::int, ub), \<sigma>, e)" rule: typed_operand.cases)
       (auto simp: convert_operand_def fits_def bind_res_eq_Inr is_compatible_strong_def
         contains_bounds_def contains_int_def split: if_splits)
  then show "\<exists>a. int_val \<sigma> e = Some a \<and> (int_val \<sigma> e' = Some a \<and> 0 \<le> a \<and> a \<le> ub \<or> int_val \<sigma> e' = None)"
    using a e' by (auto simp: in_bounds_def contains_int_def split: if_splits)
qed

lemma safe_result:
  assumes "safe_op op a b ub" "0 \<le> a" "a \<le> ub" "0 \<le> b"
  shows "\<exists>v. int_op_value op a b = Some v \<and> 0 \<le> v \<and> v \<le> ub"
proof (cases op)
  case DivOp
  then show ?thesis
    using assms int_div_le_self [of a b]
    by (cases "a = 0") (auto simp: safe_op_def int_op_value_def pos_imp_zdiv_nonneg_iff)
next
  case ModOp
  have "0 < b" "a mod b \<le> a"
    using assms ModOp zmod_le_nonneg_dividend by (auto simp: safe_op_def)
  then show ?thesis using assms ModOp by (auto simp: safe_op_def int_op_value_def)
qed (use assms in \<open>auto simp: safe_op_def int_op_value_def\<close>)

text \<open>The checks of an operation change at most the variable they introduce.\<close>

lemma op_condition_frame:
  assumes "op_condition op l r t v = Inr c" "run (check_stmts [c]) \<sigma> = Continue \<sigma>'"
  shows "\<sigma>' = \<sigma> \<or> uses_variable op \<and> (\<exists>n. \<sigma>' = set_int v n \<sigma>)"
  using assms
  by (cases op)
     (auto simp: op_condition_def bind_res_eq_Inr check_stmts_def int_facts_def uses_variable_def Let_def
       split: option.splits if_splits outcome.splits)

lemma checks_frame:
  assumes "stmt_preconditions (Assign x (IntBin op l r) t) n = Inr (cs, n')"
    and "operand l" "operand r" "machine_env \<sigma>" "declares \<sigma> l" "declares \<sigma> r"
    and "run (check_stmts cs) \<sigma> = Continue \<sigma>'"
  shows "\<sigma>' = \<sigma> \<or> (\<exists>k. \<sigma>' = set_int (fresh n) k \<sigma>)"
proof -
  obtain cl cr c m k m' k' v w where pl: "preconditions l None m = Inr (cl, m')" and pr: "preconditions r None k = Inr (cr, k')"
      and c: "op_condition op l r w v = Inr c" and cs: "cs = cl @ cr @ [c]" and v: "uses_variable op \<Longrightarrow> v = fresh n"
    using assms(1) by (auto simp: bind_gen_Inr split: if_splits)
  note kl = operand_checks [OF assms(2,4,5) pl] and kr = operand_checks [OF assms(3,4,6) pr]
  have "run (check_stmts [c]) \<sigma> = Continue \<sigma>'"
    using assms(7) by (auto simp: cs check_stmts_append run_append kl kr split: outcome.splits)
  then show ?thesis
    using op_condition_frame [OF c] v by blast
qed

definition declared_env :: "ident \<Rightarrow> bounds \<Rightarrow> env \<Rightarrow> bool" where
  "declared_env i b \<sigma> = (ints \<sigma> (i @ tick @ ''First'') = fst b \<and> ints \<sigma> (i @ tick @ ''Last'') = snd b)"

lemma add_checks_single:
  assumes "add_checks [s] n = Inr (ss, n')"
  shows "\<exists>cs k s'. stmt_preconditions s n = Inr (cs, k) \<and> check_nested s k = Inr (s', n') \<and> ss = check_stmts cs @ [s']"
  using assms by (auto simp: add_checks_def bind_gen_Inr)

lemma add_conversions_arithmetic:
  assumes "add_conversions [Assign x (IntBin op l r) (Integer i b)] = Inr ss"
  shows "\<exists>l' r'. convert_operand (Integer i b) l = Inr l' \<and> convert_operand (Integer i b) r = Inr r'
    \<and> ss = [Assign x (IntBin op l' r') (Integer i b)]"
  using assms by (auto simp: add_conversions_def bind_res_eq_Inr assert_res_def)

lemma converted_declares:
  assumes "plain e" "declared_env i b \<sigma>" "convert_operand (Integer i b) e = Inr e'"
  shows "declares \<sigma> e'"
proof -
  have "e' = e \<or> e' = IntConversion (Integer i b) e"
    using assms(3) by (auto simp: convert_operand_def bind_res_eq_Inr split: if_splits)
  then show ?thesis using assms(1,2) by (cases e) (auto simp: declared_env_def)
qed

lemma required_checks_safe:
  assumes "add_required_checks [Assign x (IntBin op l r) (Integer i (0, ub))] n = Inr (ss, n')"
    and "plain l" "plain r" "fresh n \<notin> set (accessed_vars l)" "fresh n \<notin> set (accessed_vars r)"
    and "machine_env \<sigma>" "declared_env i (0, ub) \<sigma>"
    and "typed_operand i (0, ub) \<sigma> l" "typed_operand i (0, ub) \<sigma> r" "ub \<le> int_max"
    and "run (butlast ss) \<sigma> = Continue \<sigma>'"
  shows "\<exists>a b v. int_val \<sigma> l = Some a \<and> int_val \<sigma> r = Some b \<and> int_op_value op a b = Some v
    \<and> 0 \<le> v \<and> v \<le> ub \<and> run ss \<sigma> = Continue (set_int x v \<sigma>')"
proof -
  let ?t = "Integer i (0, ub)"
  obtain l' r' where l': "convert_operand ?t l = Inr l'" and r': "convert_operand ?t r = Inr r'"
      and ck: "add_checks [Assign x (IntBin op l' r') ?t] n = Inr (ss, n')"
    using assms(1) add_conversions_arithmetic [of x op l r i "(0, ub)"]
    unfolding add_required_checks_def bind_gen_Inr lift_gen_Inr by blast
  obtain cs where cs: "stmt_preconditions (Assign x (IntBin op l' r') ?t) n = Inr (cs, n')"
      and ss: "ss = check_stmts cs @ [Assign x (IntBin op l' r') ?t]"
    using add_checks_single [OF ck] by auto
  note cl = converted_operand [OF assms(2,8,6) l'] and cr = converted_operand [OF assms(3,9,6) r']
  have d: "declares \<sigma> l'" "declares \<sigma> r'"
    by (rule converted_declares [OF _ assms(7)], fact+)+
  have ub: "0 \<le> ub"
    using assms(6,7) unfolding machine_env_def declared_env_def by (metis snd_conv)
  have "continues (run (check_stmts cs) \<sigma>)"
    using assms(11) ss by simp
  then obtain a b where a: "int_val \<sigma> l' = Some a" and b: "int_val \<sigma> r' = Some b" and safe: "safe_op op a b ub"
    using checks_decide [OF cs cl(1) cr(1) _ assms(6) d] assms(4,10) ub cl(2) by (auto simp: upper_bound_def)
  have ab: "int_val \<sigma> l = Some a" "0 \<le> a" "a \<le> ub" "int_val \<sigma> r = Some b" "0 \<le> b"
    using a b cl(3) cr(3) by auto
  obtain v where v: "int_op_value op a b = Some v" "0 \<le> v" "v \<le> ub"
    using safe_result [OF safe ab(2,3,5)] by blast
  have "\<sigma>' = \<sigma> \<or> (\<exists>k. \<sigma>' = set_int (fresh n) k \<sigma>)"
    using checks_frame [OF cs cl(1) cr(1) assms(6) d] assms(11) ss by simp
  then have "int_val \<sigma>' l' = Some a" "int_val \<sigma>' r' = Some b"
    using a b int_val_set_int [OF cl(1)] int_val_set_int [OF cr(1)] assms(4,5) cl(2) cr(2) by auto
  then have "run ss \<sigma> = Continue (set_int x v \<sigma>')"
    using assms(11) v by (simp add: ss run_append in_bounds_def contains_int_def)
  then show ?thesis using ab v by blast
qed


section \<open>Checks that fault\<close>

text \<open>
  C37. A check on variables and numbers does not always fail where it should: it faults, by violating a
  constraint or dividing by zero, exactly if the right operand of an addition exceeds the upper bound, the
  right operand of a multiplication is zero, or a power exceeds the base integer type.  A multiplication
  by zero is safe, but is not let through.
\<close>

theorem checks_fault:
  assumes "stmt_preconditions (Assign x (IntBin op l r) t) n = Inr (cs, n')"
    and "plain l" "plain r" "fresh n \<notin> set (accessed_vars l)" "machine_env \<sigma>"
    and "int_val \<sigma> l = Some a" "int_val \<sigma> r = Some b"
    and "0 \<le> upper_bound t" "upper_bound t \<le> int_max"
  shows "run (check_stmts cs) \<sigma> = Fault \<longleftrightarrow>
    (case op of
       AddOp \<Rightarrow> upper_bound t < b
     | MulOp \<Rightarrow> b = 0
     | PowOp \<Rightarrow> int_max < a ^ nat b
     | _ \<Rightarrow> False)"
proof -
  obtain c v w where c: "op_condition op l r w v = Inr c" and cs: "cs = [c]"
      and v: "uses_variable op \<Longrightarrow> v = fresh n \<and> w = t"
    using assms(1) by (auto simp: bind_gen_Inr plain_preconditions [OF assms(2)] plain_preconditions [OF assms(3)] split: if_splits)
  have ab: "0 \<le> a" "a \<le> int_max" "0 \<le> b" "b \<le> int_max"
    using plain_value [OF assms(2,5)] plain_value [OF assms(3,5)] assms(6,7) by auto
  have ol: "operand l" "operand r"
    using assms(2,3) by (auto intro: plain_operand)
  have l': "int_val (set_int v k \<sigma>) l = Some a" if "uses_variable op" for k
    using int_val_set_int [OF ol(1)] v [OF that] assms(4,6) by simp
  have vv: "int_val (set_int v k \<sigma>) (IntVar v u) = Some k" for k u
    by (simp add: set_int_def)
  note defs = cs check_stmts_def int_facts_def int_op_value_def in_bounds_def contains_int_def uses_variable_def
  show ?thesis
  proof (cases op)
    case AddOp
    then obtain r' where r': "to_base_integer r = Inr r'"
        and c: "c = (IrRel LessEqualRel l (IntVar v BASE_INTEGER), int_facts v (IntBin SubOp (IntVal (upper_bound t)) r'))"
      using c v by (auto simp: op_condition_def bind_res_eq_Inr uses_variable_def)
    have "int_val \<sigma> r' = Some b"
      by (rule base_conversion_value [OF r' assms(7) ab(3,4)])
    then show ?thesis
      using AddOp c l' vv assms(2,8,9) ab by (auto simp: defs simp del: int_val.simps(1) split: if_splits)
  next
    case MulOp
    then have c: "c = (IrRel LessEqualRel l (IntVar v BASE_INTEGER), int_facts v (IntBin DivOp (IntVal (upper_bound t)) r))"
      using c v by (auto simp: op_condition_def uses_variable_def)
    have "0 \<le> upper_bound t div b \<and> upper_bound t div b \<le> int_max" if "b \<noteq> 0"
    proof -
      have "0 < b" using that ab by simp
      then have "0 \<le> upper_bound t div b" "upper_bound t div b \<le> upper_bound t"
        using assms(8) int_div_le_self [of "upper_bound t" b]
        by (cases "upper_bound t = 0"; auto simp: pos_imp_zdiv_nonneg_iff)+
      then show ?thesis using assms(9) by simp
    qed
    then show ?thesis
      using MulOp c l' vv assms(2,7) by (auto simp: defs simp del: int_val.simps(1) split: if_splits)
  next
    case PowOp
    then obtain u where c: "c = (IrRel LessEqualRel (IntVar v u) (IntVal (upper_bound t)), int_facts v (IntBin PowOp l r))"
      using c v by (auto simp: op_condition_def bind_res_eq_Inr Let_def uses_variable_def)
    have "0 \<le> a ^ nat b" using ab by simp
    then show ?thesis
      using PowOp c vv assms(6,7) ab by (auto simp: defs simp del: int_val.simps(1) split: if_splits)
  qed (use c cs assms(2,3,6,7) in \<open>auto simp: op_condition_def check_stmts_def split: if_splits\<close>)
qed

section \<open>An example\<close>

definition sample_ty :: ty where
  "sample_ty = Integer ''P::T'' (0, 100)"

definition sample_env :: env where
  "sample_env =
     \<lparr>ints = (\<lambda>i. if i = ''X'' then 30 else if i = ''Y'' then 80
              else if i = ''P::T'' @ tick @ ''Last'' then 100 else 0),
      bools = (\<lambda>_. False)\<rparr>"

lemma sample_machine_env: "machine_env sample_env"
  by (simp add: machine_env_def sample_env_def int_max_def max_scalar_size_def)

lemma sample_checks:
  "stmt_preconditions (Assign ''Z'' (IntBin MulOp (IntVar ''X'' sample_ty) (IntVal 3)) sample_ty) 0 =
     Inr ([(IrRel LessEqualRel (IntVar ''X'' sample_ty) (IntVar ''T_0'' BASE_INTEGER),
            [VarDecl ''T_0'' BASE_INTEGER None, Assign ''T_0'' (IntBin DivOp (IntVal 100) (IntVal 3)) BASE_INTEGER])], 1)"
  by code_simp

lemma sample_bounds: "0 \<le> upper_bound sample_ty" "upper_bound sample_ty \<le> int_max"
  by (simp_all add: upper_bound_def sample_ty_def int_max_def max_scalar_size_def)

lemma sample_fresh: "fresh 0 = ''T_0''"
  by code_simp



theorem checks_fault_witness:
  "run (check_stmts
     [(IrRel LessEqualRel (IntVar ''X'' sample_ty) (IntVar ''T_0'' BASE_INTEGER),
       [VarDecl ''T_0'' BASE_INTEGER None,
        Assign ''T_0'' (IntBin DivOp (IntVal 100) (IntVar ''W'' sample_ty)) BASE_INTEGER])]) sample_env = Fault"
proof -
  have "stmt_preconditions (Assign ''Z'' (IntBin MulOp (IntVar ''X'' sample_ty) (IntVar ''W'' sample_ty)) sample_ty) 0 =
     Inr ([(IrRel LessEqualRel (IntVar ''X'' sample_ty) (IntVar ''T_0'' BASE_INTEGER),
            [VarDecl ''T_0'' BASE_INTEGER None,
             Assign ''T_0'' (IntBin DivOp (IntVal 100) (IntVar ''W'' sample_ty)) BASE_INTEGER])], 1)"
    by code_simp
  from checks_fault [OF this _ _ _ sample_machine_env _ _ sample_bounds, of 30 0]
  show ?thesis by (simp add: sample_fresh sample_env_def tick_def)
qed

end
