(* ===== verification/Tac_Insertion.thy ===== *)
theory Tac_Insertion
  imports Tac_Semantics
begin

text \<open>
  What \<open>add_checks\<close> inserts: the program is preserved, and the places where the inserted code is not what
  it should be.
\<close>

section \<open>The program is preserved\<close>

text \<open>The statements that are generated with the variables \<open>m\<close> to \<open>n - 1\<close>.\<close>

fun inserted :: "nat \<Rightarrow> nat \<Rightarrow> ir_stmt \<Rightarrow> bool" where
  "inserted m n (Check e) = True"
| "inserted m n (VarDecl i t c) = (i \<in> set (map fresh [m..<n]))"
| "inserted m n (Assign i e t) = (i \<in> set (map fresh [m..<n]))"
| "inserted m n _ = False"

text \<open>No call has preconditions of its own.\<close>

fun plain_calls :: "ir_expr \<Rightarrow> bool" where
  "plain_calls (IrCall k i es t cs) = (cs = [] \<and> list_all plain_calls es)"
| "plain_calls (IntBin op l r) = (plain_calls l \<and> plain_calls r)"
| "plain_calls (IntConversion t e) = plain_calls e"
| "plain_calls (IrConversion t e) = plain_calls e"
| "plain_calls (IrComprehension i q s c) = plain_calls q"
| "plain_calls (Find i q s c) = plain_calls q"
| "plain_calls (MsgAgg delta i fs t) = list_all (\<lambda>(f, e). plain_calls e) fs"
| "plain_calls e = True"

fun plain_stmt :: "ir_stmt \<Rightarrow> bool" where
  "plain_stmt (VarDecl i t c) = True"
| "plain_stmt (Assign i e t) =
     (plain_calls e \<and> (case e of IrComprehension _ _ _ _ \<Rightarrow> False | Find _ _ _ _ \<Rightarrow> False | _ \<Rightarrow> True))"
| "plain_stmt (FieldAssign m f e t) = plain_calls e"
| "plain_stmt (Append s e t) = plain_calls e"
| "plain_stmt (Extend s e t) = plain_calls e"
| "plain_stmt (Reset i ps t) = list_all (\<lambda>(f, e). plain_calls e) ps"
| "plain_stmt (Read c e) = plain_calls e"
| "plain_stmt (Write c e) = plain_calls e"
| "plain_stmt (Check e) = plain_calls e"

text \<open>A list of conditions whose facts only use the variables from \<open>m\<close> to \<open>n - 1\<close>.\<close>

definition local_facts :: "nat \<Rightarrow> nat \<Rightarrow> ir_cond list \<Rightarrow> bool" where
  "local_facts m n cs = (m \<le> n \<and> list_all (\<lambda>c. list_all (inserted m n) (snd c)) cs)"

lemma inserted_mono: "inserted m n s \<Longrightarrow> m' \<le> m \<Longrightarrow> n \<le> n' \<Longrightarrow> inserted m' n' s"
  by (cases s) auto

lemma local_facts_append:
  assumes "local_facts m k xs" "local_facts k n ys"
  shows "local_facts m n (xs @ ys)"
  using assms inserted_mono [of m k _ m n] inserted_mono [of k n _ m n]
  by (auto simp: local_facts_def list_all_iff)

lemma local_facts_mono: "local_facts m n cs \<Longrightarrow> m' \<le> m \<Longrightarrow> n \<le> n' \<Longrightarrow> local_facts m' n' cs"
  using inserted_mono by (fastforce simp: local_facts_def list_all_iff)

lemma local_facts_append_iff: "local_facts m n (xs @ ys) \<longleftrightarrow> local_facts m n xs \<and> local_facts m n ys"
  by (auto simp: local_facts_def)

lemma local_facts_le: "local_facts m n cs \<Longrightarrow> m \<le> n"
  by (simp add: local_facts_def)

lemma local_facts_Nil [simp]: "local_facts n n []"
  by (simp add: local_facts_def)

lemma local_facts_concat:
  assumes "\<And>x m k ys. x \<in> set xs \<Longrightarrow> f x m = Inr (ys, k) \<Longrightarrow> local_facts m k ys"
    and "concat_gen f xs m = Inr (cs, n)"
  shows "local_facts m n cs"
  using assms
proof (induction xs arbitrary: m cs)
  case (Cons x xs)
  then obtain ys k zs where "f x m = Inr (ys, k)" "concat_gen f xs k = Inr (zs, n)" "cs = ys @ zs"
    by (auto simp: bind_gen_Inr)
  then show ?case
    using local_facts_append Cons.IH [of k zs] Cons.prems(1) by (metis list.set_intros)
qed simp

lemma op_condition_local:
  "op_condition op l r t (fresh n) = Inr c \<Longrightarrow> local_facts n (Suc n) [c]"
  by (cases op) (auto simp: op_condition_def local_facts_def int_facts_def bind_res_eq_Inr Let_def split: option.splits)

lemma op_condition_no_facts:
  "\<not> uses_variable op \<Longrightarrow> op_condition op l r t v = Inr c \<Longrightarrow> local_facts n n [c]"
  by (cases op) (auto simp: op_condition_def local_facts_def uses_variable_def)

lemma preconditions_local:
  "plain_calls e \<Longrightarrow> preconditions e t m = Inr (cs, n) \<Longrightarrow> local_facts m n cs"
proof (induction e t arbitrary: m n cs rule: preconditions.induct)
  case (1 op l r target)
  show ?case
  proof (cases "uses_variable op")
    case True
    then obtain u cl cr c j where pl: "preconditions l None (Suc m) = Inr (cl, j)"
        and pr: "preconditions r None j = Inr (cr, n)"
        and c: "op_condition op l r u (fresh m) = Inr c" "cs = cl @ cr @ [c]"
      using "1.prems"(2) by (auto simp: bind_gen_Inr)
    have lf: "local_facts (Suc m) j cl" "local_facts j n cr" "local_facts m (Suc m) [c]"
      using "1.IH"(1) [OF True _ pl] "1.IH"(2) [OF True _ pr] "1.prems"(1) op_condition_local [OF c(1)] by auto
    then have "Suc m \<le> j" "j \<le> n" by (auto dest: local_facts_le)
    then show ?thesis
      unfolding c(2) local_facts_append_iff using lf local_facts_mono [of _ _ _ m n] by auto
  next
    case False
    then obtain cl cr c j where pl: "preconditions l None m = Inr (cl, j)" and pr: "preconditions r None j = Inr (cr, n)"
        and c: "op_condition op l r Any [] = Inr c" "cs = cl @ cr @ [c]"
      using "1.prems"(2) by (auto simp: bind_gen_Inr)
    have lf: "local_facts m j cl" "local_facts j n cr" "local_facts n n [c]"
      using "1.IH"(3) [OF False _ pl] "1.IH"(4) [OF False _ pr] "1.prems"(1) op_condition_no_facts [OF False c(1)] by auto
    then have "m \<le> j" "j \<le> n" by (auto dest: local_facts_le)
    then show ?thesis
      unfolding c(2) local_facts_append_iff using lf local_facts_mono [of _ _ _ m n] by auto
  qed
next
  case (2 t e target)
  then obtain ce cs' where e: "preconditions e None m = Inr (ce, n)" and c: "conversion_conditions t e = Inr cs'" "cs = ce @ cs'"
    by (auto simp: bind_gen_Inr)
  have "local_facts m n ce" using 2(1) [OF _ e] 2(2) by simp
  moreover have "local_facts n n cs'"
    using c(1) by (auto simp: conversion_conditions_def bind_res_eq_Inr local_facts_def)
  ultimately show ?case unfolding c(2) by (rule local_facts_append)
next
  case (7 k i es t cs' target)
  then obtain ce where e: "concat_gen (\<lambda>e. preconditions e None) es m = Inr (ce, n)" and c: "cs = ce"
    by (auto simp: bind_gen_Inr)
  show ?case
    unfolding c by (rule local_facts_concat [OF _ e]) (use 7 in \<open>auto simp: list_all_iff\<close>)
next
  case (10 delta i fs t target)
  show ?case
    by (rule local_facts_concat [where f = "\<lambda>(f, e). preconditions e None" and xs = fs])
       (use 10 in \<open>auto simp: list_all_iff split: prod.splits\<close>)
qed (auto simp: bind_gen_Inr local_facts_def)

lemma stmt_preconditions_local:
  assumes "plain_stmt s" "stmt_preconditions s m = Inr (cs, n)"
  shows "local_facts m n cs"
proof (cases s)
  case (Reset i ps t)
  show ?thesis
    by (rule local_facts_concat [where f = "\<lambda>(f, e). preconditions e None" and xs = ps])
       (use assms Reset in \<open>auto simp: list_all_iff intro: preconditions_local split: prod.splits\<close>)
qed (use assms in \<open>auto simp: bind_gen_Inr local_facts_def dest!: preconditions_local\<close>)

lemma check_stmts_inserted: "local_facts m n cs \<Longrightarrow> s \<in> set (check_stmts cs) \<Longrightarrow> inserted m n s"
  by (auto simp: check_stmts_def local_facts_def list_all_iff)

lemma check_nested_plain: "plain_stmt s \<Longrightarrow> check_nested s n = Inr (s', k) \<Longrightarrow> s' = s \<and> k = n"
  by (cases s rule: check_nested.cases) auto

lemma add_checks_Cons:
  assumes "add_checks (s # ss) m = Inr (rs, n)" "plain_stmt s"
  shows "\<exists>cs rs' k. stmt_preconditions s m = Inr (cs, k) \<and> add_checks ss k = Inr (rs', n)
    \<and> rs = check_stmts cs @ s # rs'"
  using assms check_nested_plain [OF assms(2)] by (fastforce simp: add_checks_def bind_gen_Inr)

lemma add_checks_erased:
  "add_checks ss m = Inr (rs, n) \<Longrightarrow> list_all plain_stmt ss \<Longrightarrow> m' \<le> m \<Longrightarrow> n \<le> n' \<Longrightarrow>
   list_all (\<lambda>s. \<not> inserted m' n' s) ss \<Longrightarrow> m \<le> n \<and> filter (\<lambda>s. \<not> inserted m' n' s) rs = ss"
proof (induction ss arbitrary: m rs)
  case Nil
  then show ?case by (simp add: add_checks_def)
next
  case (Cons s ss)
  obtain cs rs' k where s: "stmt_preconditions s m = Inr (cs, k)" and ss: "add_checks ss k = Inr (rs', n)"
      and rs: "rs = check_stmts cs @ s # rs'"
    using add_checks_Cons [OF Cons.prems(1)] Cons.prems(2) by auto
  have lf: "local_facts m k cs"
    using stmt_preconditions_local [OF _ s] Cons.prems(2) by simp
  then have mk: "m \<le> k" by (rule local_facts_le)
  have ih: "k \<le> n \<and> filter (\<lambda>s. \<not> inserted m' n' s) rs' = ss"
    using Cons.IH [OF ss] Cons.prems mk by simp
  have "inserted m' n' x" if "x \<in> set (check_stmts cs)" for x
    using inserted_mono [OF check_stmts_inserted [OF lf that]] Cons.prems(3,4) ih by simp
  then have "filter (\<lambda>s. \<not> inserted m' n' s) (check_stmts cs) = []"
    by (simp add: filter_empty_conv)
  then show ?case using ih mk rs Cons.prems(5) by simp
qed



section \<open>Defects of the preparation\<close>

text \<open>
  Appending the result of an arithmetic operation to a sequence is not prepared at all: the conversion
  of the operation is asked for the sequence type, and the assertion that it is an integer type fails.
\<close>

theorem append_arithmetic_crashes:
  "add_required_checks [Append s (IntBin op l r) (Sequence i t)] n = Inl AssertionError"
  by (simp add: add_required_checks_def add_conversions_def bind_gen_def lift_gen_def assert_res_def)

text \<open>
  The checks of all statements of a selector come before all of them: here the check of the second
  statement, a division by \<open>Y\<close>, reads \<open>Y\<close> before the first one has assigned it.
\<close>

lemma selector_checks_too_early:
  "checked_complex
     (Complex
        [Assign ''Y'' (IntVar ''X'' sample_ty) sample_ty,
         Assign ''Z'' (IntBin DivOp (IntVal 10) (IntVar ''Y'' sample_ty)) sample_ty]
        (IntVar ''Z'' sample_ty)) 0 =
   Inr (Complex
     [Check (IrRel NotEqualRel (IntVar ''Y'' sample_ty) (IntVal 0)),
      Assign ''Y'' (IntVar ''X'' sample_ty) sample_ty,
      Assign ''Z'' (IntBin DivOp (IntVal 10) (IntVar ''Y'' sample_ty)) sample_ty]
     (IntVar ''Z'' sample_ty), 0)"
  by code_simp

text \<open>
  The arithmetic in the branches of an if expression is not checked: no check is inserted in front of an
  assignment whose branch divides by \<open>Y\<close>.
\<close>

lemma branches_unchecked:
  "add_checks
     [Assign ''Z''
        (IrIf (Some sample_ty) (BoolVar ''B'')
           (Complex [Assign ''A'' (IntBin DivOp (IntVal 10) (IntVar ''Y'' sample_ty)) sample_ty] (IntVar ''A'' sample_ty))
           (Complex [] (IntVal 0))) sample_ty] 0 =
   Inr
     ([Assign ''Z''
        (IrIf (Some sample_ty) (BoolVar ''B'')
           (Complex [Assign ''A'' (IntBin DivOp (IntVal 10) (IntVar ''Y'' sample_ty)) sample_ty] (IntVar ''A'' sample_ty))
           (Complex [] (IntVal 0))) sample_ty], 0)"
  by code_simp

end
