(* ===== verification/Tac_Gen.thy ===== *)
theory Tac_Gen
  imports Tac_Insertion Expr_Termination
begin

text \<open>
  The translation of expressions to three-address code (\<open>to_ir\<close> in \<open>rflx/expr_conv.py\<close>).  The static
  types of expressions (\<open>type_\<close>) are an argument of the translation.
\<close>

section \<open>Results\<close>

text \<open>
  A result is a \<open>ComplexIntExpr\<close>, a \<open>ComplexBoolExpr\<close> or a plain \<open>ComplexExpr\<close>, which assertions tell
  apart.
\<close>

type_synonym ir_result = "kind \<times> ir_stmt list \<times> ir_expr"

type_synonym typing = "expr \<Rightarrow> ty"

definition complex_of :: "ir_result \<Rightarrow> ir_complex" where
  "complex_of c = Complex (fst (snd c)) (snd (snd c))"

definition assert_gen :: "bool \<Rightarrow> 'a gen \<Rightarrow> 'a gen" where
  "assert_gen b m = (if b then m else lift_gen (Inl AssertionError))"

definition fail_gen :: "py_error \<Rightarrow> 'a gen" where
  "fail_gen e = lift_gen (Inl e)"

primrec seq_gen :: "('a \<Rightarrow> 'b gen) \<Rightarrow> 'a list \<Rightarrow> 'b list gen" where
  "seq_gen f [] = return_gen []"
| "seq_gen f (x # xs) = bind_gen (f x) (\<lambda>y. bind_gen (seq_gen f xs) (\<lambda>ys. return_gen (y # ys)))"

lemma seq_gen_cong [fundef_cong]:
  "xs = ys \<Longrightarrow> (\<And>x. x \<in> set ys \<Longrightarrow> f x = g x) \<Longrightarrow> seq_gen f xs = seq_gen g ys"
  by (induction xs arbitrary: ys) auto

lemma bind_gen_cong [fundef_cong]:
  assumes "m = m'" "\<And>x n n'. m' n = Inr (x, n') \<Longrightarrow> f x = g x"
  shows "bind_gen m f = bind_gen m' g"
  using assms by (auto simp: bind_gen_def intro!: ext bind_res_cong)

lemma assert_gen_Inr [simp]: "assert_gen b m n = Inr r \<longleftrightarrow> b \<and> m n = Inr r"
  by (auto simp: assert_gen_def lift_gen_def)

lemma fail_gen_Inr [simp]: "fail_gen e n \<noteq> Inr r"
  by (auto simp: fail_gen_def lift_gen_def)

lemma assert_gen_cong [fundef_cong]: "b = b' \<Longrightarrow> (b' \<Longrightarrow> m = m') \<Longrightarrow> assert_gen b m = assert_gen b' m'"
  by (simp add: assert_gen_def)

fun is_aggregate :: "ty \<Rightarrow> bool" where
  "is_aggregate (ty.Aggregate t) = True"
| "is_aggregate _ = False"

fun is_sequence :: "ty \<Rightarrow> bool" where
  "is_sequence (Sequence i t) = True"
| "is_sequence _ = False"

fun is_field_access :: "ir_expr \<Rightarrow> bool" where
  "is_field_access (FieldAccess k m f t) = True"
| "is_field_access _ = False"

definition to_integer :: "ty \<Rightarrow> ty" where
  "to_integer t = (if is_integer t then t else BASE_INTEGER)"

definition is_named :: "ty \<Rightarrow> bool" where
  "is_named t =
     (case t of Enumeration i \<Rightarrow> True | Integer i b \<Rightarrow> True | Message i p f \<Rightarrow> True | Sequence i u \<Rightarrow> True
      | Structure i p f \<Rightarrow> True | _ \<Rightarrow> False)"

section \<open>Basic expressions\<close>

text \<open>The result is stored in a new variable unless it is basic already.\<close>

definition to_ir_basic_int :: "ty \<Rightarrow> ir_result gen \<Rightarrow> (ir_stmt list \<times> ir_expr) gen" where
  "to_ir_basic_int t m =
     assert_gen (is_any_integer t)
       (bind_gen m (\<lambda>(k, ss, e).
          if is_basic_int e then return_gen (ss, e)
          else bind_gen next_id (\<lambda>v.
            return_gen
              (ss @ [VarDecl v (to_integer t) None, Assign v e (to_integer t)], IntVar v (to_integer t)))))"

definition to_ir_basic_bool :: "ty \<Rightarrow> ir_result gen \<Rightarrow> (ir_stmt list \<times> ir_expr) gen" where
  "to_ir_basic_bool t m =
     assert_gen (ty_eq t BOOLEAN)
       (bind_gen m (\<lambda>(k, ss, e).
          if is_basic_bool e then return_gen (ss, e)
          else bind_gen next_id (\<lambda>v.
            return_gen (ss @ [VarDecl v BOOLEAN None, Assign v e BOOLEAN], BoolVar v))))"

definition to_ir_basic_expr :: "ty \<Rightarrow> ir_result gen \<Rightarrow> (ir_stmt list \<times> ir_expr) gen" where
  "to_ir_basic_expr t m =
     bind_gen m (\<lambda>(k, ss, e).
       if is_basic e then return_gen (ss, e)
       else bind_gen next_id (\<lambda>v.
         if is_bool_expr e then
           return_gen (ss @ [VarDecl v BOOLEAN None, Assign v e BOOLEAN], BoolVar v)
         else if is_int_expr e then
           assert_gen (is_any_integer t)
             (return_gen
               (ss @ [VarDecl v (to_integer t) None, Assign v e (to_integer t)], IntVar v (to_integer t)))
         else if is_aggregate t then
           return_gen (ss @ [VarDecl v OPAQUE (Some (Complex [] e))], ObjVar v t)
         else
           assert_gen (is_named t) (return_gen (ss @ [VarDecl v t None, Assign v e t], ObjVar v t))))"

section \<open>Operators\<close>

text \<open>\<open>getattr(ir, ...)\<close>: there are no classes \<open>AndThen\<close>, \<open>OrElse\<close> and \<open>Rem\<close> in \<open>ir\<close>.\<close>

fun ir_bool_op :: "ass_op \<Rightarrow> bool_op res" where
  "ir_bool_op And = Inr AndOp"
| "ir_bool_op Or = Inr OrOp"
| "ir_bool_op _ = Inl AttributeError"

fun ir_ass_op :: "ass_op \<Rightarrow> int_op res" where
  "ir_ass_op Add = Inr AddOp"
| "ir_ass_op Mul = Inr MulOp"
| "ir_ass_op _ = Inl AttributeError"

fun ir_math_op :: "math_op \<Rightarrow> int_op res" where
  "ir_math_op Sub = Inr SubOp"
| "ir_math_op Div = Inr DivOp"
| "ir_math_op Pow = Inr PowOp"
| "ir_math_op Mod = Inr ModOp"
| "ir_math_op Rem = Inl AttributeError"

fun ir_rel_op :: "rel_op \<Rightarrow> ir_rel res" where
  "ir_rel_op Less = Inr LessRel"
| "ir_rel_op LessEqual = Inr LessEqualRel"
| "ir_rel_op Equal = Inr EqualRel"
| "ir_rel_op GreaterEqual = Inr GreaterEqualRel"
| "ir_rel_op Greater = Inr GreaterRel"
| "ir_rel_op NotEqual = Inr NotEqualRel"
| "ir_rel_op _ = Inl NotImplementedError"

definition attribute_to_ir :: "attribute \<Rightarrow> ty \<Rightarrow> ident \<Rightarrow> ir_expr res" where
  "attribute_to_ir a t i =
     (case a of
        Size \<Rightarrow> assert_res (t \<noteq> Undefined) (Inr (Attr SizeAttr i t))
      | Length \<Rightarrow> assert_res (t \<noteq> Undefined) (Inr (Attr LengthAttr i t))
      | First \<Rightarrow> assert_res (t \<noteq> Undefined) (Inr (Attr FirstAttr i t))
      | Last \<Rightarrow> assert_res (t \<noteq> Undefined) (Inr (Attr LastAttr i t))
      | ValidChecksum \<Rightarrow> assert_res (t \<noteq> Undefined) (Inr (Attr ValidChecksumAttr i t))
      | Valid \<Rightarrow> assert_res (t \<noteq> Undefined) (Inr (Attr ValidAttr i t))
      | Present \<Rightarrow> assert_res (t \<noteq> Undefined) (Inr (Attr PresentAttr i t))
      | HasData \<Rightarrow> assert_res (t \<noteq> Undefined) (Inr (Attr HasDataAttr i t))
      | Head \<Rightarrow>
          assert_res (is_composite t)
            (case element_type t of Inl e \<Rightarrow> Inl AssertionError | Inr u \<Rightarrow> Inr (Attr HeadAttr i t))
      | Opaque \<Rightarrow> assert_res (is_message t \<or> is_sequence t) (Inr (Attr OpaqueAttr i t))
      | Constrained \<Rightarrow> Inl NotImplementedError)"

text \<open>The attributes of fields: \<open>M.F'Size\<close>, \<open>M.F'Valid\<close> and \<open>M.F'Present\<close>.\<close>

fun field_attribute :: "attribute \<Rightarrow> expr \<Rightarrow> (field_attr \<times> expr \<times> ident) option" where
  "field_attribute Size (Selected p f) = Some (FieldSize, p, f)"
| "field_attribute Valid (Selected p f) = Some (FieldValid, p, f)"
| "field_attribute Present (Selected p f) = Some (FieldPresent, p, f)"
| "field_attribute _ _ = None"

fun var_name :: "ir_expr \<Rightarrow> ident" where
  "var_name (IntVar i t) = i"
| "var_name (BoolVar i) = i"
| "var_name (ObjVar i t) = i"
| "var_name _ = []"

definition field_access_to_ir :: "ty \<Rightarrow> ident \<Rightarrow> ident \<Rightarrow> ty \<Rightarrow> ir_expr res" where
  "field_access_to_ir t m f mt =
     (if ty_eq t BOOLEAN then Inr (FieldAccess BoolKind m f mt)
      else if is_integer t then Inr (FieldAccess IntKind m f mt)
      else assert_res (is_enumeration t \<or> is_sequence t) (Inr (FieldAccess ObjKind m f mt)))"

definition call_to_ir :: "ty \<Rightarrow> ident \<Rightarrow> ir_expr list \<Rightarrow> ir_expr res" where
  "call_to_ir t i es =
     (if ty_eq t BOOLEAN then Inr (IrCall BoolKind i es t [])
      else if is_integer t then Inr (IrCall IntKind i es t [])
      else assert_res (is_enumeration t \<or> is_compound t) (Inr (IrCall ObjKind i es t [])))"

definition choice_to_ir :: "ty \<Rightarrow> (ident + int) \<Rightarrow> ir_expr res" where
  "choice_to_ir t c =
     (if is_enumeration t then (case c of Inl i \<Rightarrow> Inr (EnumLit i t) | Inr n \<Rightarrow> Inl AssertionError)
      else assert_res (is_any_integer t)
        (case c of Inr n \<Rightarrow> Inr (IntVal n) | Inl i \<Rightarrow> Inl AssertionError))"

section \<open>Translation\<close>

text \<open>
  \<open>Val\<close> always raises; that its prefix is translated before is left out.  The types of the arguments of
  a call, which are only passed on, are left out.
\<close>

definition literal_to_ir :: "ident \<Rightarrow> ty \<Rightarrow> ir_result res" where
  "literal_to_ir i t =
     assert_res (is_enumeration t)
       (if ty_eq t BOOLEAN then
          (if id_eq i ''True'' then Inr (BoolKind, [], BoolVal True)
           else assert_res (id_eq i ''False'') (Inr (BoolKind, [], BoolVal False)))
        else Inr (ObjKind, [], EnumLit i t))"

definition variable_to_ir :: "ident \<Rightarrow> ty \<Rightarrow> ir_result res" where
  "variable_to_ir i t =
     (if ty_eq t BOOLEAN then Inr (BoolKind, [], BoolVar i)
      else if is_integer t then Inr (IntKind, [], IntVar i t)
      else assert_res (t \<noteq> Undefined) (Inr (ObjKind, [], ObjVar i t)))"

definition string_elements :: "string \<Rightarrow> ir_expr list" where
  "string_elements s = map (\<lambda>c. IntVal (int (char_code c))) s"

text \<open>One definition per class; the translations of the operands are arguments.\<close>

type_synonym ir_basic = "ir_stmt list \<times> ir_expr"

definition neg_to_ir :: "ty \<Rightarrow> ir_basic gen \<Rightarrow> ir_result gen" where
  "neg_to_ir t m =
     assert_gen (is_any_integer t) (bind_gen m (\<lambda>(ss, x). return_gen (IntKind, ss, IrNeg x)))"

definition math_to_ir :: "math_op \<Rightarrow> ty \<Rightarrow> ir_basic gen \<Rightarrow> ir_basic gen \<Rightarrow> ir_result gen" where
  "math_to_ir op t l r =
     assert_gen (is_any_integer t)
       (bind_gen l (\<lambda>(ls, x).
          bind_gen r (\<lambda>(rs, y).
            bind_gen (lift_gen (ir_math_op op)) (\<lambda>o'.
              return_gen (IntKind, ls @ rs, IntBin o' x y)))))"

definition relation_to_ir :: "rel_op \<Rightarrow> ir_basic gen \<Rightarrow> ir_basic gen \<Rightarrow> ir_result gen" where
  "relation_to_ir op l r =
     bind_gen l (\<lambda>(ls, x).
       bind_gen r (\<lambda>(rs, y).
         bind_gen (lift_gen (ir_rel_op op)) (\<lambda>o'.
           return_gen (BoolKind, ls @ rs, IrRel o' x y))))"

definition selected_to_ir :: "ty \<Rightarrow> ty \<Rightarrow> ident \<Rightarrow> ir_basic gen \<Rightarrow> ir_result gen" where
  "selected_to_ir t pt f m =
     assert_gen (t \<noteq> Undefined)
       (assert_gen (is_compound pt)
         (bind_gen m (\<lambda>(ss, x).
            case x of
              ObjVar i mt \<Rightarrow>
                bind_gen (lift_gen (field_access_to_ir t i f pt)) (\<lambda>y. return_gen (ObjKind, ss, y))
            | _ \<Rightarrow> fail_gen AssertionError)))"

definition head_to_ir :: "ir_result gen \<Rightarrow> ir_result gen" where
  "head_to_ir m =
     bind_gen m (\<lambda>(k, ss, x).
       case x of
         IrComprehension i q s c \<Rightarrow> return_gen (ObjKind, ss, Find i q s c)
       | _ \<Rightarrow> fail_gen AssertionError)"

definition prefix_attribute_to_ir :: "attribute \<Rightarrow> ty \<Rightarrow> ir_basic gen \<Rightarrow> ir_result gen" where
  "prefix_attribute_to_ir a t m =
     bind_gen m (\<lambda>(ss, x).
       assert_gen (is_var x)
         (bind_gen (lift_gen (attribute_to_ir a t (var_name x))) (\<lambda>y. return_gen (ObjKind, ss, y))))"

definition aggregate_to_ir :: "ty \<Rightarrow> ir_basic list gen \<Rightarrow> ir_result gen" where
  "aggregate_to_ir t m =
     assert_gen (t \<noteq> Undefined)
       (bind_gen m (\<lambda>rs. return_gen (ObjKind, concat (map fst rs), Agg (map snd rs))))"

definition if_to_ir :: "ty \<Rightarrow> ty \<Rightarrow> ty \<Rightarrow> ir_basic gen \<Rightarrow> ir_result gen \<Rightarrow> ir_result gen \<Rightarrow> ir_result gen" where
  "if_to_ir t ta tb c a b =
     bind_gen c (\<lambda>(cs, x).
       if ty_eq ta BOOLEAN \<and> ty_eq tb BOOLEAN then
         bind_gen a (\<lambda>ra.
           bind_gen b (\<lambda>rb.
             assert_gen (fst ra = BoolKind \<and> fst rb = BoolKind)
               (return_gen (BoolKind, cs, IrIf None x (complex_of ra) (complex_of rb)))))
       else
         assert_gen (is_any_integer t \<and> is_any_integer ta \<and> is_any_integer tb)
           (bind_gen a (\<lambda>ra.
              bind_gen b (\<lambda>rb.
                assert_gen (fst ra = IntKind \<and> fst rb = IntKind)
                  (return_gen (IntKind, cs, IrIf (Some t) x (complex_of ra) (complex_of rb)))))))"

definition conversion_to_ir :: "ty \<Rightarrow> ir_result gen \<Rightarrow> ir_result gen" where
  "conversion_to_ir t m =
     assert_gen (is_named t)
       (bind_gen m (\<lambda>(k, ss, x). return_gen (ObjKind, ss, IrConversion t x)))"

definition comprehension_to_ir ::
    "ident \<Rightarrow> ir_result gen \<Rightarrow> ir_result gen \<Rightarrow> ir_result gen \<Rightarrow> ir_result gen" where
  "comprehension_to_ir i sq sel cond =
     bind_gen sq (\<lambda>(k, ss, q).
       bind_gen sel (\<lambda>rs.
         bind_gen cond (\<lambda>rc.
           assert_gen (is_var q \<or> is_field_access q)
             (assert_gen (fst rc = BoolKind)
               (return_gen (ObjKind, ss, IrComprehension i q (complex_of rs) (complex_of rc)))))))"

definition message_aggregate_to_ir ::
    "bool \<Rightarrow> ident \<Rightarrow> ty \<Rightarrow> (ident \<times> ir_result) list gen \<Rightarrow> ir_result gen" where
  "message_aggregate_to_ir delta i t m =
     assert_gen (is_message t)
       (bind_gen m (\<lambda>rs.
          return_gen
            (ObjKind, concat (map (\<lambda>(f, k, ss, x). ss) rs),
             MsgAgg delta i (map (\<lambda>(f, k, ss, x). (f, x)) rs) t)))"

definition case_branch_to_ir ::
    "ty \<Rightarrow> (ident + int) list \<Rightarrow> ir_basic gen \<Rightarrow> (ir_expr list \<times> ir_expr) gen" where
  "case_branch_to_ir t choice m =
     bind_gen m (\<lambda>(bs, y).
       assert_gen (bs = [])
         (bind_gen (lift_gen (map_res (choice_to_ir t) choice)) (\<lambda>vs. return_gen (vs, y))))"

definition case_to_ir :: "ty \<Rightarrow> ir_basic gen \<Rightarrow> (ir_expr list \<times> ir_expr) list gen \<Rightarrow> ir_result gen" where
  "case_to_ir t m cs =
     assert_gen (t \<noteq> Undefined)
       (bind_gen m (\<lambda>(ss, x). bind_gen cs (\<lambda>rs. return_gen (ObjKind, ss, IrCase x rs t))))"

lemma weight_less_2 [simp]: "weight e < 2 * weight e"
  using weight_ge_2 [of e] by simp

declare weight_pos [simp]

lemma weight_in_pairs: "(f, e) \<in> set fs \<Longrightarrow> weight e \<le> (\<Sum>(f, e)\<leftarrow>fs. weight e)"
  by (induction fs) auto

function to_ir :: "typing \<Rightarrow> expr \<Rightarrow> ir_result gen" where
  "to_ir ty (NotE e) =
     bind_gen (to_ir_basic_bool (ty e) (to_ir ty e)) (\<lambda>(ss, x). return_gen (BoolKind, ss, IrNot x))"
| "to_ir ty (Ass op ts) =
     (if is_bool_op op then
        (case ts of
           [] \<Rightarrow> return_gen (BoolKind, [], BoolVal True)
         | [t] \<Rightarrow>
             bind_gen (to_ir_basic_bool (ty t) (to_ir ty t)) (\<lambda>(ss, x). return_gen (BoolKind, ss, x))
         | [l, r] \<Rightarrow>
             bind_gen (to_ir_basic_bool (ty l) (to_ir ty l)) (\<lambda>(ls, x).
               bind_gen (to_ir_basic_bool (ty r) (to_ir ty r)) (\<lambda>(rs, y).
                 bind_gen (lift_gen (ir_bool_op op)) (\<lambda>o'.
                   return_gen (BoolKind, ls @ rs, BoolBin o' x y))))
         | l # rest \<Rightarrow>
             bind_gen (to_ir_basic_bool (ty l) (to_ir ty l)) (\<lambda>(ls, x).
               bind_gen next_id (\<lambda>v.
                 bind_gen (to_ir ty (Ass op rest)) (\<lambda>(k, rs, y).
                   bind_gen (lift_gen (ir_bool_op op)) (\<lambda>o'.
                     return_gen
                       (BoolKind, rs @ [VarDecl v BOOLEAN None, Assign v y BOOLEAN] @ ls, BoolBin o' x (BoolVar v)))))))
      else
        (case ts of
           [] \<Rightarrow> return_gen (IntKind, [], IntVal 0)
         | [t] \<Rightarrow>
             assert_gen (is_any_integer (ty (Ass op ts)))
               (bind_gen (to_ir_basic_int (ty t) (to_ir ty t)) (\<lambda>(ss, x). return_gen (IntKind, ss, x)))
         | [l, r] \<Rightarrow>
             assert_gen (is_any_integer (ty (Ass op ts)))
               (bind_gen (to_ir_basic_int (ty l) (to_ir ty l)) (\<lambda>(ls, x).
                  bind_gen (to_ir_basic_int (ty r) (to_ir ty r)) (\<lambda>(rs, y).
                    bind_gen (lift_gen (ir_ass_op op)) (\<lambda>o'.
                      return_gen (IntKind, ls @ rs, IntBin o' x y)))))
         | l # rest \<Rightarrow>
             assert_gen (is_any_integer (ty (Ass op ts)))
               (bind_gen next_id (\<lambda>v.
                  bind_gen (to_ir_basic_int (ty l) (to_ir ty l)) (\<lambda>(ls, x).
                    assert_gen (is_any_integer (ty (Ass op rest)))
                      (bind_gen (to_ir ty (Ass op rest)) (\<lambda>(k, rs, y).
                         bind_gen (lift_gen (ir_ass_op op)) (\<lambda>o'.
                           let u = to_integer (ty (Ass op ts)) in
                           return_gen
                             (IntKind, rs @ [VarDecl v u None, Assign v y u] @ ls,
                              IntBin o' x (IntVar v (ty (Ass op rest)))))))))))) "
| "to_ir ty (Number n b) = return_gen (IntKind, [], IntVal n)"
| "to_ir ty (Neg e) = neg_to_ir (ty (Neg e)) (to_ir_basic_int (ty e) (to_ir ty e))"
| "to_ir ty (MathBin op l r) =
     math_to_ir op (ty (MathBin op l r))
       (to_ir_basic_int (ty l) (to_ir ty l)) (to_ir_basic_int (ty r) (to_ir ty r))"
| "to_ir ty (TypeName i) = fail_gen NotImplementedError"
| "to_ir ty (Literal i) = lift_gen (literal_to_ir i (ty (Literal i)))"
| "to_ir ty (Variable i) = lift_gen (variable_to_ir i (ty (Variable i)))"
| "to_ir ty (Attribute a p) =
     assert_gen (ty (Attribute a p) \<noteq> Undefined)
       (case field_attribute a p of
          Some (fa, q, f) \<Rightarrow>
            (case q of
               Variable i \<Rightarrow> assert_gen (is_compound (ty q)) (return_gen (ObjKind, [], FieldAccessAttr fa i f (ty q)))
             | _ \<Rightarrow> fail_gen AssertionError)
        | None \<Rightarrow>
            (if a = Size \<and> class_of p = C_TypeName then
               (case p of
                  TypeName i \<Rightarrow>
                    bind_gen (lift_gen (attribute_to_ir a (ty p) i)) (\<lambda>x. return_gen (ObjKind, [], x))
                | _ \<Rightarrow> fail_gen AssertionError)
             else if a = Head \<and> class_of p = C_Comprehension then head_to_ir (to_ir ty p)
             else prefix_attribute_to_ir a (ty p) (to_ir_basic_expr (ty p) (to_ir ty p))))"
| "to_ir ty (Val p e) = fail_gen NotImplementedError"
| "to_ir ty (Indexed p es) = fail_gen NotImplementedError"
| "to_ir ty (Selected p f) =
     selected_to_ir (ty (Selected p f)) (ty p) f (to_ir_basic_expr (ty p) (to_ir ty p))"
| "to_ir ty (Call i es) =
     bind_gen (seq_gen (\<lambda>e. to_ir ty e) es) (\<lambda>rs.
       bind_gen (lift_gen (call_to_ir (ty (Call i es)) i (map (\<lambda>(k, ss, x). x) rs))) (\<lambda>y.
         return_gen (ObjKind, concat (map (\<lambda>(k, ss, x). ss) rs), y)))"
| "to_ir ty (Slice p a b) = fail_gen NotImplementedError"
| "to_ir ty UndefinedExpr = fail_gen NotImplementedError"
| "to_ir ty (expr.Aggregate es) =
     aggregate_to_ir (ty (expr.Aggregate es)) (seq_gen (\<lambda>e. to_ir_basic_expr (ty e) (to_ir ty e)) es)"
| "to_ir ty (StringE s) =
     assert_gen (ty (StringE s) \<noteq> Undefined) (return_gen (ObjKind, [], Agg (string_elements s)))"
| "to_ir ty (Relation op l r) =
     (if op = In \<or> op = NotIn then fail_gen NotImplementedError
      else
        relation_to_ir op (to_ir_basic_expr (ty l) (to_ir ty l)) (to_ir_basic_expr (ty r) (to_ir ty r)))"
| "to_ir ty (IfExpr ces els) =
     (case (ces, els) of
        ([(c, a)], Some b) \<Rightarrow>
          if_to_ir (ty (IfExpr ces els)) (ty a) (ty b)
            (to_ir_basic_bool (ty c) (to_ir ty c)) (to_ir ty a) (to_ir ty b)
      | _ \<Rightarrow> fail_gen AssertionError)"
| "to_ir ty (Quantified q i it p) = fail_gen (FatalError ''quantified expressions not yet supported'')"
| "to_ir ty (ValueRange a b) = fail_gen NotImplementedError"
| "to_ir ty (Conversion i e) = conversion_to_ir (ty (Conversion i e)) (to_ir ty e)"
| "to_ir ty (QualifiedExpr i e) = fail_gen NotImplementedError"
| "to_ir ty (Comprehension i sq sel cond) =
     comprehension_to_ir i (to_ir ty sq) (to_ir ty sel)
       (bind_gen (lift_gen (simplified cond)) (\<lambda>cond'. to_ir ty cond'))"
| "to_ir ty (MessageAggregate delta i fs) =
     message_aggregate_to_ir delta i (ty (MessageAggregate delta i fs))
       (seq_gen (\<lambda>(f, e). bind_gen (to_ir ty e) (\<lambda>r. return_gen (f, r))) fs)"
| "to_ir ty (CaseExpr e cs) =
     case_to_ir (ty (CaseExpr e cs)) (to_ir_basic_expr (ty e) (to_ir ty e))
       (seq_gen (\<lambda>(choice, b). case_branch_to_ir (ty e) choice (to_ir_basic_expr (ty b) (to_ir ty b))) cs)"
  by pat_completeness auto

termination
proof (relation "measure (\<lambda>(ty, e). weight e)", goal_cases)
  case 1
  then show ?case by simp
qed (auto simp: weight_ge_2 less_Suc_eq_le dest!: weight_mem weight_in_pairs simplified_weight)

end
