(* ===== verification/Tac_Gen_Correct.thy ===== *)
theory Tac_Gen_Correct
  imports Tac_Gen
begin

text \<open>
  The translation to three-address code preserves the value of expressions: an evaluation of
  specification expressions on integers and truth values, and the proof that the generated statements
  compute it.
\<close>

section \<open>Values of specification expressions\<close>

datatype val = VInt int | VBool bool

definition tac_val :: "env \<Rightarrow> ir_expr \<Rightarrow> val option" where
  "tac_val \<sigma> x =
     (if is_int_expr x then map_option VInt (int_val \<sigma> x)
      else if is_bool_expr x then map_option VBool (bool_val \<sigma> x) else None)"

text \<open>The value of an operand: an integer has to fit the type of the variable that may hold it.\<close>

fun int_operand :: "ty \<Rightarrow> val option \<Rightarrow> int option" where
  "int_operand t (Some (VInt n)) = (if in_bounds (to_integer t) n then Some n else None)"
| "int_operand t _ = None"

fun bool_operand :: "val option \<Rightarrow> bool option" where
  "bool_operand (Some (VBool b)) = Some b"
| "bool_operand _ = None"

text \<open>Sums and products from the right, as the code computes them; partial results are base integers.\<close>

fun from_right :: "(int \<Rightarrow> int \<Rightarrow> int) \<Rightarrow> int list \<Rightarrow> int option" where
  "from_right f [] = None"
| "from_right f [a] = Some a"
| "from_right f (a # b # bs) =
     (case from_right f (b # bs) of
        Some s \<Rightarrow> if in_bounds BASE_INTEGER s then Some (f a s) else None
      | None \<Rightarrow> None)"

definition ass_value :: "ass_op \<Rightarrow> val option list \<Rightarrow> int option list \<Rightarrow> val option" where
  "ass_value op vs ns =
     (case op of
        And \<Rightarrow> (case those (map bool_operand vs) of
                  Some bs \<Rightarrow> if bs = [] then None else Some (VBool (list_all id bs)) | None \<Rightarrow> None)
      | Or \<Rightarrow> (case those (map bool_operand vs) of
                  Some bs \<Rightarrow> if bs = [] then None else Some (VBool (list_ex id bs)) | None \<Rightarrow> None)
      | Add \<Rightarrow> (case those ns of Some ks \<Rightarrow> map_option VInt (from_right (+) ks) | None \<Rightarrow> None)
      | Mul \<Rightarrow> (case those ns of Some ks \<Rightarrow> map_option VInt (from_right (*) ks) | None \<Rightarrow> None)
      | _ \<Rightarrow> None)"

definition math_value :: "math_op \<Rightarrow> int option \<Rightarrow> int option \<Rightarrow> val option" where
  "math_value op m n =
     (case (ir_math_op op, m, n) of
        (Inr o', Some a, Some b) \<Rightarrow> map_option VInt (int_op_value o' a b)
      | _ \<Rightarrow> None)"

text \<open>
  Relations compare integers, in the range of their types, or truth values, for equality only.
\<close>

definition rel_op_value :: "rel_op \<Rightarrow> ty \<Rightarrow> ty \<Rightarrow> val option \<Rightarrow> val option \<Rightarrow> val option" where
  "rel_op_value op s t v w =
     (case ir_rel_op op of
        Inl e \<Rightarrow> None
      | Inr o' \<Rightarrow>
          (case (v, w) of
             (Some (VInt a), Some (VInt b)) \<Rightarrow>
               if int_operand s v = Some a \<and> int_operand t w = Some b then Some (VBool (rel_value o' a b)) else None
           | (Some (VBool a), Some (VBool b)) \<Rightarrow>
               (case o' of EqualRel \<Rightarrow> Some (VBool (a = b)) | NotEqualRel \<Rightarrow> Some (VBool (a \<noteq> b)) | _ \<Rightarrow> None)
           | _ \<Rightarrow> None))"

text \<open>Attributes and fields are read by their textual form.\<close>

definition attribute_value :: "env \<Rightarrow> typing \<Rightarrow> attribute \<Rightarrow> expr \<Rightarrow> val option" where
  "attribute_value \<sigma> ty a p =
     (case field_attribute a p of
        Some (fa, Variable m, f) \<Rightarrow> tac_val \<sigma> (FieldAccessAttr fa m f (ty (Variable m)))
      | Some _ \<Rightarrow> None
      | None \<Rightarrow>
          (case p of
             Variable i \<Rightarrow> (case attribute_to_ir a (ty p) i of Inr x \<Rightarrow> tac_val \<sigma> x | Inl e \<Rightarrow> None)
           | _ \<Rightarrow> None))"

definition selected_value :: "env \<Rightarrow> typing \<Rightarrow> expr \<Rightarrow> ident \<Rightarrow> val option" where
  "selected_value \<sigma> ty p f =
     (case p of
        Variable m \<Rightarrow>
          (case field_access_to_ir (ty (Selected p f)) m f (ty p) of Inr x \<Rightarrow> tac_val \<sigma> x | Inl e \<Rightarrow> None)
      | _ \<Rightarrow> None)"

definition leaf_value :: "env \<Rightarrow> ir_result res \<Rightarrow> val option" where
  "leaf_value \<sigma> m = (case m of Inr (k, ss, x) \<Rightarrow> tac_val \<sigma> x | Inl e \<Rightarrow> None)"

fun ev :: "typing \<Rightarrow> env \<Rightarrow> expr \<Rightarrow> val option" where
  "ev ty \<sigma> (Number n b) = Some (VInt n)"
| "ev ty \<sigma> (Variable i) = leaf_value \<sigma> (variable_to_ir i (ty (Variable i)))"
| "ev ty \<sigma> (Literal i) = leaf_value \<sigma> (literal_to_ir i (ty (Literal i)))"
| "ev ty \<sigma> (NotE e) = map_option (\<lambda>b. VBool (\<not> b)) (bool_operand (ev ty \<sigma> e))"
| "ev ty \<sigma> (Neg e) = map_option (\<lambda>n. VInt (- n)) (int_operand (ty e) (ev ty \<sigma> e))"
| "ev ty \<sigma> (Ass op ts) =
     ass_value op (map (\<lambda>t. ev ty \<sigma> t) ts) (map (\<lambda>t. int_operand (ty t) (ev ty \<sigma> t)) ts)"
| "ev ty \<sigma> (MathBin op l r) = math_value op (int_operand (ty l) (ev ty \<sigma> l)) (int_operand (ty r) (ev ty \<sigma> r))"
| "ev ty \<sigma> (Relation op l r) = rel_op_value op (ty l) (ty r) (ev ty \<sigma> l) (ev ty \<sigma> r)"
| "ev ty \<sigma> (Attribute a p) = attribute_value \<sigma> ty a p"
| "ev ty \<sigma> (Selected p f) = selected_value \<sigma> ty p f"
| "ev ty \<sigma> _ = None"

section \<open>Names\<close>

text \<open>Names that do not begin with the prefix of generated variables (\<open>ID_PREFIX\<close>).\<close>

definition user_name :: "string \<Rightarrow> bool" where
  "user_name i = (take 2 i \<noteq> ''T_'')"

text \<open>The keys of the environment that the value of a three-address expression depends on.\<close>

fun keys :: "ir_expr \<Rightarrow> string list" where
  "keys (IntVar i t) = [i]"
| "keys (BoolVar i) = [i]"
| "keys (IntVal n) = []"
| "keys (BoolVal b) = []"
| "keys (IrNeg e) = keys e"
| "keys (IrNot e) = keys e"
| "keys (IntBin op l r) = keys l @ keys r"
| "keys (BoolBin op l r) = keys l @ keys r"
| "keys (IrRel op l r) = keys l @ keys r"
| "keys (IntConversion t e) = keys e"
| "keys e = [ir_str e]"

text \<open>The user names an expression reads.\<close>

fun reads :: "expr \<Rightarrow> string list" where
  "reads (Variable i) = [i]"
| "reads (NotE e) = reads e"
| "reads (Neg e) = reads e"
| "reads (Ass op ts) = concat (map reads ts)"
| "reads (MathBin op l r) = reads l @ reads r"
| "reads (Relation op l r) = reads l @ reads r"
| "reads (Attribute a p) = reads p"
| "reads (Selected p f) = reads p"
| "reads _ = []"

definition agree :: "nat \<Rightarrow> nat \<Rightarrow> env \<Rightarrow> env \<Rightarrow> bool" where
  "agree m n \<sigma> \<sigma>' =
     (\<forall>i. i \<notin> set (map fresh [m..<n]) \<longrightarrow> ints \<sigma>' i = ints \<sigma> i \<and> bools \<sigma>' i = bools \<sigma> i)"

lemma user_name_fresh [simp]: "\<not> user_name (fresh n)"
  by (simp add: user_name_def fresh_def)

lemma fresh_inj [simp]: "fresh m = fresh n \<longleftrightarrow> m = n"
  by (simp add: fresh_def int_str_def digits_of_inj)

lemma agreeD:
  "agree m n \<sigma> \<sigma>' \<Longrightarrow> i \<notin> fresh ` {m..<n} \<Longrightarrow> ints \<sigma>' i = ints \<sigma> i \<and> bools \<sigma>' i = bools \<sigma> i"
  by (simp add: agree_def)

lemma agreeI:
  "(\<And>i. i \<notin> fresh ` {m..<n} \<Longrightarrow> ints \<sigma>' i = ints \<sigma> i \<and> bools \<sigma>' i = bools \<sigma> i) \<Longrightarrow> agree m n \<sigma> \<sigma>'"
  by (simp add: agree_def)

lemma agree_refl [simp]: "agree m n \<sigma> \<sigma>"
  by (simp add: agree_def)

lemma agree_trans:
  assumes "agree m k \<sigma> \<sigma>'" "agree k n \<sigma>' \<sigma>''" "m \<le> k" "k \<le> n"
  shows "agree m n \<sigma> \<sigma>''"
proof (rule agreeI)
  fix i assume "i \<notin> fresh ` {m..<n}"
  then have "i \<notin> fresh ` {m..<k}" "i \<notin> fresh ` {k..<n}"
    using assms(3,4) by auto
  then show "ints \<sigma>'' i = ints \<sigma> i \<and> bools \<sigma>'' i = bools \<sigma> i"
    using agreeD [OF assms(1)] agreeD [OF assms(2)] by auto
qed

lemma agree_mono:
  assumes "agree m n \<sigma> \<sigma>'" "m' \<le> m" "n \<le> n'"
  shows "agree m' n' \<sigma> \<sigma>'"
proof (rule agreeI)
  fix i assume "i \<notin> fresh ` {m'..<n'}"
  then have "i \<notin> fresh ` {m..<n}"
    using assms(2,3) by auto
  then show "ints \<sigma>' i = ints \<sigma> i \<and> bools \<sigma>' i = bools \<sigma> i"
    by (rule agreeD [OF assms(1)])
qed

lemma agree_step: "agree m n \<sigma> \<sigma>' \<Longrightarrow> agree m n \<sigma>' \<sigma>'' \<Longrightarrow> agree m n \<sigma> \<sigma>''"
  by (simp add: agree_def)

text \<open>The keys of an expression are user names or variables generated from \<open>m\<close> to \<open>n - 1\<close>.\<close>

definition keys_in :: "nat \<Rightarrow> nat \<Rightarrow> ir_expr \<Rightarrow> bool" where
  "keys_in m n x = list_all (\<lambda>i. user_name i \<or> i \<in> set (map fresh [m..<n])) (keys x)"

lemma val_cong_keys:
  "(\<And>i. i \<in> set (keys x) \<Longrightarrow> ints \<sigma>' i = ints \<sigma> i \<and> bools \<sigma>' i = bools \<sigma> i) \<Longrightarrow>
   int_val \<sigma>' x = int_val \<sigma> x \<and> bool_val \<sigma>' x = bool_val \<sigma> x"
  by (induction x rule: keys.induct) (auto split: option.splits)

lemma tac_val_agree:
  assumes "keys_in m n x" "agree k l \<sigma> \<sigma>'" "n \<le> k \<or> l \<le> m"
  shows "tac_val \<sigma>' x = tac_val \<sigma> x"
proof -
  have "ints \<sigma>' i = ints \<sigma> i \<and> bools \<sigma>' i = bools \<sigma> i" if "i \<in> set (keys x)" for i
  proof (rule agreeD [OF assms(2)])
    have "user_name i \<or> i \<in> fresh ` {m..<n}"
      using assms(1) that by (auto simp: keys_in_def list_all_iff)
    then show "i \<notin> fresh ` {k..<l}" using assms(3) by auto
  qed
  then show ?thesis using val_cong_keys [of x \<sigma>' \<sigma>] by (simp add: tac_val_def)
qed

section \<open>Computations\<close>

text \<open>The statements run through, and the expression has the value then.\<close>

definition computes :: "nat \<Rightarrow> nat \<Rightarrow> ir_stmt list \<Rightarrow> ir_expr \<Rightarrow> val \<Rightarrow> env \<Rightarrow> bool" where
  "computes m n ss x v \<sigma> =
     (m \<le> n \<and> keys_in m n x
      \<and> (\<exists>\<sigma>'. run ss \<sigma> = Continue \<sigma>' \<and> agree m n \<sigma> \<sigma>' \<and> tac_val \<sigma>' x = Some v))"

lemma computesI:
  "m \<le> n \<Longrightarrow> keys_in m n x \<Longrightarrow> run ss \<sigma> = Continue \<sigma>' \<Longrightarrow> agree m n \<sigma> \<sigma>' \<Longrightarrow> tac_val \<sigma>' x = Some v \<Longrightarrow>
   computes m n ss x v \<sigma>"
  by (auto simp: computes_def)

lemma keys_in_mono:
  assumes "keys_in m n x" "m' \<le> m" "n \<le> n'"
  shows "keys_in m' n' x"
  using assms by (auto simp: keys_in_def list_all_iff)

lemma tac_val_int: "tac_val \<sigma> x = Some (VInt a) \<longleftrightarrow> is_int_expr x \<and> int_val \<sigma> x = Some a"
  by (auto simp: tac_val_def)

lemma int_not_bool: "is_int_expr x \<Longrightarrow> \<not> is_bool_expr x"
  by (cases x) auto

lemma tac_val_bool: "tac_val \<sigma> x = Some (VBool b) \<longleftrightarrow> is_bool_expr x \<and> bool_val \<sigma> x = Some b"
  using int_not_bool by (auto simp: tac_val_def)

lemma agree_set:
  "agree n (Suc n) \<sigma> (set_int (fresh n) a \<sigma>)" "agree n (Suc n) \<sigma> (set_bool (fresh n) b \<sigma>)"
  by (auto simp: agree_def set_int_def set_bool_def)

text \<open>A value stored in a new variable.\<close>

lemma computes_store_int:
  assumes "computes m n ss x (VInt a) \<sigma>" "in_bounds t a"
  shows "computes m (Suc n) (ss @ [VarDecl (fresh n) t None, Assign (fresh n) x t]) (IntVar (fresh n) u) (VInt a) \<sigma>"
proof -
  obtain \<sigma>' where c: "m \<le> n" "run ss \<sigma> = Continue \<sigma>'" "agree m n \<sigma> \<sigma>'" "is_int_expr x" "int_val \<sigma>' x = Some a"
    using assms(1) by (auto simp: computes_def tac_val_int)
  show ?thesis
  proof (rule computesI)
    show "run (ss @ [VarDecl (fresh n) t None, Assign (fresh n) x t]) \<sigma> = Continue (set_int (fresh n) a \<sigma>')"
      using c assms(2) by (simp add: run_append)
    show "agree m (Suc n) \<sigma> (set_int (fresh n) a \<sigma>')"
      using agree_trans [OF c(3) agree_set(1)] c(1) by simp
  qed (use c(1) in \<open>auto simp: keys_in_def set_int_def tac_val_int\<close>)
qed

lemma computes_store_bool:
  assumes "computes m n ss x (VBool b) \<sigma>"
  shows "computes m (Suc n) (ss @ [VarDecl (fresh n) BOOLEAN None, Assign (fresh n) x BOOLEAN]) (BoolVar (fresh n)) (VBool b) \<sigma>"
proof -
  obtain \<sigma>' where c: "m \<le> n" "run ss \<sigma> = Continue \<sigma>'" "agree m n \<sigma> \<sigma>'" "is_bool_expr x" "bool_val \<sigma>' x = Some b"
    using assms(1) by (auto simp: computes_def tac_val_bool)
  show ?thesis
  proof (rule computesI)
    show "run (ss @ [VarDecl (fresh n) BOOLEAN None, Assign (fresh n) x BOOLEAN]) \<sigma> = Continue (set_bool (fresh n) b \<sigma>')"
      using c int_not_bool [of x] by (auto simp: run_append)
    show "agree m (Suc n) \<sigma> (set_bool (fresh n) b \<sigma>')"
      using agree_trans [OF c(3) agree_set(2)] c(1) by simp
  qed (use c(1) in \<open>auto simp: keys_in_def set_bool_def tac_val_bool\<close>)
qed

lemma computes_basic_int:
  assumes "to_ir_basic_int t M m = Inr ((ss, x), n)"
    and "\<And>k ss x n. M m = Inr ((k, ss, x), n) \<Longrightarrow> computes m n ss x v \<sigma>"
    and "int_operand t (Some v) = Some a"
  shows "computes m n ss x (VInt a) \<sigma> \<and> is_basic_int x"
proof -
  have v: "v = VInt a" "in_bounds (to_integer t) a"
    using assms(3) by (cases v; auto split: if_splits)+
  obtain k ss' x' n' where M: "M m = Inr ((k, ss', x'), n')"
      and r: "(if is_basic_int x' then return_gen (ss', x')
          else bind_gen next_id (\<lambda>v. return_gen
            (ss' @ [VarDecl v (to_integer t) None, Assign v x' (to_integer t)], IntVar v (to_integer t)))) n'
        = Inr ((ss, x), n)"
    using assms(1) by (auto simp: to_ir_basic_int_def bind_gen_Inr)
  show ?thesis
    using r assms(2) [OF M] computes_store_int [of m n' ss' x' a \<sigma> "to_integer t"] v
    by (auto simp: bind_gen_Inr is_basic_int_def split: if_splits)
qed

lemma computes_basic_bool:
  assumes "to_ir_basic_bool t M m = Inr ((ss, x), n)"
    and "\<And>k ss x n. M m = Inr ((k, ss, x), n) \<Longrightarrow> computes m n ss x v \<sigma>"
    and "bool_operand (Some v) = Some b"
  shows "computes m n ss x (VBool b) \<sigma> \<and> is_basic_bool x"
proof -
  have v: "v = VBool b"
    using assms(3) by (cases v; auto)
  obtain k ss' x' n' where M: "M m = Inr ((k, ss', x'), n')"
      and r: "(if is_basic_bool x' then return_gen (ss', x')
          else bind_gen next_id (\<lambda>v. return_gen
            (ss' @ [VarDecl v BOOLEAN None, Assign v x' BOOLEAN], BoolVar v))) n' = Inr ((ss, x), n)"
    using assms(1) by (auto simp: to_ir_basic_bool_def bind_gen_Inr)
  show ?thesis
    using r assms(2) [OF M] computes_store_bool [of m n' ss' x' b \<sigma>] v
    by (auto simp: bind_gen_Inr is_basic_bool_def split: if_splits)
qed

text \<open>For the operands of a relation, which can be of either kind.\<close>

lemma computes_basic_expr:
  assumes "to_ir_basic_expr t M m = Inr ((ss, x), n)"
    and "\<And>k ss x n. M m = Inr ((k, ss, x), n) \<Longrightarrow> computes m n ss x v \<sigma>"
    and "\<And>a. v = VInt a \<Longrightarrow> in_bounds (to_integer t) a"
  shows "computes m n ss x v \<sigma>"
proof -
  obtain k ss' x' n' where M: "M m = Inr ((k, ss', x'), n')"
    using assms(1) by (auto simp: to_ir_basic_expr_def bind_gen_Inr)
  note c = assms(2) [OF M]
  show ?thesis
  proof (cases v)
    case (VInt a)
    then have "is_int_expr x'" using c by (auto simp: computes_def tac_val_int)
    then show ?thesis
      using assms(1) M c computes_store_int [of m n' ss' x' a \<sigma> "to_integer t"] assms(3) [OF VInt] VInt int_not_bool
      by (auto simp: to_ir_basic_expr_def bind_gen_Inr split: if_splits)
  next
    case (VBool b)
    then have "is_bool_expr x'" using c by (auto simp: computes_def tac_val_bool)
    then show ?thesis
      using assms(1) M c computes_store_bool [of m n' ss' x' b \<sigma>] VBool
      by (auto simp: to_ir_basic_expr_def bind_gen_Inr split: if_splits)
  qed
qed

text \<open>Two computations after each other; the second one leaves the value of the first one alone.\<close>

lemma computes_both:
  assumes "computes m k ss x v \<sigma>" "\<And>\<sigma>'. agree m k \<sigma> \<sigma>' \<Longrightarrow> computes k n ts y w \<sigma>'"
  shows "\<exists>\<sigma>'. m \<le> n \<and> keys_in m n x \<and> keys_in m n y \<and> run (ss @ ts) \<sigma> = Continue \<sigma>' \<and> agree m n \<sigma> \<sigma>'
    \<and> tac_val \<sigma>' x = Some v \<and> tac_val \<sigma>' y = Some w"
proof -
  obtain \<sigma>1 where 1: "m \<le> k" "keys_in m k x" "run ss \<sigma> = Continue \<sigma>1" "agree m k \<sigma> \<sigma>1" "tac_val \<sigma>1 x = Some v"
    using assms(1) by (auto simp: computes_def)
  obtain \<sigma>2 where 2: "k \<le> n" "keys_in k n y" "run ts \<sigma>1 = Continue \<sigma>2" "agree k n \<sigma>1 \<sigma>2" "tac_val \<sigma>2 y = Some w"
    using assms(2) [OF 1(4)] by (auto simp: computes_def)
  have "tac_val \<sigma>2 x = tac_val \<sigma>1 x"
    by (rule tac_val_agree [OF 1(2) 2(4)]) simp
  then show ?thesis
    using 1 2 agree_trans [OF 1(4) 2(4) 1(1) 2(1)] keys_in_mono [OF 1(2) order_refl 2(1)]
      keys_in_mono [OF 2(2) 1(1) order_refl]
    by (intro exI [of _ \<sigma>2]) (simp add: run_append)
qed

section \<open>Reading user names\<close>

lemma user_name_append:
  "user_name i \<Longrightarrow> c \<noteq> CHR ''_'' \<Longrightarrow> c \<noteq> CHR ''T'' \<Longrightarrow> user_name (i @ c # s)"
  by (cases i; cases "tl i") (auto simp: user_name_def)

lemma attribute_keys:
  "user_name i \<Longrightarrow> attribute_to_ir a t i = Inr x \<Longrightarrow> keys_in 0 0 x"
  by (auto simp: attribute_to_ir_def keys_in_def tick_def user_name_append assert_res_def
      split: attribute.splits if_splits sum.splits)

lemma field_attribute_keys: "user_name m \<Longrightarrow> keys_in 0 0 (FieldAccessAttr fa m f t)"
  by (simp add: keys_in_def user_name_append)

lemma field_access_keys:
  "user_name m \<Longrightarrow> field_access_to_ir t m f mt = Inr x \<Longrightarrow> keys_in 0 0 x"
  by (auto simp: field_access_to_ir_def keys_in_def user_name_append assert_res_def split: if_splits)

lemma user_keys_agree: "keys_in 0 0 x \<Longrightarrow> agree m n \<sigma> \<sigma>' \<Longrightarrow> tac_val \<sigma>' x = tac_val \<sigma> x"
  by (rule tac_val_agree [of 0 0 x m n]) simp_all

lemma variable_keys: "user_name i \<Longrightarrow> variable_to_ir i t = Inr (k, ss, x) \<Longrightarrow> keys_in 0 0 x \<and> ss = []"
  by (auto simp: variable_to_ir_def keys_in_def assert_res_def split: if_splits)

lemma literal_keys:
  "literal_to_ir i t = Inr (k, ss, x) \<Longrightarrow> tac_val \<sigma> x = Some v \<Longrightarrow> keys_in 0 0 x \<and> ss = []"
  by (auto simp: literal_to_ir_def keys_in_def assert_res_def tac_val_def split: if_splits)

lemma literal_agree: "leaf_value \<sigma>' (literal_to_ir i t) = leaf_value \<sigma> (literal_to_ir i t)"
  by (auto simp: leaf_value_def literal_to_ir_def assert_res_def tac_val_def)

lemma field_attribute_Some:
  "field_attribute a p = Some (fa, q, f) \<Longrightarrow> p = Selected q f"
  by (cases "(a, p)" rule: field_attribute.cases) auto

lemma attribute_value_agree:
  assumes "list_all user_name (reads p)" "agree m n \<sigma> \<sigma>'"
  shows "attribute_value \<sigma>' ty a p = attribute_value \<sigma> ty a p"
proof (cases "field_attribute a p")
  case None
  then show ?thesis
    using assms by (auto simp: attribute_value_def split: expr.splits sum.splits intro!: user_keys_agree attribute_keys)
next
  case (Some r)
  obtain fa q f where r: "r = (fa, q, f)" by (cases r)
  then show ?thesis
    using Some field_attribute_Some [of a p fa q f] assms
    by (cases q) (auto simp: attribute_value_def intro!: user_keys_agree field_attribute_keys)
qed

lemma selected_value_agree:
  "list_all user_name (reads p) \<Longrightarrow> agree m n \<sigma> \<sigma>' \<Longrightarrow> selected_value \<sigma>' ty p f = selected_value \<sigma> ty p f"
  by (auto simp: selected_value_def split: expr.splits sum.splits intro!: user_keys_agree field_access_keys)

text \<open>The value of an expression does not depend on generated variables.\<close>

lemma ev_agree:
  "list_all user_name (reads e) \<Longrightarrow> agree m n \<sigma> \<sigma>' \<Longrightarrow> ev ty \<sigma>' e = ev ty \<sigma> e"
proof (induction ty \<sigma> e rule: ev.induct)
  case (2 ty \<sigma> i)
  then show ?case
    by (auto simp: leaf_value_def split: sum.splits intro!: user_keys_agree dest: variable_keys)
next
  case (3 ty \<sigma> i)
  show ?case by (simp add: literal_agree)
next
  case (6 ty \<sigma> op ts)
  then have "ev ty \<sigma>' t = ev ty \<sigma> t" if "t \<in> set ts" for t
    using that by (auto simp: list_all_iff)
  then show ?case by (simp cong: map_cong)
qed (simp_all add: attribute_value_agree selected_value_agree)

section \<open>Associative operators\<close>

text \<open>
  With three and more terms the rest is computed first, into the variable \<open>j\<close>, then the first term.
\<close>

lemma computes_rest_bool:
  assumes "computes c d rs y (VBool w) \<sigma>" "\<And>\<sigma>'. agree m n \<sigma> \<sigma>' \<Longrightarrow> computes a b ls x (VBool v) \<sigma>'"
    and "m \<le> a" "b \<le> n" "m \<le> c" "d \<le> n" "m \<le> j" "j < n" "j < a \<or> b \<le> j"
  shows "computes m n (rs @ [VarDecl (fresh j) BOOLEAN None, Assign (fresh j) y BOOLEAN] @ ls)
    (BoolBin o' x (BoolVar (fresh j))) (VBool (case o' of AndOp \<Rightarrow> v \<and> w | OrOp \<Rightarrow> v \<or> w)) \<sigma>"
proof -
  obtain \<sigma>1 where 1: "run rs \<sigma> = Continue \<sigma>1" "agree c d \<sigma> \<sigma>1" "is_bool_expr y" "bool_val \<sigma>1 y = Some w"
    using assms(1) by (auto simp: computes_def tac_val_bool)
  let ?\<sigma> = "set_bool (fresh j) w \<sigma>1"
  have a1: "agree m n \<sigma> ?\<sigma>"
  proof (rule agreeI)
    fix i assume i: "i \<notin> fresh ` {m..<n}"
    then have "i \<notin> fresh ` {c..<d}" "i \<noteq> fresh j" using assms(5-8) by auto
    then show "ints ?\<sigma> i = ints \<sigma> i \<and> bools ?\<sigma> i = bools \<sigma> i"
      using agreeD [OF 1(2)] by (simp add: set_bool_def)
  qed
  obtain \<sigma>2 where 2: "a \<le> b" "keys_in a b x" "run ls ?\<sigma> = Continue \<sigma>2" "agree a b ?\<sigma> \<sigma>2"
      "is_bool_expr x" "bool_val \<sigma>2 x = Some v"
    using assms(2) [OF a1] by (auto simp: computes_def tac_val_bool)
  have outside: "fresh j \<notin> fresh ` {a..<b}" using assms(9) by auto
  have "bools \<sigma>2 (fresh j) = w"
    using agreeD [OF 2(4) outside] by (simp add: set_bool_def)
  then have "tac_val \<sigma>2 (BoolBin o' x (BoolVar (fresh j))) = Some (VBool (case o' of AndOp \<Rightarrow> v \<and> w | OrOp \<Rightarrow> v \<or> w))"
    using 2(6) by (simp add: tac_val_bool)
  moreover have "agree m n \<sigma> \<sigma>2"
    by (rule agree_step [OF a1 agree_mono [OF 2(4) assms(3,4)]])
  moreover have "keys_in m n (BoolBin o' x (BoolVar (fresh j)))"
    using keys_in_mono [OF 2(2) assms(3,4)] assms(7,8) by (auto simp: keys_in_def)
  ultimately show ?thesis
    using 1 2(3) assms(7,8) int_not_bool [of y] by (intro computesI) (auto simp: run_append)
qed

lemma computes_rest_int:
  assumes "computes c d rs y (VInt w) \<sigma>" "\<And>\<sigma>'. agree m n \<sigma> \<sigma>' \<Longrightarrow> computes a b ls x (VInt v) \<sigma>'"
    and "m \<le> a" "b \<le> n" "m \<le> c" "d \<le> n" "m \<le> j" "j < n" "j < a \<or> b \<le> j"
    and "in_bounds t w" "int_op_value o' v w = Some z"
  shows "computes m n (rs @ [VarDecl (fresh j) t None, Assign (fresh j) y t] @ ls)
    (IntBin o' x (IntVar (fresh j) u)) (VInt z) \<sigma>"
proof -
  obtain \<sigma>1 where 1: "run rs \<sigma> = Continue \<sigma>1" "agree c d \<sigma> \<sigma>1" "is_int_expr y" "int_val \<sigma>1 y = Some w"
    using assms(1) by (auto simp: computes_def tac_val_int)
  let ?\<sigma> = "set_int (fresh j) w \<sigma>1"
  have a1: "agree m n \<sigma> ?\<sigma>"
  proof (rule agreeI)
    fix i assume i: "i \<notin> fresh ` {m..<n}"
    then have "i \<notin> fresh ` {c..<d}" "i \<noteq> fresh j" using assms(5-8) by auto
    then show "ints ?\<sigma> i = ints \<sigma> i \<and> bools ?\<sigma> i = bools \<sigma> i"
      using agreeD [OF 1(2)] by (simp add: set_int_def)
  qed
  obtain \<sigma>2 where 2: "a \<le> b" "keys_in a b x" "run ls ?\<sigma> = Continue \<sigma>2" "agree a b ?\<sigma> \<sigma>2"
      "is_int_expr x" "int_val \<sigma>2 x = Some v"
    using assms(2) [OF a1] by (auto simp: computes_def tac_val_int)
  have outside: "fresh j \<notin> fresh ` {a..<b}" using assms(9) by auto
  have "ints \<sigma>2 (fresh j) = w"
    using agreeD [OF 2(4) outside] by (simp add: set_int_def)
  then have "tac_val \<sigma>2 (IntBin o' x (IntVar (fresh j) u)) = Some (VInt z)"
    using 2(6) assms(11) by (simp add: tac_val_int)
  moreover have "agree m n \<sigma> \<sigma>2"
    by (rule agree_step [OF a1 agree_mono [OF 2(4) assms(3,4)]])
  moreover have "keys_in m n (IntBin o' x (IntVar (fresh j) u))"
    using keys_in_mono [OF 2(2) assms(3,4)] assms(7,8) by (auto simp: keys_in_def)
  ultimately show ?thesis
    using 1 2(3) assms(7,8,10) by (intro computesI) (auto simp: run_append)
qed

text \<open>What the induction over the expression gives for a term.\<close>

definition translates :: "typing \<Rightarrow> expr \<Rightarrow> bool" where
  "translates ty e =
     (\<forall>m k ss x n \<sigma> v. to_ir ty e m = Inr ((k, ss, x), n) \<longrightarrow> ev ty \<sigma> e = Some v \<longrightarrow> computes m n ss x v \<sigma>)"

lemma translatesD:
  "translates ty e \<Longrightarrow> to_ir ty e m = Inr ((k, ss, x), n) \<Longrightarrow> ev ty \<sigma> e = Some v \<Longrightarrow> computes m n ss x v \<sigma>"
  unfolding translates_def by blast

lemma int_operand_Some: "int_operand t v = Some a \<longleftrightarrow> v = Some (VInt a) \<and> in_bounds (to_integer t) a"
  by (cases "(t, v)" rule: int_operand.cases) auto

lemma bool_operand_Some: "bool_operand v = Some b \<longleftrightarrow> v = Some (VBool b)"
  by (cases v rule: bool_operand.cases) auto

lemma operand_int:
  assumes "to_ir_basic_int (ty e) (to_ir ty e) m = Inr ((ss, x), n)" "translates ty e"
    and "int_operand (ty e) (ev ty \<sigma> e) = Some a"
  shows "computes m n ss x (VInt a) \<sigma>"
  using computes_basic_int [OF assms(1), of "VInt a" \<sigma> a] translatesD [OF assms(2)] assms(3)
  by (auto simp: int_operand_Some)

lemma operand_bool:
  assumes "to_ir_basic_bool (ty e) (to_ir ty e) m = Inr ((ss, x), n)" "translates ty e"
    and "bool_operand (ev ty \<sigma> e) = Some b"
  shows "computes m n ss x (VBool b) \<sigma>"
  using computes_basic_bool [OF assms(1), of "VBool b" \<sigma> b] translatesD [OF assms(2)] assms(3)
  by (auto simp: bool_operand_Some)

lemma those_Cons: "those (x # xs) = Some ys \<longleftrightarrow> (\<exists>z zs. x = Some z \<and> those xs = Some zs \<and> ys = z # zs)"
  by (auto split: option.splits)

definition conn_value :: "ass_op \<Rightarrow> bool list \<Rightarrow> bool" where
  "conn_value op bs = (if op = And then list_all id bs else list_ex id bs)"

lemma computes_BoolBin:
  assumes "computes m k ls x (VBool v) \<sigma>" "\<And>\<sigma>'. agree m k \<sigma> \<sigma>' \<Longrightarrow> computes k n rs y (VBool w) \<sigma>'"
  shows "computes m n (ls @ rs) (BoolBin o' x y) (VBool (case o' of AndOp \<Rightarrow> v \<and> w | OrOp \<Rightarrow> v \<or> w)) \<sigma>"
  using computes_both [OF assms(1), of n rs y "VBool w"] assms(2)
  by (auto simp: computes_def tac_val_bool keys_in_def)

lemma computes_IntBin:
  assumes "computes m k ls x (VInt v) \<sigma>" "\<And>\<sigma>'. agree m k \<sigma> \<sigma>' \<Longrightarrow> computes k n rs y (VInt w) \<sigma>'"
    and "int_op_value o' v w = Some z"
  shows "computes m n (ls @ rs) (IntBin o' x y) (VInt z) \<sigma>"
  using computes_both [OF assms(1), of n rs y "VInt w"] assms(2,3)
  by (auto simp: computes_def tac_val_int keys_in_def)

text \<open>The equations of the translation for associative operators, by the number of terms.\<close>

lemma to_ir_conn1:
  "is_bool_op op \<Longrightarrow> to_ir ty (Ass op [l]) =
     bind_gen (to_ir_basic_bool (ty l) (to_ir ty l)) (\<lambda>(ss, x). return_gen (BoolKind, ss, x))"
  by (subst to_ir.simps(2)) (simp del: to_ir.simps)

lemma to_ir_conn2:
  "is_bool_op op \<Longrightarrow> to_ir ty (Ass op [l, r]) =
     bind_gen (to_ir_basic_bool (ty l) (to_ir ty l)) (\<lambda>(ls, x).
       bind_gen (to_ir_basic_bool (ty r) (to_ir ty r)) (\<lambda>(rs, y).
         bind_gen (lift_gen (ir_bool_op op)) (\<lambda>o'. return_gen (BoolKind, ls @ rs, BoolBin o' x y))))"
  by (subst to_ir.simps(2)) (simp del: to_ir.simps)

lemma to_ir_conn3:
  "is_bool_op op \<Longrightarrow> to_ir ty (Ass op (l # r # r' # rest)) =
     bind_gen (to_ir_basic_bool (ty l) (to_ir ty l)) (\<lambda>(ls, x).
       bind_gen next_id (\<lambda>v.
         bind_gen (to_ir ty (Ass op (r # r' # rest))) (\<lambda>(k, rs, y).
           bind_gen (lift_gen (ir_bool_op op)) (\<lambda>o'.
             return_gen (BoolKind, rs @ [VarDecl v BOOLEAN None, Assign v y BOOLEAN] @ ls, BoolBin o' x (BoolVar v))))))"
  by (subst to_ir.simps(2)) (simp del: to_ir.simps)

lemma to_ir_arith1:
  "\<not> is_bool_op op \<Longrightarrow> to_ir ty (Ass op [l]) =
     assert_gen (is_any_integer (ty (Ass op [l])))
       (bind_gen (to_ir_basic_int (ty l) (to_ir ty l)) (\<lambda>(ss, x). return_gen (IntKind, ss, x)))"
  by (subst to_ir.simps(2)) (simp del: to_ir.simps)

lemma to_ir_arith2:
  "\<not> is_bool_op op \<Longrightarrow> to_ir ty (Ass op [l, r]) =
     assert_gen (is_any_integer (ty (Ass op [l, r])))
       (bind_gen (to_ir_basic_int (ty l) (to_ir ty l)) (\<lambda>(ls, x).
          bind_gen (to_ir_basic_int (ty r) (to_ir ty r)) (\<lambda>(rs, y).
            bind_gen (lift_gen (ir_ass_op op)) (\<lambda>o'. return_gen (IntKind, ls @ rs, IntBin o' x y)))))"
  by (subst to_ir.simps(2)) (simp del: to_ir.simps)

lemma to_ir_arith3:
  "\<not> is_bool_op op \<Longrightarrow> to_ir ty (Ass op (l # r # r' # rest)) =
     assert_gen (is_any_integer (ty (Ass op (l # r # r' # rest))))
       (bind_gen next_id (\<lambda>v.
          bind_gen (to_ir_basic_int (ty l) (to_ir ty l)) (\<lambda>(ls, x).
            assert_gen (is_any_integer (ty (Ass op (r # r' # rest))))
              (bind_gen (to_ir ty (Ass op (r # r' # rest))) (\<lambda>(k, rs, y).
                 bind_gen (lift_gen (ir_ass_op op)) (\<lambda>o'.
                   let u = to_integer (ty (Ass op (l # r # r' # rest))) in
                   return_gen
                     (IntKind, rs @ [VarDecl v u None, Assign v y u] @ ls,
                      IntBin o' x (IntVar v (ty (Ass op (r # r' # rest)))))))))))"
  by (subst to_ir.simps(2)) (simp del: to_ir.simps)

lemma computes_conn:
  assumes "\<forall>t\<in>set ts. translates ty t \<and> list_all user_name (reads t)" "op = And \<or> op = Or" "ts \<noteq> []"
    and "to_ir ty (Ass op ts) m = Inr ((k, ss, x), n)"
    and "those (map (\<lambda>t. bool_operand (ev ty \<sigma> t)) ts) = Some bs"
  shows "computes m n ss x (VBool (conn_value op bs)) \<sigma>"
  using assms
proof (induction ts arbitrary: m n k ss x bs \<sigma>)
  case (Cons l rest)
  have op: "is_bool_op op" using Cons.prems(2) by (auto simp: is_bool_op_def)
  have l: "translates ty l" "list_all user_name (reads l)" using Cons.prems(1) by auto
  obtain b bs' where b: "bool_operand (ev ty \<sigma> l) = Some b" "those (map (\<lambda>t. bool_operand (ev ty \<sigma> t)) rest) = Some bs'"
      and bs: "bs = b # bs'"
    using Cons.prems(5) unfolding list.map those_Cons by blast
  have ev_l: "bool_operand (ev ty \<sigma>' l) = Some b" if "agree a c \<sigma> \<sigma>'" for a c \<sigma>'
    using b(1) ev_agree [OF l(2) that] by simp
  show ?case
  proof (cases rest)
    case Nil
    then have "to_ir_basic_bool (ty l) (to_ir ty l) m = Inr ((ss, x), n)"
      using Cons.prems(4) unfolding Nil to_ir_conn1 [OF op] by (auto simp: bind_gen_Inr simp del: to_ir.simps)
    then have "computes m n ss x (VBool b) \<sigma>"
      by (rule operand_bool [OF _ l(1) b(1)])
    then show ?thesis using Nil b bs by (simp add: conn_value_def)
  next
    case R: (Cons r rest')
    show ?thesis
    proof (cases rest')
      case Nil
      then obtain j ls y rs z o' where lj: "to_ir_basic_bool (ty l) (to_ir ty l) m = Inr ((ls, y), j)"
          and r: "to_ir_basic_bool (ty r) (to_ir ty r) j = Inr ((rs, z), n)" and o': "ir_bool_op op = Inr o'"
          and ss: "ss = ls @ rs" "x = BoolBin o' y z"
        using Cons.prems(4) unfolding R Nil to_ir_conn2 [OF op] by (auto simp: bind_gen_Inr simp del: to_ir.simps)
      obtain c where c: "bool_operand (ev ty \<sigma> r) = Some c" "bs' = [c]"
        using b(2) Nil R by (auto split: option.splits)
      have rr: "translates ty r" "list_all user_name (reads r)" using Cons.prems(1) R by auto
      have "computes m n (ls @ rs) (BoolBin o' y z) (VBool (case o' of AndOp \<Rightarrow> b \<and> c | OrOp \<Rightarrow> b \<or> c)) \<sigma>"
        by (rule computes_BoolBin [OF operand_bool [OF lj l(1) b(1)]], rule operand_bool [OF r rr(1)])
           (use c(1) ev_agree [OF rr(2)] in auto)
      then show ?thesis using ss bs c o' Cons.prems(2) by (auto simp: conn_value_def)
    next
      case (Cons r' rest'')
      then obtain j ls y k' rs z o' where lj: "to_ir_basic_bool (ty l) (to_ir ty l) m = Inr ((ls, y), j)"
          and r: "to_ir ty (Ass op rest) (Suc j) = Inr ((k', rs, z), n)" and o': "ir_bool_op op = Inr o'"
          and ss: "ss = rs @ [VarDecl (fresh j) BOOLEAN None, Assign (fresh j) z BOOLEAN] @ ls"
            "x = BoolBin o' y (BoolVar (fresh j))"
        using Cons.prems(4) unfolding R Cons to_ir_conn3 [OF op] by (auto simp: bind_gen_Inr simp del: to_ir.simps)
      have c: "computes (Suc j) n rs z (VBool (conn_value op bs')) \<sigma>"
        by (rule Cons.IH [OF _ _ _ r b(2)]) (use Cons.prems(1,2) R in auto)
      have lc: "computes m j ls y (VBool b) \<sigma>'" if "agree m n \<sigma> \<sigma>'" for \<sigma>'
        by (rule operand_bool [OF lj l(1) ev_l [OF that]])
      have "m \<le> j" "Suc j \<le> n"
        using lc [of \<sigma>] c by (simp_all add: computes_def)
      then have "computes m n (rs @ [VarDecl (fresh j) BOOLEAN None, Assign (fresh j) z BOOLEAN] @ ls)
          (BoolBin o' y (BoolVar (fresh j)))
          (VBool (case o' of AndOp \<Rightarrow> b \<and> conn_value op bs' | OrOp \<Rightarrow> b \<or> conn_value op bs')) \<sigma>"
        by (intro computes_rest_bool [OF c lc]) auto
      then show ?thesis using ss bs o' Cons.prems(2) by (auto simp: conn_value_def)
    qed
  qed
qed simp

text \<open>
  The common type of three and more integers is stored as a base integer, see \<open>common_type\<close>.
\<close>

definition arith_typing :: "typing \<Rightarrow> bool" where
  "arith_typing ty =
     (\<forall>op ts. \<not> is_bool_op op \<longrightarrow> 3 \<le> length ts \<longrightarrow> to_integer (ty (Ass op ts)) = BASE_INTEGER)"

lemma common_type_arith:
  "s \<noteq> Any \<Longrightarrow> t \<noteq> Any \<Longrightarrow> common_type s t \<noteq> Any \<and> to_integer (common_type s t) = BASE_INTEGER"
  by (cases s; cases t)
     (auto simp: to_integer_def same_type_def BASE_INTEGER_def Let_def is_compatible_strong_def split: if_splits)

lemma common_types_arith:
  assumes "2 \<le> length ts" "Any \<notin> set ts"
  shows "to_integer (common_types ts) = BASE_INTEGER"
proof -
  have step: "to_integer (fold (\<lambda>t r. common_type r t) us r) = BASE_INTEGER"
    if "r \<noteq> Any" "to_integer r = BASE_INTEGER" "Any \<notin> set us" for us r
    using that
  proof (induction us arbitrary: r)
    case (Cons u us)
    then have "u \<noteq> Any" by auto
    then show ?case using Cons common_type_arith [OF Cons.prems(1)] by simp
  qed simp
  obtain s t us where ts: "ts = s # t # us"
    using assms(1) by (metis One_nat_def Suc_1 Suc_le_length_iff)
  then show ?thesis
    using assms(2) common_type_arith [of s t] step [of "common_type s t" us]
    by (simp add: common_types_def) metis
qed

definition arith_fun :: "ass_op \<Rightarrow> int \<Rightarrow> int \<Rightarrow> int" where
  "arith_fun op = (if op = Add then (+) else (*))"

lemma computes_arith:
  assumes "\<forall>t\<in>set ts. translates ty t \<and> list_all user_name (reads t)" "op = Add \<or> op = Mul" "arith_typing ty"
    and "to_ir ty (Ass op ts) m = Inr ((k, ss, x), n)"
    and "those (map (\<lambda>t. int_operand (ty t) (ev ty \<sigma> t)) ts) = Some ks"
    and "from_right (arith_fun op) ks = Some z"
  shows "computes m n ss x (VInt z) \<sigma>"
  using assms
proof (induction ts arbitrary: m n k ss x ks z \<sigma>)
  case (Cons l rest)
  have op: "\<not> is_bool_op op" using Cons.prems(2) by (auto simp: is_bool_op_def)
  have opval: "ir_ass_op op = Inr o' \<Longrightarrow> int_op_value o' a b = Some (arith_fun op a b)" for o' a b
    using Cons.prems(2) by (auto simp: int_op_value_def arith_fun_def)
  have l: "translates ty l" "list_all user_name (reads l)" using Cons.prems(1) by auto
  obtain a ks' where a: "int_operand (ty l) (ev ty \<sigma> l) = Some a" "those (map (\<lambda>t. int_operand (ty t) (ev ty \<sigma> t)) rest) = Some ks'"
      and ks: "ks = a # ks'"
    using Cons.prems(5) unfolding list.map those_Cons by blast
  have ev_l: "int_operand (ty l) (ev ty \<sigma>' l) = Some a" if "agree i j \<sigma> \<sigma>'" for i j \<sigma>'
    using a(1) ev_agree [OF l(2) that] by simp
  show ?case
  proof (cases rest)
    case Nil
    then have "to_ir_basic_int (ty l) (to_ir ty l) m = Inr ((ss, x), n)"
      using Cons.prems(4) unfolding Nil to_ir_arith1 [OF op] by (auto simp: bind_gen_Inr simp del: to_ir.simps)
    then have "computes m n ss x (VInt a) \<sigma>"
      by (rule operand_int [OF _ l(1) a(1)])
    then show ?thesis using Nil a ks Cons.prems(6) by simp
  next
    case R: (Cons r rest')
    show ?thesis
    proof (cases rest')
      case Nil
      then obtain j ls y rs w o' where lj: "to_ir_basic_int (ty l) (to_ir ty l) m = Inr ((ls, y), j)"
          and r: "to_ir_basic_int (ty r) (to_ir ty r) j = Inr ((rs, w), n)" and o': "ir_ass_op op = Inr o'"
          and ss: "ss = ls @ rs" "x = IntBin o' y w"
        using Cons.prems(4) unfolding R Nil to_ir_arith2 [OF op] by (auto simp: bind_gen_Inr simp del: to_ir.simps)
      obtain c where c: "int_operand (ty r) (ev ty \<sigma> r) = Some c" "ks' = [c]"
        using a(2) Nil R by (auto split: option.splits)
      have rr: "translates ty r" "list_all user_name (reads r)" using Cons.prems(1) R by auto
      have "z = arith_fun op a c"
        using Cons.prems(6) ks c by (auto split: if_splits)
      then show ?thesis
        unfolding ss
        by (intro computes_IntBin [OF operand_int [OF lj l(1) a(1)]], intro operand_int [OF r rr(1)])
           (use c(1) ev_agree [OF rr(2)] opval [OF o'] in auto)
    next
      case (Cons r' rest'')
      then obtain j ls y k' rs w o' where lj: "to_ir_basic_int (ty l) (to_ir ty l) (Suc m) = Inr ((ls, y), j)"
          and r: "to_ir ty (Ass op rest) j = Inr ((k', rs, w), n)" and o': "ir_ass_op op = Inr o'"
          and ss: "ss = rs @ [VarDecl (fresh m) (to_integer (ty (Ass op (l # rest)))) None,
              Assign (fresh m) w (to_integer (ty (Ass op (l # rest))))] @ ls"
            "x = IntBin o' y (IntVar (fresh m) (ty (Ass op rest)))"
        using Cons.prems(4) unfolding R Cons to_ir_arith3 [OF op] by (auto simp: bind_gen_Inr Let_def simp del: to_ir.simps)
      have t: "to_integer (ty (Ass op (l # rest))) = BASE_INTEGER"
        using Cons.prems(3) op R Cons by (auto simp: arith_typing_def)
      obtain s where s: "from_right (arith_fun op) ks' = Some s" "in_bounds BASE_INTEGER s" "z = arith_fun op a s"
        using Cons.prems(6) ks a(2) R by (cases ks') (auto split: option.splits if_splits)
      have c: "computes j n rs w (VInt s) \<sigma>"
        by (rule Cons.IH [OF _ _ _ r a(2) s(1)]) (use Cons.prems(1-3) R in auto)
      have lc: "computes (Suc m) j ls y (VInt a) \<sigma>'" if "agree m n \<sigma> \<sigma>'" for \<sigma>'
        by (rule operand_int [OF lj l(1) ev_l [OF that]])
      have "Suc m \<le> j" "j \<le> n"
        using lc [of \<sigma>] c by (simp_all add: computes_def)
      then show ?thesis
        unfolding ss t using s opval [OF o'] by (intro computes_rest_int [OF c lc]) auto
    qed
  qed
qed simp

section \<open>The translation preserves values\<close>

text \<open>Each class of expressions in turn.\<close>

lemma translatesI:
  "(\<And>m k ss x n \<sigma> v. to_ir ty e m = Inr ((k, ss, x), n) \<Longrightarrow> ev ty \<sigma> e = Some v \<Longrightarrow> computes m n ss x v \<sigma>) \<Longrightarrow>
   translates ty e"
  unfolding translates_def by blast

lemma computes_leaf:
  "keys_in 0 0 x \<Longrightarrow> tac_val \<sigma> x = Some v \<Longrightarrow> computes m m [] x v \<sigma>"
  by (rule computesI [of m m x "[]" \<sigma> \<sigma>]) (auto simp: keys_in_def)

lemma translates_number: "translates ty (Number n b)"
  by (rule translatesI) (auto simp: tac_val_int keys_in_def intro!: computes_leaf)

lemma translates_variable:
  assumes "user_name i"
  shows "translates ty (Variable i)"
  by (rule translatesI)
     (auto simp: leaf_value_def lift_gen_Inr intro!: computes_leaf split: sum.splits prod.splits
       dest!: variable_keys [OF assms])

lemma translates_literal: "translates ty (Literal i)"
  by (rule translatesI)
     (auto simp: leaf_value_def lift_gen_Inr intro!: computes_leaf split: sum.splits prod.splits
       dest: literal_keys)

lemma translates_not: "translates ty e \<Longrightarrow> translates ty (NotE e)"
proof (rule translatesI)
  fix m k ss x n \<sigma> v
  assume e: "translates ty e" and g: "to_ir ty (NotE e) m = Inr ((k, ss, x), n)" and v: "ev ty \<sigma> (NotE e) = Some v"
  obtain y where y: "to_ir_basic_bool (ty e) (to_ir ty e) m = Inr ((ss, y), n)" "x = IrNot y"
    using g by (auto simp: bind_gen_Inr)
  obtain b where b: "bool_operand (ev ty \<sigma> e) = Some b" "v = VBool (\<not> b)"
    using v by auto
  show "computes m n ss x v \<sigma>"
    using operand_bool [OF y(1) e b(1)] y(2) b(2) by (auto simp: computes_def keys_in_def tac_val_bool)
qed

lemma translates_neg: "translates ty e \<Longrightarrow> translates ty (Neg e)"
proof (rule translatesI)
  fix m k ss x n \<sigma> v
  assume e: "translates ty e" and g: "to_ir ty (Neg e) m = Inr ((k, ss, x), n)" and v: "ev ty \<sigma> (Neg e) = Some v"
  obtain y where y: "to_ir_basic_int (ty e) (to_ir ty e) m = Inr ((ss, y), n)" "x = IrNeg y"
    using g by (auto simp: neg_to_ir_def bind_gen_Inr)
  obtain a where a: "int_operand (ty e) (ev ty \<sigma> e) = Some a" "v = VInt (- a)"
    using v by auto
  show "computes m n ss x v \<sigma>"
    using operand_int [OF y(1) e a(1)] y(2) a(2) by (auto simp: computes_def keys_in_def tac_val_int)
qed

lemma translates_math:
  assumes "translates ty l" "translates ty r" "list_all user_name (reads r)"
  shows "translates ty (MathBin op l r)"
proof (rule translatesI)
  fix m k ss x n \<sigma> v
  assume g: "to_ir ty (MathBin op l r) m = Inr ((k, ss, x), n)" and v: "ev ty \<sigma> (MathBin op l r) = Some v"
  obtain ls y j rs z o' where l: "to_ir_basic_int (ty l) (to_ir ty l) m = Inr ((ls, y), j)"
      and r: "to_ir_basic_int (ty r) (to_ir ty r) j = Inr ((rs, z), n)" and o': "ir_math_op op = Inr o'"
      and ss: "ss = ls @ rs" "x = IntBin o' y z"
    using g by (auto simp: math_to_ir_def bind_gen_Inr)
  obtain a b c where ab: "int_operand (ty l) (ev ty \<sigma> l) = Some a" "int_operand (ty r) (ev ty \<sigma> r) = Some b"
      and c: "int_op_value o' a b = Some c" "v = VInt c"
    using v o' by (auto simp: math_value_def split: option.splits)
  show "computes m n ss x v \<sigma>"
    unfolding ss c(2)
    by (rule computes_IntBin [OF operand_int [OF l assms(1) ab(1)] _ c(1)], rule operand_int [OF r assms(2)])
       (use ab(2) ev_agree [OF assms(3)] in auto)
qed

lemma translates_ass:
  assumes "arith_typing ty" "\<forall>t\<in>set ts. translates ty t \<and> list_all user_name (reads t)"
  shows "translates ty (Ass op ts)"
proof (rule translatesI)
  fix m k ss x n \<sigma> v
  assume g: "to_ir ty (Ass op ts) m = Inr ((k, ss, x), n)" and "ev ty \<sigma> (Ass op ts) = Some v"
  then have v: "ass_value op (map (\<lambda>t. ev ty \<sigma> t) ts) (map (\<lambda>t. int_operand (ty t) (ev ty \<sigma> t)) ts) = Some v"
    by (simp del: to_ir.simps)
  show "computes m n ss x v \<sigma>"
  proof (cases "op = And \<or> op = Or")
    case True
    then obtain bs where bs: "those (map (\<lambda>t. bool_operand (ev ty \<sigma> t)) ts) = Some bs" "bs \<noteq> []"
        "v = VBool (conn_value op bs)"
      using v by (auto simp: ass_value_def conn_value_def comp_def split: option.splits if_splits)
    then have "ts \<noteq> []" by auto
    then show ?thesis
      unfolding bs(3) by (rule computes_conn [OF assms(2) True _ g bs(1)])
  next
    case False
    then have op: "op = Add \<or> op = Mul" using v by (cases op) (auto simp: ass_value_def)
    then obtain ks z where ks: "those (map (\<lambda>t. int_operand (ty t) (ev ty \<sigma> t)) ts) = Some ks"
        "from_right (arith_fun op) ks = Some z" "v = VInt z"
      using v by (auto simp: ass_value_def arith_fun_def split: option.splits)
    show ?thesis
      unfolding ks(3) by (rule computes_arith [OF assms(2) op assms(1) g ks(1,2)])
  qed
qed

lemma translates_relation:
  assumes "translates ty l" "translates ty r" "list_all user_name (reads r)"
  shows "translates ty (Relation op l r)"
proof (rule translatesI)
  fix m k ss x n \<sigma> v
  assume g: "to_ir ty (Relation op l r) m = Inr ((k, ss, x), n)" and v: "ev ty \<sigma> (Relation op l r) = Some v"
  obtain ls y j rs z o' where l: "to_ir_basic_expr (ty l) (to_ir ty l) m = Inr ((ls, y), j)"
      and r: "to_ir_basic_expr (ty r) (to_ir ty r) j = Inr ((rs, z), n)" and o': "ir_rel_op op = Inr o'"
      and ss: "ss = ls @ rs" "x = IrRel o' y z"
    using g by (auto simp: relation_to_ir_def bind_gen_Inr split: if_splits)
  obtain a b where ab: "ev ty \<sigma> l = Some a" "ev ty \<sigma> r = Some b"
    using v o' by (auto simp: rel_op_value_def split: option.splits val.splits)
  have i: "\<And>c. a = VInt c \<Longrightarrow> in_bounds (to_integer (ty l)) c" "\<And>c. b = VInt c \<Longrightarrow> in_bounds (to_integer (ty r)) c"
    using v o' ab by (auto simp: rel_op_value_def int_operand_Some split: val.splits if_splits)
  have k: "(\<exists>c d. a = VInt c \<and> b = VInt d \<and> v = VBool (rel_value o' c d))
      \<or> (\<exists>c d. a = VBool c \<and> b = VBool d \<and> (o' = EqualRel \<and> v = VBool (c = d) \<or> o' = NotEqualRel \<and> v = VBool (c \<noteq> d)))"
    using v o' ab by (auto simp: rel_op_value_def split: val.splits if_splits ir_rel.splits)
  have "computes m j ls y a \<sigma>"
    by (rule computes_basic_expr [OF l]) (use translatesD [OF assms(1)] ab(1) i(1) in auto)
  moreover have "computes j n rs z b \<sigma>'" if "agree m j \<sigma> \<sigma>'" for \<sigma>'
    by (rule computes_basic_expr [OF r]) (use translatesD [OF assms(2)] ab(2) ev_agree [OF assms(3) that] i(2) in auto)
  ultimately obtain \<sigma>' where "m \<le> n" "keys_in m n y" "keys_in m n z" "run (ls @ rs) \<sigma> = Continue \<sigma>'" "agree m n \<sigma> \<sigma>'"
      "tac_val \<sigma>' y = Some a" "tac_val \<sigma>' z = Some b"
    using computes_both by metis
  then show "computes m n ss x v \<sigma>"
    unfolding ss using k int_not_bool [of y]
    by (intro computesI [of m n _ _ \<sigma> \<sigma>']) (auto simp: keys_in_def tac_val_int tac_val_bool)
qed

lemma variable_to_ir_var:
  "variable_to_ir i t = Inr (k, ss, x) \<Longrightarrow> is_basic x \<and> is_var x \<and> var_name x = i \<and> ss = []"
  by (auto simp: variable_to_ir_def assert_res_def split: if_splits)

lemma basic_variable:
  assumes "to_ir_basic_expr t (lift_gen (variable_to_ir i u)) m = Inr ((ss, x), n)"
  shows "ss = [] \<and> n = m \<and> is_var x \<and> var_name x = i"
  using assms variable_to_ir_var [of i u]
  by (auto simp: to_ir_basic_expr_def bind_gen_Inr lift_gen_Inr split: if_splits)

lemma translates_attribute:
  assumes "list_all user_name (reads p)"
  shows "translates ty (Attribute a p)"
proof (rule translatesI)
  fix m k ss x n \<sigma> v
  assume g: "to_ir ty (Attribute a p) m = Inr ((k, ss, x), n)" and "ev ty \<sigma> (Attribute a p) = Some v"
  then have v: "attribute_value \<sigma> ty a p = Some v" by (simp del: to_ir.simps)
  show "computes m n ss x v \<sigma>"
  proof (cases "field_attribute a p")
    case None
    then obtain i y where i: "p = Variable i" "attribute_to_ir a (ty p) i = Inr y" "tac_val \<sigma> y = Some v"
      using v by (auto simp: attribute_value_def split: expr.splits sum.splits)
    moreover have "ss = [] \<and> n = m \<and> x = y"
      using g None i by (auto simp: prefix_attribute_to_ir_def bind_gen_Inr lift_gen_Inr dest!: basic_variable)
    ultimately show ?thesis
      using assms attribute_keys by (auto intro!: computes_leaf)
  next
    case (Some r)
    obtain fa q f where r: "r = (fa, q, f)" by (cases r)
    then obtain i where i: "q = Variable i" "tac_val \<sigma> (FieldAccessAttr fa i f (ty q)) = Some v"
      using Some v by (auto simp: attribute_value_def split: expr.splits)
    have "user_name i"
      using field_attribute_Some [of a p fa q f] Some r i(1) assms by auto
    moreover have "ss = [] \<and> n = m \<and> x = FieldAccessAttr fa i f (ty q)"
      using g Some r i by auto
    ultimately show ?thesis
      using i field_attribute_keys by (auto intro!: computes_leaf)
  qed
qed

lemma translates_selected:
  assumes "list_all user_name (reads p)"
  shows "translates ty (Selected p f)"
proof (rule translatesI)
  fix m k ss x n \<sigma> v
  assume g: "to_ir ty (Selected p f) m = Inr ((k, ss, x), n)" and "ev ty \<sigma> (Selected p f) = Some v"
  then have "selected_value \<sigma> ty p f = Some v" by (simp del: to_ir.simps)
  then obtain i y where i: "p = Variable i" "field_access_to_ir (ty (Selected p f)) i f (ty p) = Inr y" "tac_val \<sigma> y = Some v"
    by (auto simp: selected_value_def split: expr.splits sum.splits)
  obtain ls z j where z: "to_ir_basic_expr (ty p) (lift_gen (variable_to_ir i (ty p))) m = Inr ((ls, z), j)"
    using g i(1) by (auto simp: selected_to_ir_def bind_gen_Inr)
  have "ls = [] \<and> j = m \<and> is_var z \<and> var_name z = i"
    by (rule basic_variable [OF z])
  then have "ss = [] \<and> n = m \<and> x = y"
    using g i z by (cases z) (auto simp: selected_to_ir_def bind_gen_Inr lift_gen_Inr)
  then show "computes m n ss x v \<sigma>"
    using i assms field_access_keys by (auto intro!: computes_leaf)
qed

lemma translates_none: "(\<And>\<sigma>. ev ty \<sigma> e = None) \<Longrightarrow> translates ty e"
  by (rule translatesI) simp

section \<open>The translation preserves values\<close>

lemma to_ir_translates:
  assumes "arith_typing ty"
  shows "list_all user_name (reads e) \<Longrightarrow> translates ty e"
proof (induction e)
  case (Ass op ts)
  then show ?case
    by (intro translates_ass [OF assms]) (auto simp: list_all_iff)
qed (auto intro: translates_number translates_variable translates_literal translates_not translates_neg
      translates_math translates_relation translates_attribute translates_selected translates_none)


definition example_typing :: typing where
  "example_typing e =
     (case e of
        Variable i \<Rightarrow> if i = ''B'' then BOOLEAN else Integer ''P::T'' (0, 255)
      | Relation op l r \<Rightarrow> BOOLEAN
      | NotE e \<Rightarrow> BOOLEAN
      | Ass op ts \<Rightarrow> if is_bool_op op then BOOLEAN else BASE_INTEGER
      | _ \<Rightarrow> UniversalInteger (1, 1))"

definition example_expr :: expr where
  "example_expr =
     Ass And
       [Variable ''B'',
        Relation Less (Ass Add [Variable ''X'', Variable ''Y'', Number 1 10]) (Number 10 10),
        NotE (Variable ''B'')]"

definition example_env :: env where
  "example_env = \<lparr>ints = (\<lambda>i. if i = ''X'' then 3 else 4), bools = (\<lambda>i. i = ''B'')\<rparr>"

lemma example_arith: "arith_typing example_typing"
  by (auto simp: arith_typing_def example_typing_def to_integer_def BASE_INTEGER_def)

text \<open>Evaluation from the outside in.\<close>

lemma lazy_bind: "bind_gen m f = bind_gen m f" by (rule refl)

lemma lazy_bind_res: "m = m' \<Longrightarrow> bind_res m f = bind_res m' f" by simp

lemma lazy_assert: "b = b' \<Longrightarrow> assert_gen b m = assert_gen b' m" by simp

lemma lazy_basic:
  "to_ir_basic_int t m = to_ir_basic_int t m" "to_ir_basic_bool t m = to_ir_basic_bool t m"
  "to_ir_basic_expr t m = to_ir_basic_expr t m"
  by (rule refl)+


end
