(* ===== verification/Tac_Gen_Names.thy ===== *)
theory Tac_Gen_Names
  imports Tac_Gen_Correct
begin

text \<open>
  The variables that the translation to three-address code declares: every translation uses names of its
  own from the generator, so that no two of them declare the same variable.
\<close>

section \<open>Generated variables\<close>

text \<open>The variables declared by statements, without those inside selectors and conditions.\<close>

fun declared :: "ir_stmt list \<Rightarrow> ident list" where
  "declared [] = []"
| "declared (VarDecl i t c # ss) = i # declared ss"
| "declared (s # ss) = declared ss"

lemma declared_append [simp]: "declared (xs @ ys) = declared xs @ declared ys"
  by (induction xs rule: declared.induct) auto

text \<open>The declared variables are distinct and generated from \<open>m\<close> to \<open>n - 1\<close>.\<close>

definition new_vars :: "nat \<Rightarrow> nat \<Rightarrow> ir_stmt list \<Rightarrow> bool" where
  "new_vars m n ss = (m \<le> n \<and> distinct (declared ss) \<and> set (declared ss) \<subseteq> set (map fresh [m..<n]))"

definition makes :: "('a \<Rightarrow> ir_stmt list) \<Rightarrow> 'a gen \<Rightarrow> bool" where
  "makes f M = (\<forall>m r n. M m = Inr (r, n) \<longrightarrow> new_vars m n (f r))"

abbreviation result_stmts :: "ir_result \<Rightarrow> ir_stmt list" where
  "result_stmts r \<equiv> fst (snd r)"

lemma makesD: "makes f M \<Longrightarrow> M m = Inr (r, n) \<Longrightarrow> new_vars m n (f r)"
  by (simp add: makes_def)

lemma new_vars_Nil [simp]: "m \<le> n \<Longrightarrow> new_vars m n []"
  by (simp add: new_vars_def)

lemma new_vars_le: "new_vars m n ss \<Longrightarrow> m \<le> n"
  by (simp add: new_vars_def)

lemma new_vars_mono: "new_vars m n ss \<Longrightarrow> m' \<le> m \<Longrightarrow> n \<le> n' \<Longrightarrow> new_vars m' n' ss"
  by (auto simp: new_vars_def)

lemma new_vars_disjoint:
  assumes "new_vars m k xs" "new_vars k' n ys" "k \<le> k'"
  shows "set (declared xs) \<inter> set (declared ys) = {}"
proof -
  have "fresh ` {m..<k} \<inter> fresh ` {k'..<n} = {}" using assms(3) by auto
  then show ?thesis using assms(1,2) by (auto simp: new_vars_def)
qed

lemma new_vars_append: "new_vars m k xs \<Longrightarrow> new_vars k n ys \<Longrightarrow> new_vars m n (xs @ ys)"
  using new_vars_disjoint [of m k xs k n ys] by (fastforce simp: new_vars_def)

lemma new_vars_swap: "new_vars m k xs \<Longrightarrow> new_vars k n ys \<Longrightarrow> new_vars m n (ys @ xs)"
  using new_vars_append [of m k xs n ys] by (auto simp: new_vars_def)

lemma new_vars_store: "new_vars m n ss \<Longrightarrow> new_vars m (Suc n) (ss @ [VarDecl (fresh n) t c, Assign (fresh n) x u])"
  by (auto simp: new_vars_def)

lemma new_vars_decl: "new_vars m n ss \<Longrightarrow> new_vars m (Suc n) (ss @ [VarDecl (fresh n) t c])"
  by (auto simp: new_vars_def)

lemma makes_basic_int: "makes result_stmts M \<Longrightarrow> makes fst (to_ir_basic_int t M)"
  by (auto simp: makes_def to_ir_basic_int_def bind_gen_Inr new_vars_store split: if_splits)

lemma makes_basic_bool: "makes result_stmts M \<Longrightarrow> makes fst (to_ir_basic_bool t M)"
  by (auto simp: makes_def to_ir_basic_bool_def bind_gen_Inr new_vars_store split: if_splits)

lemma makes_basic_expr: "makes result_stmts M \<Longrightarrow> makes fst (to_ir_basic_expr t M)"
  by (auto simp: makes_def to_ir_basic_expr_def bind_gen_Inr new_vars_store new_vars_decl split: if_splits)

lemma makes_seq:
  "(\<And>x. x \<in> set xs \<Longrightarrow> makes f (g x)) \<Longrightarrow> makes (\<lambda>rs. concat (map f rs)) (seq_gen g xs)"
proof (induction xs)
  case (Cons x xs)
  then have x: "makes f (g x)" and xs: "makes (\<lambda>rs. concat (map f rs)) (seq_gen g xs)" by auto
  show ?case
    by (auto simp: makes_def bind_gen_Inr intro: new_vars_append dest!: makesD [OF x] makesD [OF xs])
qed (simp add: makes_def)

lemma makes_rest:
  assumes "new_vars m j ls" "new_vars (Suc j) n rs"
  shows "new_vars m n (rs @ VarDecl (fresh j) t c # Assign (fresh j) x u # ls)"
  using assms new_vars_disjoint [OF assms] by (fastforce simp: new_vars_def)

lemma makes_rest':
  assumes "new_vars (Suc m) j ls" "new_vars j n rs"
  shows "new_vars m n (rs @ VarDecl (fresh m) t c # Assign (fresh m) x u # ls)"
  using assms new_vars_disjoint [OF assms] by (fastforce simp: new_vars_def)

lemma ass_cases:
  obtains "ts = []" | l where "ts = [l]" | l r where "ts = [l, r]" | l r r' rest where "ts = l # r # r' # rest"
  by (metis list.exhaust)

text \<open>The combinators of the translation.\<close>

lemma makes_return [simp]: "makes f (return_gen x) \<longleftrightarrow> (\<forall>m. new_vars m m (f x))"
  by (auto simp: makes_def)

lemma makes_assert: "makes f M \<Longrightarrow> makes f (assert_gen b M)"
  by (simp add: makes_def)

lemma makes_fail [simp]: "makes f (fail_gen e)"
  by (simp add: makes_def)

lemma makes_neg: "makes fst M \<Longrightarrow> makes result_stmts (neg_to_ir t M)"
  by (auto simp: makes_def neg_to_ir_def bind_gen_Inr)

lemma makes_two:
  assumes "makes fst L" "makes fst R"
  shows "makes result_stmts (math_to_ir op t L R)" "makes result_stmts (relation_to_ir rop L R)"
  by (auto simp: makes_def math_to_ir_def relation_to_ir_def bind_gen_Inr intro: new_vars_append
      dest!: makesD [OF assms(1)] makesD [OF assms(2)])

lemma makes_prefix:
  assumes "makes fst M"
  shows "makes result_stmts (selected_to_ir t u f M)" "makes result_stmts (prefix_attribute_to_ir a t M)"
  by (auto simp: makes_def selected_to_ir_def prefix_attribute_to_ir_def bind_gen_Inr
      split: ir_expr.split_asm dest!: makesD [OF assms])

lemma makes_one:
  assumes "makes result_stmts M"
  shows "makes result_stmts (head_to_ir M)" "makes result_stmts (conversion_to_ir t M)"
  by (auto simp: makes_def head_to_ir_def conversion_to_ir_def bind_gen_Inr
      split: ir_expr.split_asm dest!: makesD [OF assms])

lemma makes_later: "makes f M \<Longrightarrow> M k = Inr (r, n) \<Longrightarrow> new_vars m k ss \<Longrightarrow> new_vars m n ss"
  using new_vars_le [of k n "f r"] by (auto simp: makes_def intro: new_vars_mono)

lemma makes_le: "makes f M \<Longrightarrow> M k = Inr (r, n) \<Longrightarrow> k \<le> n"
  using new_vars_le [of k n "f r"] by (auto simp: makes_def)

lemma new_vars_two: "new_vars m k ss \<Longrightarrow> k \<le> j \<Longrightarrow> j \<le> n \<Longrightarrow> new_vars m n ss"
  using new_vars_mono [of m k ss m n] by auto

lemma makes_if:
  assumes "makes fst C" "makes result_stmts A" "makes result_stmts B"
  shows "makes result_stmts (if_to_ir t ta tb C A B)"
  by (cases "ty_eq ta BOOLEAN \<and> ty_eq tb BOOLEAN")
    (auto simp: makes_def if_to_ir_def bind_gen_Inr
      dest!: makesD [OF assms(1)] makes_le [OF assms(2)] makes_le [OF assms(3)] intro: new_vars_two)

lemma makes_comprehension:
  assumes "makes result_stmts Q" "makes result_stmts S" "makes result_stmts C"
  shows "makes result_stmts (comprehension_to_ir i Q S C)"
  by (auto simp: makes_def comprehension_to_ir_def bind_gen_Inr
      dest!: makesD [OF assms(1)] makes_le [OF assms(2)] makes_le [OF assms(3)] intro: new_vars_two)

lemma makes_aggregate:
  assumes "makes (\<lambda>rs. concat (map fst rs)) M"
  shows "makes result_stmts (aggregate_to_ir t M)"
  using assms by (auto simp: makes_def aggregate_to_ir_def bind_gen_Inr)

lemma makes_case:
  assumes "makes fst M" "makes (\<lambda>rs. concat (map (\<lambda>_. []) rs)) Cs"
  shows "makes result_stmts (case_to_ir t M Cs)"
  by (auto simp: makes_def case_to_ir_def bind_gen_Inr dest!: makesD [OF assms(1)] intro: makes_later [OF assms(2)])

lemma makes_branch: "makes fst M \<Longrightarrow> makes (\<lambda>_. []) (case_branch_to_ir t c M)"
  by (auto simp: makes_def case_branch_to_ir_def bind_gen_Inr dest!: new_vars_le)

lemma makes_result: "makes result_stmts M \<Longrightarrow> makes (\<lambda>(f, k, ss, x). ss) (bind_gen M (\<lambda>r. return_gen (f, r)))"
  by (auto simp: makes_def bind_gen_Inr)

lemmas makes_parts = makes_basic_int makes_basic_bool makes_basic_expr makes_neg makes_two makes_prefix makes_one
  makes_if makes_comprehension makes_aggregate makes_case makes_assert

lemma makes_to_ir: "makes result_stmts (to_ir ty e)"
proof (induction e rule: measure_induct_rule [where f = weight])
  case (less e)
  show ?case
  proof (cases e)
    case (Ass op ts)
    have ih: "makes result_stmts (to_ir ty t)" if "t \<in> set ts" for t
      using that Ass weight_mem [of t ts] by (intro less) simp
    show ?thesis
      unfolding Ass
    proof (cases ts rule: ass_cases)
      case 1
      then show "makes result_stmts (to_ir ty (Ass op ts))" by (simp add: makes_def)
    next
      case (2 l)
      then have l: "makes result_stmts (to_ir ty l)" by (simp add: ih)
      show "makes result_stmts (to_ir ty (Ass op ts))"
        unfolding 2 makes_def
        by (cases "is_bool_op op")
          (auto simp: to_ir_conn1 to_ir_arith1 bind_gen_Inr simp del: to_ir.simps
            dest!: makesD [OF makes_basic_bool [OF l]] makesD [OF makes_basic_int [OF l]])
    next
      case (3 l r)
      then have l: "makes result_stmts (to_ir ty l)" and r: "makes result_stmts (to_ir ty r)" by (simp_all add: ih)
      show "makes result_stmts (to_ir ty (Ass op ts))"
        unfolding 3 makes_def
        by (cases "is_bool_op op")
          (auto simp: to_ir_conn2 to_ir_arith2 bind_gen_Inr simp del: to_ir.simps intro: new_vars_append
            dest!: makesD [OF makes_basic_bool [OF l]] makesD [OF makes_basic_int [OF l]]
              makesD [OF makes_basic_bool [OF r]] makesD [OF makes_basic_int [OF r]])
    next
      case (4 l r r' rest)
      then have l: "makes result_stmts (to_ir ty l)" by (simp add: ih)
      have r: "makes result_stmts (to_ir ty (Ass op (r # r' # rest)))"
        using 4 Ass by (intro less) simp
      show "makes result_stmts (to_ir ty (Ass op ts))"
        unfolding 4 makes_def
        by (cases "is_bool_op op")
          (auto simp: to_ir_conn3 to_ir_arith3 bind_gen_Inr Let_def simp del: to_ir.simps intro: makes_rest makes_rest'
            dest!: makesD [OF makes_basic_bool [OF l]] makesD [OF makes_basic_int [OF l]] makesD [OF r])
    qed
  next
    case (Call i es)
    have "makes result_stmts (to_ir ty t)" if "t \<in> set es" for t
      using that Call weight_mem [of t es] by (intro less) simp
    then have "makes (\<lambda>rs. concat (map result_stmts rs)) (seq_gen (\<lambda>e. to_ir ty e) es)"
      by (rule makes_seq)
    then show ?thesis
      by (auto simp: Call makes_def bind_gen_Inr case_prod_unfold)
  next
    case (MessageAggregate d i fs)
    have "makes result_stmts (to_ir ty t)" if "(f, t) \<in> set fs" for f t
      using that MessageAggregate weight_in_pairs [of f t fs] by (intro less) simp
    then have "makes (\<lambda>rs. concat (map (\<lambda>(f, k, ss, x). ss) rs))
        (seq_gen (\<lambda>(f, e). bind_gen (to_ir ty e) (\<lambda>r. return_gen (f, r))) fs)"
      by (intro makes_seq) (auto intro: makes_result)
    then show ?thesis
      by (auto simp: MessageAggregate makes_def message_aggregate_to_ir_def bind_gen_Inr)
  next
    case (CaseExpr x cs)
    have "makes result_stmts (to_ir ty t)" if "(c, t) \<in> set cs" for c t
      using that CaseExpr weight_in_pairs [of c t cs] by (intro less) simp
    then have "makes (\<lambda>rs. concat (map (\<lambda>_. []) rs))
        (seq_gen (\<lambda>(choice, b). case_branch_to_ir (ty x) choice (to_ir_basic_expr (ty b) (to_ir ty b))) cs)"
      by (intro makes_seq) (auto intro: makes_branch makes_basic_expr)
    then show ?thesis
      using less [of x] by (auto simp: CaseExpr intro!: makes_parts)
  next
    case (Aggregate es)
    have "makes result_stmts (to_ir ty t)" if "t \<in> set es" for t
      using that Aggregate weight_mem [of t es] by (intro less) simp
    then show ?thesis
      by (auto simp: Aggregate intro!: makes_parts makes_seq)
  next
    case (Comprehension i sq sel cond)
    have ih: "new_vars m n ss" if "weight c \<le> weight cond" "to_ir ty c m = Inr ((k, ss, x), n)" for c m n k ss x
      using that makesD [OF less [of c], of m "(k, ss, x)" n] by (simp add: Comprehension)
    have "makes result_stmts (bind_gen (lift_gen (simplified cond)) (\<lambda>c. to_ir ty c))"
      by (auto simp: makes_def bind_gen_Inr Comprehension dest!: simplified_weight intro: ih)
    then show ?thesis
      by (auto simp: Comprehension intro!: makes_parts less)
  next
    case (IfExpr ces els)
    show ?thesis
    proof (cases "(ces, els)" rule: prod.exhaust)
      case (Pair a b)
      then show ?thesis
        using less by (auto simp: IfExpr intro!: makes_parts split: list.splits option.splits)
    qed
  next
    case (Attribute a p)
    show ?thesis
    proof (cases "field_attribute a p")
      case None
      have p: "makes result_stmts (to_ir ty p)" by (rule less) (simp add: Attribute)
      have t: "makes result_stmts (case p of
          TypeName i \<Rightarrow> bind_gen (lift_gen (attribute_to_ir a (ty p) i)) (\<lambda>x. return_gen (ObjKind, [], x))
        | _ \<Rightarrow> fail_gen AssertionError)"
        by (cases p) (auto simp: makes_def bind_gen_Inr)
      show ?thesis
        unfolding Attribute to_ir.simps None option.case
        by (intro makes_assert) (auto simp: t simp del: to_ir.simps intro: makes_parts p)
    next
      case (Some r)
      obtain fa q f where "r = (fa, q, f)" by (cases r)
      then show ?thesis by (cases q) (auto simp: Attribute Some makes_def)
    qed
  next
    case (NotE x)
    show ?thesis
      using makesD [OF makes_basic_bool [OF less [of x]]] by (auto simp: NotE makes_def bind_gen_Inr)
  next
    case (Neg x)
    show ?thesis
      unfolding Neg by (simp, intro makes_parts less) (simp add: Neg)
  next
    case (MathBin op l r)
    show ?thesis
      unfolding MathBin by (simp, intro makes_parts less) (simp_all add: MathBin)
  next
    case (Relation op l r)
    show ?thesis
      unfolding Relation by (simp, intro impI makes_parts less) (simp_all add: Relation)
  next
    case (Selected p f)
    show ?thesis
      unfolding Selected by (simp, intro makes_parts less) (simp_all add: Selected)
  next
    case (Conversion i x)
    show ?thesis
      unfolding Conversion by (simp, intro makes_parts less) (simp_all add: Conversion)
  qed (auto simp: makes_def literal_to_ir_def variable_to_ir_def assert_res_def)
qed

end
