(* ===== verification/Type_Decl.thy ===== *)
theory Type_Decl
  imports Message_Graph Types
begin

text \<open>
  The type declarations of specifications (\<open>rflx/model/type_decl.py\<close>): integers, enumerations and
  sequences with the checks of their constructors, their static types, numbers of values and the
  constraints handed to the prover, and the tables of literals and type names.
\<close>

section \<open>Checked construction\<close>

text \<open>
  A constructor raises an exception of Python, collects errors and raises them together
  (\<open>error.propagate\<close>), or returns the object.
\<close>

datatype decl_error =
    InvalidIdentifier
  | ValueOutOfBounds
  | ContainsVariable string
  | ContainsAggregate string
  | NotAnInteger string
  | LastExceedsLimit
  | FirstNegative
  | RangeNegative
  | SizeTooSmall
  | SizeExceedsLimit
  | DuplicateLiteral ident
  | InvalidLiteral ident
  | SizeContainsVariable
  | ValueOutsideRange
  | DuplicateValue int
  | UnnecessaryAlwaysValid
  | InvalidElementType
  | UnsupportedElementSize
  | NullElement
  | ParameterizedElement
  | SizeDependentElement

datatype 'a checked = Crash py_error | Rejected "decl_error list" | Accepted 'a

definition run_checked :: "'a res \<Rightarrow> ('a \<Rightarrow> 'b checked) \<Rightarrow> 'b checked" where
  "run_checked m f = (case m of Inl e \<Rightarrow> Crash e | Inr x \<Rightarrow> f x)"

definition propagate :: "decl_error list \<Rightarrow> 'a checked \<Rightarrow> 'a checked" where
  "propagate errors m = (if errors = [] then m else Rejected errors)"

lemma run_checked_Accepted [simp]: "run_checked m f = Accepted y \<longleftrightarrow> (\<exists>x. m = Inr x \<and> f x = Accepted y)"
  by (cases m) (auto simp: run_checked_def)

lemma run_checked_Inr [simp]: "run_checked (Inr x) f = f x"
  by (simp add: run_checked_def)

lemma propagate_Accepted [simp]: "propagate es m = Accepted y \<longleftrightarrow> es = [] \<and> m = Accepted y"
  by (auto simp: propagate_def)

definition error_if :: "bool \<Rightarrow> decl_error \<Rightarrow> decl_error list" where
  "error_if b e = (if b then [e] else [])"

lemma error_if_Nil [simp]: "error_if b e = [] \<longleftrightarrow> \<not> b"
  by (simp add: error_if_def)

text \<open>\<open>_check_identifier\<close>: a package and a name.\<close>

definition check_identifier :: "ident \<Rightarrow> decl_error list" where
  "check_identifier i = error_if (length (id_parts i) \<noteq> 2) InvalidIdentifier"

text \<open>\<open>int.bit_length\<close>.\<close>

fun bit_length_nat :: "nat \<Rightarrow> nat" where
  "bit_length_nat n = (if n = 0 then 0 else Suc (bit_length_nat (n div 2)))"

declare bit_length_nat.simps [simp del]

definition bit_length :: "int \<Rightarrow> nat" where
  "bit_length n = bit_length_nat (nat \<bar>n\<bar>)"

lemma bit_length_nat_le: "bit_length_nat n \<le> s \<longleftrightarrow> n < 2 ^ s"
proof (induction n arbitrary: s rule: bit_length_nat.induct)
  case (1 n)
  show ?case
  proof (cases "n = 0")
    case False
    then show ?thesis
      using 1 [OF False, of "s - 1"] by (cases s) (auto simp: bit_length_nat.simps [of n])
  qed (simp add: bit_length_nat.simps)
qed

lemma bit_length_le: "0 \<le> n \<Longrightarrow> bit_length n \<le> s \<longleftrightarrow> n < 2 ^ s"
  by (simp add: bit_length_def bit_length_nat_le nat_less_iff)

section \<open>Integers\<close>

record integer_decl =
  int_identifier :: ident
  int_first :: int
  int_last :: int
  int_size :: int

text \<open>
  The value of a bound or size: an overflow is reported as an error, with the value 0 in place of it.
\<close>

definition simplify :: "expr \<Rightarrow> (expr \<times> decl_error list) res" where
  "simplify e =
     (case simplified e of
        Inl OverflowError \<Rightarrow> Inr (Number 0 0, [ValueOutOfBounds])
      | Inl x \<Rightarrow> Inl x
      | Inr e' \<Rightarrow> Inr (e', []))"

definition invalid_type_error :: "expr \<Rightarrow> string \<Rightarrow> decl_error list res" where
  "invalid_type_error e position =
     bind_res (variables e) (\<lambda>vs.
       Inr (if vs \<noteq> [] then map (\<lambda>_. ContainsVariable position) vs
            else if is_aggregate e then [ContainsAggregate position]
            else [NotAnInteger position]))"

definition number_error :: "expr \<Rightarrow> string \<Rightarrow> decl_error list res" where
  "number_error e position =
     (if number_value e = None then invalid_type_error e position else Inr [])"

definition range_errors :: "int \<Rightarrow> int \<Rightarrow> int \<Rightarrow> decl_error list" where
  "range_errors fst_e lst sz =
     error_if (fst_e < 0) FirstNegative @ error_if (fst_e > lst) RangeNegative
     @ error_if (int (bit_length lst) > sz) SizeTooSmall
     @ error_if (sz > int max_scalar_size) SizeExceedsLimit"

definition make_integer :: "ident \<Rightarrow> expr \<Rightarrow> expr \<Rightarrow> expr \<Rightarrow> integer_decl checked" where
  "make_integer i fst_e lst sz =
     propagate (check_identifier i)
       (run_checked (simplify fst_e) (\<lambda>(f, e1).
        run_checked (simplify lst) (\<lambda>(l, e2).
        run_checked (simplify sz) (\<lambda>(s, e3).
          propagate (e1 @ e2 @ e3)
            (run_checked (number_error f ''first'') (\<lambda>fe.
             run_checked (number_error l ''last'') (\<lambda>le.
               case number_value l of
                 None \<Rightarrow> Rejected (fe @ le)
               | Some lv \<Rightarrow>
                   run_checked (number_error s ''size'') (\<lambda>se.
                     case (number_value f, number_value s) of
                       (Some fn, Some sn) \<Rightarrow>
                         propagate (error_if (lv \<ge> 2 ^ max_scalar_size) LastExceedsLimit)
                           (propagate (range_errors fn lv sn)
                             (Accepted \<lparr>int_identifier = i, int_first = fn, int_last = lv, int_size = sn\<rparr>))
                     | _ \<Rightarrow> Rejected (fe @ error_if (lv \<ge> 2 ^ max_scalar_size) LastExceedsLimit @ se)))))))))"

definition make_unsigned :: "ident \<Rightarrow> expr \<Rightarrow> integer_decl checked" where
  "make_unsigned i sz =
     make_integer i (Number 0 0) (MathBin Sub (MathBin Pow (Number 2 0) sz) (Number 1 0)) sz"

definition integer_type :: "integer_decl \<Rightarrow> ty" where
  "integer_type d = Integer (int_identifier d) (int_first d, int_last d)"

definition integer_value_count :: "integer_decl \<Rightarrow> int" where
  "integer_value_count d = int_last d - int_first d + 1"

definition integer_constraints :: "integer_decl \<Rightarrow> ident \<Rightarrow> expr list" where
  "integer_constraints d name =
     [Relation GreaterEqual (Variable name) (Number (int_first d) 0),
      Relation LessEqual (Variable name) (Number (int_last d) 0),
      Relation Equal (Attribute Size (Variable name)) (Number (int_size d) 0)]"

text \<open>The style check \<open>integer-syntax\<close>.\<close>

definition covers_entire_range :: "integer_decl \<Rightarrow> bool" where
  "covers_entire_range d = (int_first d = 0 \<and> 0 \<le> int_size d \<and> int_last d = 2 ^ nat (int_size d) - 1)"

section \<open>Enumerations\<close>

record enum_decl =
  enum_identifier :: ident
  enum_literals :: "(ident \<times> int) list"
  enum_size :: int
  always_valid :: bool

text \<open>A dictionary with identifiers as keys, which are compared ignoring case.\<close>

fun id_set :: "ident \<Rightarrow> 'a \<Rightarrow> (ident \<times> 'a) list \<Rightarrow> (ident \<times> 'a) list" where
  "id_set k v [] = [(k, v)]"
| "id_set k v ((k', v') # d) = (if id_eq k k' then (k', v) # d else (k', v') # id_set k v d)"

definition invalid_name :: "ident \<Rightarrow> bool" where
  "invalid_name k = (CHR '' '' \<in> set k \<or> CHR ''.'' \<in> set k)"

text \<open>For each literal the earlier ones of the same name, and for each value the later equal ones.\<close>

fun duplicate_literals :: "ident list \<Rightarrow> ident list \<Rightarrow> decl_error list" where
  "duplicate_literals seen [] = []"
| "duplicate_literals seen (k # ks) =
     map (\<lambda>_. DuplicateLiteral k) (filter (\<lambda>j. id_eq k j) seen) @ duplicate_literals (seen @ [k]) ks"

fun duplicate_values :: "int list \<Rightarrow> decl_error list" where
  "duplicate_values [] = []"
| "duplicate_values (v # vs) = map DuplicateValue (filter (\<lambda>w. v = w) vs) @ duplicate_values vs"

definition literal_dict :: "(ident \<times> int) list \<Rightarrow> (ident \<times> int) list" where
  "literal_dict ls = fold (\<lambda>(k, v). id_set k v) (filter (\<lambda>(k, v). \<not> invalid_name k) ls) []"

definition literal_errors :: "(ident \<times> int) list \<Rightarrow> decl_error list" where
  "literal_errors ls =
     duplicate_literals [] (map fst ls)
     @ map (\<lambda>(k, v). InvalidLiteral k) (filter (\<lambda>(k, v). invalid_name k) ls)"

definition value_errors :: "int list \<Rightarrow> int \<Rightarrow> bool \<Rightarrow> decl_error list" where
  "value_errors vs sz valid =
     (if vs = [] then []
      else
        error_if (Min (set vs) < 0 \<or> Max (set vs) > 2 ^ max_scalar_size - 1) ValueOutsideRange
        @ error_if (int (bit_length (Max (set vs))) > sz) SizeTooSmall)
     @ error_if (sz > int max_scalar_size) SizeExceedsLimit
     @ duplicate_values vs
     @ error_if (valid \<and> 0 \<le> sz \<and> int (length vs) = 2 ^ nat sz) UnnecessaryAlwaysValid"

definition make_enumeration :: "ident \<Rightarrow> (ident \<times> int) list \<Rightarrow> expr \<Rightarrow> bool \<Rightarrow> enum_decl checked" where
  "make_enumeration i ls sz valid =
     propagate (check_identifier i)
       (run_checked (simplified sz) (\<lambda>s.
          let d = literal_dict ls in
          case number_value s of
            None \<Rightarrow> Rejected (literal_errors ls @ [SizeContainsVariable])
          | Some n \<Rightarrow>
              propagate (literal_errors ls @ value_errors (map snd d) n valid)
                (Accepted
                  \<lparr>enum_identifier = i, enum_literals = d, enum_size = n, always_valid = valid\<rparr>)))"

definition enumeration_type :: "enum_decl \<Rightarrow> ty" where
  "enumeration_type d = Enumeration (enum_identifier d)"

definition enumeration_value_count :: "enum_decl \<Rightarrow> int" where
  "enumeration_value_count d =
     (if always_valid d then 2 ^ nat (enum_size d) else int (length (enum_literals d)))"

text \<open>
  The first of the values from \<open>v\<close> to \<open>2 ^ size - 1\<close> that no literal has.
\<close>

function first_unused :: "int \<Rightarrow> int \<Rightarrow> int list \<Rightarrow> int option" where
  "first_unused v limit vs =
     (if v \<ge> limit then None else if v \<in> set vs then first_unused (v + 1) limit vs else Some v)"
  by pat_completeness auto

termination
  by (relation "measure (\<lambda>(v, limit, vs). nat (limit - v))") auto

declare first_unused.simps [simp del]

definition BUILTINS_PACKAGE :: ident where
  "BUILTINS_PACKAGE = ''__BUILTINS__''"

definition INTERNAL_PACKAGE :: ident where
  "INTERNAL_PACKAGE = ''__INTERNAL__''"

definition package_of :: "ident \<Rightarrow> ident" where
  "package_of i = (case id_parent i of None \<Rightarrow> [] | Some p \<Rightarrow> p)"

definition with_dummy_literal :: "enum_decl \<Rightarrow> (ident \<times> int) list" where
  "with_dummy_literal d =
     (case first_unused 0 (2 ^ nat (enum_size d)) (map snd (enum_literals d)) of
        None \<Rightarrow> enum_literals d
      | Some v \<Rightarrow> enum_literals d @ [(''L_'' @ id_name (enum_identifier d) @ ''_'' @ int_str v, v)])"

definition constraint_literals :: "enum_decl \<Rightarrow> bool \<Rightarrow> bool \<Rightarrow> (ident \<times> int) list" where
  "constraint_literals d proof_mode same_package =
     (let ls = (if proof_mode \<and> always_valid d then with_dummy_literal d else enum_literals d);
          p = package_of (enum_identifier d);
          qs = map (\<lambda>(l, v). (id_join p l, v)) ls in
      if id_eq p BUILTINS_PACKAGE then ls
      else if same_package then fold (\<lambda>(k, v). id_set k v) qs ls
      else qs)"

definition enumeration_constraints :: "enum_decl \<Rightarrow> ident \<Rightarrow> bool \<Rightarrow> bool \<Rightarrow> expr list" where
  "enumeration_constraints d name proof_mode same_package =
     (let ls = constraint_literals d proof_mode same_package in
      Ass Or (map (\<lambda>(l, v). Relation Equal (Variable name) (Literal l)) ls)
      # map (\<lambda>(l, v). Relation Equal (Literal l) (Number v 0)) ls
      @ [Relation Equal (Attribute Size (Variable name)) (Number (enum_size d) 0)])"

section \<open>Sequences\<close>

text \<open>Of a message, the parameters, the types of its fields and the structure are relevant here.\<close>

record message_decl =
  msg_identifier :: ident
  msg_parameters :: "ident list"
  msg_types :: "(ident \<times> ty) list"
  msg_structure :: "link list"

datatype type_decl =
    IntegerDecl integer_decl
  | EnumDecl enum_decl
  | SequenceDecl ident type_decl
  | OpaqueDecl
  | MessageDecl message_decl ty

fun decl_identifier :: "type_decl \<Rightarrow> ident" where
  "decl_identifier (IntegerDecl d) = int_identifier d"
| "decl_identifier (EnumDecl d) = enum_identifier d"
| "decl_identifier (SequenceDecl i t) = i"
| "decl_identifier OpaqueDecl = id_join INTERNAL_PACKAGE ''Opaque''"
| "decl_identifier (MessageDecl m t) = msg_identifier m"

fun decl_type :: "type_decl \<Rightarrow> ty" where
  "decl_type (IntegerDecl d) = integer_type d"
| "decl_type (EnumDecl d) = enumeration_type d"
| "decl_type (SequenceDecl i t) = Sequence i (decl_type t)"
| "decl_type OpaqueDecl = OPAQUE"
| "decl_type (MessageDecl m t) = t"

fun scalar_size :: "type_decl \<Rightarrow> int option" where
  "scalar_size (IntegerDecl d) = Some (int_size d)"
| "scalar_size (EnumDecl d) = Some (enum_size d)"
| "scalar_size _ = None"

definition is_null :: "message_decl \<Rightarrow> bool" where
  "is_null m = (msg_structure m = [plain_link INITIAL FINAL] \<and> msg_types m = [])"

definition message_bound :: "expr \<Rightarrow> bool" where
  "message_bound e =
     (expr_eq (Attribute Size (Variable ''Message'')) e = Inr True
      \<or> expr_eq (Attribute Last (Variable ''Message'')) e = Inr True)"

definition size_dependent :: "message_decl \<Rightarrow> bool res" where
  "size_dependent m =
     any_res (\<lambda>e. bind_res (findall message_bound e) (\<lambda>r. Inr (r \<noteq> [])))
       (concat (map (\<lambda>l. [condition l, link_size l]) (msg_structure m)))"

definition make_sequence :: "ident \<Rightarrow> type_decl \<Rightarrow> type_decl checked" where
  "make_sequence i t =
     (let scalar_errors =
            (case scalar_size t of
               Some n \<Rightarrow> error_if (n mod 8 \<noteq> 0) UnsupportedElementSize
             | None \<Rightarrow> []) in
      case t of
        MessageDecl m mt \<Rightarrow>
          run_checked (size_dependent m) (\<lambda>dep.
            propagate
              (check_identifier i @ error_if (is_null m) NullElement
               @ error_if (msg_parameters m \<noteq> []) ParameterizedElement
               @ error_if dep SizeDependentElement)
              (Accepted (SequenceDecl i t)))
      | _ \<Rightarrow>
          propagate
            (check_identifier i @ error_if (scalar_size t = None) InvalidElementType @ scalar_errors)
            (Accepted (SequenceDecl i t)))"

fun dependencies :: "type_decl \<Rightarrow> type_decl list" where
  "dependencies (SequenceDecl i t) = dependencies t @ [SequenceDecl i t]"
| "dependencies t = [t]"

section \<open>Names of types and literals\<close>

definition is_internal_type :: "ident \<Rightarrow> bool" where
  "is_internal_type i = (id_eq i (id_join INTERNAL_PACKAGE ''Opaque'') \<or> id_eq i ''Opaque'')"

definition is_builtin_type :: "ident \<Rightarrow> bool" where
  "is_builtin_type i = (id_eq i (id_join BUILTINS_PACKAGE ''Boolean'') \<or> id_eq i ''Boolean'')"

definition internal_type_identifier :: "ident \<Rightarrow> ident option \<Rightarrow> ident" where
  "internal_type_identifier i package =
     (if is_builtin_type i then id_join BUILTINS_PACKAGE (id_name i)
      else if is_internal_type i then id_join INTERNAL_PACKAGE (id_name i)
      else case package of
        Some p \<Rightarrow> if length (id_parts i) = 1 then id_join p i else i
      | None \<Rightarrow> i)"

definition qualified_identifier :: "ident \<Rightarrow> ident" where
  "qualified_identifier i = (if is_builtin_type i \<or> is_internal_type i then id_name i else i)"

fun add_literals :: "ident \<Rightarrow> type_decl \<Rightarrow> (ident \<times> enum_decl) list \<Rightarrow> (ident \<times> enum_decl) list" where
  "add_literals package (EnumDecl d) m =
     (let p = package_of (enum_identifier d) in
      fold (\<lambda>(l, v) m.
        let m' = (if id_eq p BUILTINS_PACKAGE \<or> id_eq p package then id_set l d m else m) in
        if \<not> id_eq p BUILTINS_PACKAGE then id_set (id_join p l) d m' else m') (enum_literals d) m)"
| "add_literals package t m = m"

definition literal_table :: "type_decl list \<Rightarrow> ident \<Rightarrow> (ident \<times> enum_decl) list" where
  "literal_table ts package = fold (add_literals package) ts []"

definition qualified_type_names :: "type_decl list \<Rightarrow> (ident \<times> type_decl) list" where
  "qualified_type_names ts =
     fold (\<lambda>t. id_set
       (if id_eq (package_of (decl_identifier t)) BUILTINS_PACKAGE then id_name (decl_identifier t)
        else decl_identifier t) t) ts []"

section \<open>Accepted declarations\<close>

lemma number_value_Some: "number_value e = Some v \<longleftrightarrow> (\<exists>b. e = Number v b)"
  by (cases e) auto

lemma simplify_no_error:
  "simplify e = Inr (e', []) \<longleftrightarrow> simplified e = Inr e'"
  by (auto simp: simplify_def split: sum.splits py_error.splits)

lemma range_errors_none:
  "range_errors f l s = [] \<longleftrightarrow> 0 \<le> f \<and> f \<le> l \<and> 0 \<le> s \<and> s \<le> int max_scalar_size \<and> l < 2 ^ nat s"
proof -
  have "int (bit_length l) \<le> s \<longleftrightarrow> 0 \<le> s \<and> l < 2 ^ nat s" if "0 \<le> l"
  proof (cases "0 \<le> s")
    case True
    then show ?thesis using bit_length_le [OF that, of "nat s"] by linarith
  qed simp
  then show ?thesis by (auto simp: range_errors_def not_less)
qed

lemma number_error_none: "number_value e = Some v \<Longrightarrow> number_error e p = Inr []"
  by (simp add: number_error_def)

lemma integer_accepted:
  "make_integer i fst_e lst sz = Accepted d \<longleftrightarrow>
     length (id_parts i) = 2
     \<and> (\<exists>f l s bf bl bs. simplified fst_e = Inr (Number f bf) \<and> simplified lst = Inr (Number l bl)
         \<and> simplified sz = Inr (Number s bs) \<and> 0 \<le> f \<and> f \<le> l \<and> l < 2 ^ nat s \<and> 0 \<le> s \<and> s \<le> 63
         \<and> d = \<lparr>int_identifier = i, int_first = f, int_last = l, int_size = s\<rparr>)"
    (is "?accepted \<longleftrightarrow> ?valid")
proof
  assume ?accepted
  then show ?valid
    by (auto simp: make_integer_def check_identifier_def simplify_no_error range_errors_none max_scalar_size_def
        number_value_Some split: option.splits prod.splits)
next
  assume ?valid
  then obtain f l s bf bl bs where v: "simplified fst_e = Inr (Number f bf)" "simplified lst = Inr (Number l bl)"
      "simplified sz = Inr (Number s bs)" "0 \<le> f" "f \<le> l" "l < 2 ^ nat s" "0 \<le> s" "s \<le> 63"
      "d = \<lparr>int_identifier = i, int_first = f, int_last = l, int_size = s\<rparr>" "length (id_parts i) = 2"
    by blast
  have "(2::int) ^ nat s \<le> 2 ^ 63"
    using v(8) by (intro power_increasing) auto
  then have "l < 2 ^ 63" using v(6) by linarith
  with v show ?accepted
    by (simp add: make_integer_def check_identifier_def simplify_no_error [THEN iffD2] number_error_def range_errors_none
        max_scalar_size_def)
qed

text \<open>
  C32. An integer declaration is accepted exactly if its bounds and size are numbers and describe a
  non-empty range of non-negative values that the size can represent, with at most 63 bits; it is then
  the declaration of these numbers.
\<close>

theorem integer_accepted_iff:
  "make_integer i fst_e lst sz = Accepted d \<longleftrightarrow>
     length (id_parts i) = 2
     \<and> (\<exists>f l s bf bl bs. simplified fst_e = Inr (Number f bf) \<and> simplified lst = Inr (Number l bl)
         \<and> simplified sz = Inr (Number s bs) \<and> 0 \<le> f \<and> f \<le> l \<and> l < 2 ^ nat s \<and> 0 \<le> s \<and> s \<le> 63
         \<and> d = \<lparr>int_identifier = i, int_first = f, int_last = l, int_size = s\<rparr>)"
  by (rule integer_accepted)

lemma simplified_unsigned:
  assumes "simplified sz = Inr (Number s b)" "0 \<le> s" "s \<le> 63"
  shows "simplified (MathBin Sub (MathBin Pow (Number 2 0) sz) (Number 1 0)) = Inr (Number (2 ^ nat s - 1) 0)"
proof -
  have simp: "simp_expr n sz = Inr (Number s b)" if "weight sz < n" for n
    using simp_expr_simplified [OF that] assms(1) by simp
  define p :: int where "p = 2 ^ nat s"
  have "p \<le> 2 ^ 63" "1 \<le> p"
    using assms power_increasing [of "nat s" 63 "2::int"] by (auto simp: p_def)
  then have num: "mk_number (2 ^ nat s) = Inr (Number (2 ^ nat s) 0)" "mk_number (2 ^ nat s - 1) = Inr (Number (2 ^ nat s - 1) 0)"
    unfolding p_def [symmetric] by (auto simp: mk_number_def)
  obtain k where k: "Suc (weight (MathBin Sub (MathBin Pow (Number 2 0) sz) (Number 1 0))) = Suc (Suc (Suc k))" "weight sz < k"
    by (rule that [of "10 + weight sz"]) simp_all
  show ?thesis
    unfolding simplified_def k(1) using k(2) assms(2) simp num by (cases k) (auto simp: fold_math_def)
qed

text \<open>
  An accepted unsigned integer has all values of its size, from zero.
\<close>

theorem unsigned_full_range:
  assumes "make_unsigned i sz = Accepted d"
  shows "covers_entire_range d \<and> integer_value_count d = 2 ^ nat (int_size d)"
proof -
  obtain l s bl bs where v: "simplified (MathBin Sub (MathBin Pow (Number 2 0) sz) (Number 1 0)) = Inr (Number l bl)"
      "simplified sz = Inr (Number s bs)" "0 \<le> s" "s \<le> 63" and d: "int_first d = 0" "int_last d = l" "int_size d = s"
    using assms by (auto simp: make_unsigned_def integer_accepted simplified_def numeral_eq_Suc)
  then show ?thesis
    using simplified_unsigned [OF v(2-4)] by (simp add: covers_entire_range_def integer_value_count_def)
qed

theorem unsigned_full_range_witness:
  "covers_entire_range \<lparr>int_identifier = ''P::T'', int_first = 0, int_last = 255, int_size = 8\<rparr>
   \<and> integer_value_count \<lparr>int_identifier = ''P::T'', int_first = 0, int_last = 255, int_size = 8\<rparr> = 2 ^ nat 8"
proof -
  have "make_unsigned ''P::T'' (Number 8 0) = Accepted \<lparr>int_identifier = ''P::T'', int_first = 0, int_last = 255, int_size = 8\<rparr>"
    by code_simp
  from unsigned_full_range [OF this] show ?thesis by simp
qed

lemma duplicate_literals_none:
  "duplicate_literals seen ks = [] \<longleftrightarrow>
     distinct (map lower ks) \<and> lower ` set seen \<inter> lower ` set ks = {}"
proof (induction ks arbitrary: seen)
  case (Cons k ks)
  show ?case by (auto simp: Cons filter_empty_conv id_eq_def)
qed simp

lemma duplicate_values_none: "duplicate_values vs = [] \<longleftrightarrow> distinct vs"
  by (induction vs) (auto simp: filter_empty_conv)

lemma id_set_lookup:
  "map_of (map (\<lambda>(k, v). (lower k, v)) (id_set i x d)) =
   (map_of (map (\<lambda>(k, v). (lower k, v)) d))(lower i \<mapsto> x)"
  by (induction i x d rule: id_set.induct) (auto simp: id_eq_def fun_eq_iff)

lemma lookup_id_set: "id_lookup (id_set k v d) i = (if id_eq k i then Some v else id_lookup d i)"
  by (auto simp: id_lookup_def id_set_lookup id_eq_def)

lemma id_set_new: "lower k \<notin> lower ` fst ` set d \<Longrightarrow> id_set k v d = d @ [(k, v)]"
  by (induction k v d rule: id_set.induct) (auto simp: id_eq_def)

lemma fold_id_set_new:
  "distinct (map (lower \<circ> fst) ls) \<Longrightarrow> lower ` fst ` set d \<inter> lower ` fst ` set ls = {} \<Longrightarrow>
   fold (\<lambda>(k, v). id_set k v) ls d = d @ ls"
proof (induction ls arbitrary: d)
  case (Cons l ls)
  obtain k v where l: "l = (k, v)" by (cases l)
  have "id_set k v d = d @ [(k, v)]"
    using Cons.prems(2) l by (intro id_set_new) auto
  then show ?case using Cons.IH [of "d @ [(k, v)]"] Cons.prems l by (auto simp: image_iff)
qed simp

lemma literal_errors_none:
  "literal_errors ls = [] \<longleftrightarrow>
     distinct (map (lower \<circ> fst) ls) \<and> (\<forall>(k, v)\<in>set ls. \<not> invalid_name k)"
  by (auto simp: literal_errors_def duplicate_literals_none filter_empty_conv)

lemma literal_dict_same: "literal_errors ls = [] \<Longrightarrow> literal_dict ls = ls"
  unfolding literal_errors_none literal_dict_def
  by (subst filter_True) (auto simp: fold_id_set_new)

lemma value_errors_none:
  "value_errors vs n valid = [] \<longleftrightarrow>
     n \<le> 63 \<and> distinct vs \<and> (\<forall>v\<in>set vs. 0 \<le> n \<and> 0 \<le> v \<and> v < 2 ^ nat n)
     \<and> \<not> (valid \<and> 0 \<le> n \<and> int (length vs) = 2 ^ nat n)"
proof (cases "vs = []")
  case True
  then show ?thesis by (auto simp: value_errors_def max_scalar_size_def)
next
  case False
  let ?m = "Max (set vs)"
  have m: "?m \<in> set vs" "\<forall>v\<in>set vs. v \<le> ?m" "Min (set vs) \<in> set vs" "\<forall>v\<in>set vs. Min (set vs) \<le> v"
    using False by simp_all
  have le: "(2::int) ^ nat n \<le> 2 ^ 63" if "n \<le> 63"
    using that by (intro power_increasing) auto
  have bits: "int (bit_length ?m) \<le> n \<longleftrightarrow> 0 \<le> n \<and> ?m < 2 ^ nat n" if "0 \<le> ?m"
  proof (cases "0 \<le> n")
    case True
    then show ?thesis using bit_length_le [OF that, of "nat n"] by linarith
  qed simp
  have range: "\<not> (Min (set vs) < 0 \<or> ?m > 2 ^ max_scalar_size - 1) \<and> int (bit_length ?m) \<le> n
      \<longleftrightarrow> (\<forall>v\<in>set vs. 0 \<le> n \<and> 0 \<le> v \<and> v < 2 ^ nat n)" if n: "n \<le> 63"
  proof
    assume l: "\<not> (Min (set vs) < 0 \<or> ?m > 2 ^ max_scalar_size - 1) \<and> int (bit_length ?m) \<le> n"
    then have min: "0 \<le> Min (set vs)" by simp
    then have "0 \<le> ?m" using m(1,4) by (meson order_trans)
    then have "0 \<le> n \<and> ?m < 2 ^ nat n" using bits l by simp
    moreover have "0 \<le> v \<and> v \<le> ?m" if "v \<in> set vs" for v
      using that m(2,4) min by (meson order_trans)
    ultimately show "\<forall>v\<in>set vs. 0 \<le> n \<and> 0 \<le> v \<and> v < 2 ^ nat n" by (meson order.strict_trans1)
  next
    assume r: "\<forall>v\<in>set vs. 0 \<le> n \<and> 0 \<le> v \<and> v < 2 ^ nat n"
    then have "0 \<le> n" "0 \<le> ?m" "?m < 2 ^ nat n" "0 \<le> Min (set vs)"
      using m(1,3) by simp_all
    then show "\<not> (Min (set vs) < 0 \<or> ?m > 2 ^ max_scalar_size - 1) \<and> int (bit_length ?m) \<le> n"
      using bits le [OF n] by (simp add: max_scalar_size_def)
  qed
  show ?thesis
    using False range by (auto simp: value_errors_def duplicate_values_none max_scalar_size_def)
qed

lemma enumeration_accepted:
  "make_enumeration i ls sz valid = Accepted d \<longleftrightarrow>
     length (id_parts i) = 2
     \<and> (\<exists>n b. simplified sz = Inr (Number n b) \<and> n \<le> 63
         \<and> distinct (map (lower \<circ> fst) ls) \<and> (\<forall>(k, v)\<in>set ls. \<not> invalid_name k)
         \<and> distinct (map snd ls) \<and> (\<forall>v\<in>snd ` set ls. 0 \<le> n \<and> 0 \<le> v \<and> v < 2 ^ nat n)
         \<and> \<not> (valid \<and> 0 \<le> n \<and> int (length ls) = 2 ^ nat n)
         \<and> d = \<lparr>enum_identifier = i, enum_literals = ls, enum_size = n, always_valid = valid\<rparr>)"
    (is "?accepted \<longleftrightarrow> ?valid")
proof
  assume ?accepted
  then show ?valid
    by (auto simp: make_enumeration_def check_identifier_def Let_def literal_dict_same value_errors_none
        literal_errors_none [symmetric] number_value_Some split: option.splits)
next
  assume v: ?valid
  then have "literal_errors ls = []" by (auto simp: literal_errors_none)
  moreover have "ls = []" if "\<forall>a b. (a, b) \<notin> set ls"
    using that by (cases ls) auto
  ultimately show ?accepted
    using v by (auto simp: make_enumeration_def check_identifier_def Let_def literal_dict_same value_errors_none)
qed

text \<open>
  C33. An enumeration is accepted exactly if its size is a number of at most 63 bits, the literals have
  proper names, distinct up to case, and distinct values that the size can represent, and the aspect
  \<open>Always_Valid\<close> is not given for an enumeration that has a literal for every value; the declaration
  has all literals in their order.
\<close>

theorem enumeration_accepted_iff:
  "make_enumeration i ls sz valid = Accepted d \<longleftrightarrow>
     length (id_parts i) = 2
     \<and> (\<exists>n b. simplified sz = Inr (Number n b) \<and> n \<le> 63
         \<and> distinct (map (lower \<circ> fst) ls) \<and> (\<forall>(k, v)\<in>set ls. \<not> invalid_name k)
         \<and> distinct (map snd ls) \<and> (\<forall>v\<in>snd ` set ls. 0 \<le> n \<and> 0 \<le> v \<and> v < 2 ^ nat n)
         \<and> \<not> (valid \<and> 0 \<le> n \<and> int (length ls) = 2 ^ nat n)
         \<and> d = \<lparr>enum_identifier = i, enum_literals = ls, enum_size = n, always_valid = valid\<rparr>)"
  by (rule enumeration_accepted)

definition sample_enumeration :: enum_decl where
  "sample_enumeration =
     \<lparr>enum_identifier = ''P::E'', enum_literals = [(''A'', 0), (''B'', 2)], enum_size = 2, always_valid = True\<rparr>"

theorem enumeration_accepted_iff_witness:
  "distinct (map (lower \<circ> fst) (enum_literals sample_enumeration))
     \<and> distinct (map snd (enum_literals sample_enumeration)) \<and> enum_size sample_enumeration \<le> 63"
proof -
  have "make_enumeration ''P::E'' [(''A'', 0), (''B'', 2)] (Number 2 0) True = Accepted sample_enumeration"
    by code_simp
  then show ?thesis
    unfolding enumeration_accepted_iff by (auto simp: sample_enumeration_def)
qed

lemma first_unused_Some:
  "first_unused v limit vs = Some w \<Longrightarrow> v \<le> w \<and> w < limit \<and> w \<notin> set vs"
  by (induction v limit vs rule: first_unused.induct) (subst (asm) first_unused.simps, auto split: if_splits)

lemma first_unused_None:
  "first_unused v limit vs = None \<Longrightarrow> v \<le> w \<Longrightarrow> w < limit \<Longrightarrow> w \<in> set vs"
proof (induction v limit vs rule: first_unused.induct)
  case (1 v limit vs)
  then show ?case
    by (cases "w = v") (auto simp: first_unused.simps [of v] split: if_splits)
qed

text \<open>
  For the proofs an accepted enumeration with the aspect \<open>Always_Valid\<close> gets a further literal,
  whose value the size can represent and no other literal has, so that the loop which looks for it
  always finds one.
\<close>

theorem dummy_literal_exists:
  assumes "make_enumeration i ls sz True = Accepted d" "0 \<le> enum_size d"
  shows "\<exists>k v. with_dummy_literal d = ls @ [(k, v)] \<and> 0 \<le> v \<and> v < 2 ^ nat (enum_size d) \<and> v \<notin> snd ` set ls"
proof -
  let ?l = "2 ^ nat (enum_size d) :: int"
  have d: "enum_literals d = ls" "distinct (map snd ls)" "\<forall>v\<in>snd ` set ls. 0 \<le> v \<and> v < ?l" "int (length ls) \<noteq> ?l"
    using assms by (auto simp: enumeration_accepted)
  have "first_unused 0 ?l (map snd ls) \<noteq> None"
  proof
    assume "first_unused 0 ?l (map snd ls) = None"
    then have "{0..<?l} = snd ` set ls"
      using first_unused_None [of 0 ?l "map snd ls"] d(3) by force
    then have "int (card (snd ` set ls)) = ?l" by (metis card_atLeastLessThan_int diff_zero int_nat_eq zero_le_numeral zero_le_power)
    then show False using d(2,4) distinct_card [OF d(2)] by simp
  qed
  then obtain v where "first_unused 0 ?l (map snd ls) = Some v" by auto
  then show ?thesis
    using first_unused_Some [of 0 ?l "map snd ls" v] d(1) by (auto simp: with_dummy_literal_def)
qed

theorem dummy_literal_exists_witness:
  "\<exists>k v. with_dummy_literal sample_enumeration = [(''A'', 0), (''B'', 2)] @ [(k, v)]
     \<and> 0 \<le> v \<and> v < 4 \<and> v \<notin> {0, 2}"
proof -
  have "make_enumeration ''P::E'' [(''A'', 0), (''B'', 2)] (Number 2 0) True = Accepted sample_enumeration"
    by code_simp
  from dummy_literal_exists [OF this] show ?thesis
    by (simp add: sample_enumeration_def)
qed

text \<open>
  An overflow in the size of an integer is reported; in the size of an enumeration it is not caught.
\<close>

lemma enumeration_overflow_crashes:
  assumes "length (id_parts i) = 2" "simplified sz = Inl OverflowError"
  shows "make_enumeration i ls sz valid = Crash OverflowError"
    and "make_integer i (Number 0 0) (Number 1 0) sz = Rejected [ValueOutOfBounds]"
  using assms
  by (simp_all add: make_enumeration_def make_integer_def check_identifier_def error_if_def propagate_def run_checked_def simplify_def
      simplified_def numeral_eq_Suc)

end
