(* ===== verification/Statement.thy ===== *)
theory Statement
  imports Tac_Gen_Names Type_Decl Expr_Subst
begin

text \<open>
  The statements (\<open>rflx/model/statement.py\<close>) and declarations (\<open>rflx/model/declaration.py\<close>) of state
  machines: their parts, the variables they refer to, their textual form and their translation to
  three-address code.
\<close>

section \<open>Statements\<close>

text \<open>The type of a statement (\<open>type_\<close>) is undefined until it is checked.\<close>

datatype statement =
    VariableAssignment ident expr ty
  | MessageFieldAssignment ident ident expr ty
  | AppendTo ident expr ty
  | ExtendBy ident expr ty
  | ResetOf ident "(ident \<times> expr) list" ty
  | ReadFrom ident expr ty
  | WriteTo ident expr ty

fun stmt_identifier :: "statement \<Rightarrow> ident" where
  "stmt_identifier (VariableAssignment i e t) = i"
| "stmt_identifier (MessageFieldAssignment m f e t) = m"
| "stmt_identifier (AppendTo i e t) = i"
| "stmt_identifier (ExtendBy i e t) = i"
| "stmt_identifier (ResetOf i ps t) = i"
| "stmt_identifier (ReadFrom i e t) = i"
| "stmt_identifier (WriteTo i e t) = i"

fun is_field_assignment :: "statement \<Rightarrow> bool" where
  "is_field_assignment (MessageFieldAssignment m f e t) = True"
| "is_field_assignment _ = False"

fun is_channel_statement :: "statement \<Rightarrow> bool" where
  "is_channel_statement (ReadFrom i e t) = True"
| "is_channel_statement (WriteTo i e t) = True"
| "is_channel_statement _ = False"

text \<open>\<open>parameters\<close> of an attribute statement; those of \<open>Reset\<close> are associations.\<close>

fun stmt_parameters :: "statement \<Rightarrow> expr list" where
  "stmt_parameters (AppendTo i e t) = [e]"
| "stmt_parameters (ExtendBy i e t) = [e]"
| "stmt_parameters (ReadFrom i e t) = [e]"
| "stmt_parameters (WriteTo i e t) = [e]"
| "stmt_parameters _ = []"

fun statement_variables :: "statement \<Rightarrow> ident list res" where
  "statement_variables (VariableAssignment i e t) = bind_res (variables e) (\<lambda>vs. Inr (i # vs))"
| "statement_variables (MessageFieldAssignment m f e t) = bind_res (variables e) (\<lambda>vs. Inr (m # vs))"
| "statement_variables (ResetOf i ps t) =
     bind_res (map_res (\<lambda>(k, e). variables e) ps) (\<lambda>vs. Inr (i # concat vs))"
| "statement_variables s =
     bind_res (map_res variables (stmt_parameters s)) (\<lambda>vs. Inr (stmt_identifier s # concat vs))"

definition attribute_str :: "ident \<Rightarrow> string \<Rightarrow> string list \<Rightarrow> string" where
  "attribute_str i a ps = i @ tick @ a @ (if ps = [] then [] else '' ('' @ join_str '', '' ps @ '')'')"

fun statement_str :: "statement \<Rightarrow> string res" where
  "statement_str (VariableAssignment i e t) = bind_res (expr_str e) (\<lambda>s. Inr (i @ '' := '' @ s))"
| "statement_str (MessageFieldAssignment m f e t) =
     bind_res (expr_str e) (\<lambda>s. Inr (m @ ''.'' @ f @ '' := '' @ s))"
| "statement_str (AppendTo i e t) = bind_res (expr_str e) (\<lambda>s. Inr (attribute_str i ''Append'' [s]))"
| "statement_str (ExtendBy i e t) = bind_res (expr_str e) (\<lambda>s. Inr (attribute_str i ''Extend'' [s]))"
| "statement_str (ResetOf i ps t) =
     bind_res (map_res (\<lambda>(k, e). bind_res (expr_str e) (\<lambda>s. Inr (k @ '' => '' @ s))) ps) (\<lambda>ss.
       Inr (attribute_str i ''Reset'' ss))"
| "statement_str (ReadFrom i e t) = bind_res (expr_str e) (\<lambda>s. Inr (attribute_str i ''Read'' [s]))"
| "statement_str (WriteTo i e t) = bind_res (expr_str e) (\<lambda>s. Inr (attribute_str i ''Write'' [s]))"

text \<open>The translation; \<open>Read\<close> and \<open>Write\<close> need a basic parameter.\<close>

definition store_ir :: "bool \<Rightarrow> ir_result gen \<Rightarrow> (ir_expr \<Rightarrow> ir_stmt) \<Rightarrow> ir_stmt list gen" where
  "store_ir ok m f = assert_gen ok (bind_gen m (\<lambda>(k, ss, x). return_gen (ss @ [f x])))"

fun statement_to_ir :: "typing \<Rightarrow> statement \<Rightarrow> ir_stmt list gen" where
  "statement_to_ir ty (VariableAssignment i e t) =
     store_ir (is_named t) (to_ir ty e) (\<lambda>x. Assign i x t)"
| "statement_to_ir ty (MessageFieldAssignment m f e t) =
     store_ir (is_message t) (to_ir ty e) (\<lambda>x. FieldAssign m f x t)"
| "statement_to_ir ty (AppendTo i e t) =
     store_ir (is_sequence t) (to_ir ty e) (\<lambda>x. Append i x t)"
| "statement_to_ir ty (ExtendBy i e t) =
     store_ir (is_sequence t) (to_ir ty e) (\<lambda>x. Extend i x t)"
| "statement_to_ir ty (ResetOf i ps t) =
     assert_gen (is_sequence t \<or> is_message t)
       (bind_gen (seq_gen (\<lambda>(k, e). bind_gen (to_ir ty e) (\<lambda>r. return_gen (k, r))) ps) (\<lambda>rs.
          return_gen
            (concat (map (\<lambda>(f, k, ss, x). ss) rs)
             @ [Reset i (map (\<lambda>(f, k, ss, x). (f, x)) rs) t])))"
| "statement_to_ir ty (ReadFrom i e t) =
     bind_gen (to_ir_basic_expr (ty e) (to_ir ty e)) (\<lambda>(ss, x). return_gen (ss @ [Read i x]))"
| "statement_to_ir ty (WriteTo i e t) =
     bind_gen (to_ir_basic_expr (ty e) (to_ir ty e)) (\<lambda>(ss, x). return_gen (ss @ [Write i x]))"

section \<open>Declarations\<close>

text \<open>
  The type identifier and the type; the parameters of functions with type identifier and type; readable
  and writable channels.
\<close>

datatype decl =
    VariableDeclaration ident ident "expr option" ty
  | RenamingDeclaration ident ident expr ty
  | FunctionDeclaration ident "(ident \<times> ident \<times> ty) list" ident ty
  | ChannelDeclaration ident bool bool

fun declared_identifier :: "decl \<Rightarrow> ident" where
  "declared_identifier (VariableDeclaration i ti e t) = i"
| "declared_identifier (RenamingDeclaration i ti e t) = i"
| "declared_identifier (FunctionDeclaration i ps r t) = i"
| "declared_identifier (ChannelDeclaration i rd wr) = i"

fun declared_type :: "decl \<Rightarrow> ty" where
  "declared_type (VariableDeclaration i ti e t) = t"
| "declared_type (RenamingDeclaration i ti e t) = t"
| "declared_type (FunctionDeclaration i ps r t) = t"
| "declared_type (ChannelDeclaration i rd wr) = Channel rd wr"

fun is_formal :: "decl \<Rightarrow> bool" where
  "is_formal (FunctionDeclaration i ps r t) = True"
| "is_formal (ChannelDeclaration i rd wr) = True"
| "is_formal _ = False"

fun descriptive_name :: "decl \<Rightarrow> string" where
  "descriptive_name (VariableDeclaration i ti e t) = ''variable''"
| "descriptive_name (RenamingDeclaration i ti e t) = ''renaming''"
| "descriptive_name (FunctionDeclaration i ps r t) = ''function''"
| "descriptive_name (ChannelDeclaration i rd wr) = ''channel''"

fun declaration_variables :: "decl \<Rightarrow> ident list res" where
  "declaration_variables (VariableDeclaration i ti (Some e) t) = variables e"
| "declaration_variables (RenamingDeclaration i ti e t) = variables e"
| "declaration_variables _ = Inr []"

definition ada_type_name :: "ident \<Rightarrow> string" where
  "ada_type_name i = (if is_builtin_type i \<or> is_internal_type i then id_name i else i)"

fun declaration_str :: "decl \<Rightarrow> string res" where
  "declaration_str (VariableDeclaration i ti None t) = Inr (i @ '' : '' @ ada_type_name ti)"
| "declaration_str (VariableDeclaration i ti (Some e) t) =
     bind_res (expr_str e) (\<lambda>s. Inr (i @ '' : '' @ ada_type_name ti @ '' := '' @ s))"
| "declaration_str (RenamingDeclaration i ti e t) =
     bind_res (expr_str e) (\<lambda>s. Inr (i @ '' : '' @ ti @ '' renames '' @ s))"
| "declaration_str (FunctionDeclaration i ps r t) =
     Inr (''with function '' @ i
       @ (if ps = [] then []
          else '' ('' @ join_str ''; '' (map (\<lambda>(p, pt, t). p @ '' : '' @ ada_type_name pt) ps) @ '')'')
       @ '' return '' @ ada_type_name r)"
| "declaration_str (ChannelDeclaration i rd wr) =
     Inr (i @ '' : Channel with ''
       @ join_str '', '' ((if rd then [''Readable''] else []) @ (if wr then [''Writable''] else [])))"

text \<open>A channel is readable or writable (an assertion of the constructor).\<close>

definition make_channel :: "ident \<Rightarrow> bool \<Rightarrow> bool \<Rightarrow> decl res" where
  "make_channel i rd wr = assert_res (rd \<or> wr) (Inr (ChannelDeclaration i rd wr))"

text \<open>The basic declarations are translated; renamings are not supported.\<close>

fun declaration_to_ir :: "typing \<Rightarrow> decl \<Rightarrow> ir_stmt gen" where
  "declaration_to_ir ty (VariableDeclaration i ti e t) =
     assert_gen (is_named t)
       (case e of
          None \<Rightarrow> return_gen (VarDecl i t None)
        | Some x \<Rightarrow> bind_gen (to_ir ty x) (\<lambda>r. return_gen (VarDecl i t (Some (complex_of r)))))"
| "declaration_to_ir ty (RenamingDeclaration i ti e t) =
     fail_gen (FatalError ''renaming declarations not yet supported'')"
| "declaration_to_ir ty d = fail_gen AttributeError"

section \<open>The translation of assignments\<close>

text \<open>The value of an assignment has to fit the type of the variable.\<close>

fun fits_type :: "ty \<Rightarrow> val \<Rightarrow> bool" where
  "fits_type t (VInt n) = in_bounds t n"
| "fits_type t (VBool b) = True"

fun set_val :: "ident \<Rightarrow> val \<Rightarrow> env \<Rightarrow> env" where
  "set_val i (VInt n) \<sigma> = set_int i n \<sigma>"
| "set_val i (VBool b) \<sigma> = set_bool i b \<sigma>"

lemma exec_assign:
  assumes "tac_val \<sigma> x = Some v" "fits_type t v"
  shows "exec (Assign i x t) \<sigma> = Continue (set_val i v \<sigma>)"
  using assms int_not_bool [of x] by (cases v) (auto simp: tac_val_int tac_val_bool)



section \<open>Generated variables\<close>

lemma new_vars_last: "new_vars m n ss \<Longrightarrow> declared [s] = [] \<Longrightarrow> new_vars m n (ss @ [s])"
  by (simp add: new_vars_def)

lemma makes_store_ir:
  assumes "makes result_stmts M" "\<And>x. declared [f x] = []"
  shows "makes id (store_ir b M f)"
  using assms by (auto simp: makes_def store_ir_def bind_gen_Inr intro: new_vars_last)

lemma makes_seq_results:
  "makes (\<lambda>rs. concat (map (\<lambda>(f, k, ss, x). ss) rs)) (seq_gen (\<lambda>(k, e). bind_gen (to_ir ty e) (\<lambda>r. return_gen (k, r))) ps)"
  by (intro makes_seq) (auto intro: makes_result makes_to_ir)

lemma makes_statement: "makes id (statement_to_ir ty s)"
proof (cases s)
  case (ResetOf i ps t)
  show ?thesis
    using makes_seq_results [of ty ps] by (auto simp: ResetOf makes_def bind_gen_Inr intro: new_vars_last)
next
  case (ReadFrom i e t)
  show ?thesis
    using makes_basic_expr [OF makes_to_ir, of "ty e" ty e]
    by (auto simp: ReadFrom makes_def bind_gen_Inr intro: new_vars_last)
next
  case (WriteTo i e t)
  show ?thesis
    using makes_basic_expr [OF makes_to_ir, of "ty e" ty e]
    by (auto simp: WriteTo makes_def bind_gen_Inr intro: new_vars_last)
qed (auto intro!: makes_store_ir makes_to_ir)

end
