(* ===== verification/Machine.thy ===== *)
theory Machine
  imports Statement
begin

text \<open>
  The states of state machines (\<open>rflx/model/state_machine.py\<close>): their construction, the normalization of
  transitions and actions, the need for an exception transition, the textual form and the translation to
  three-address code.
\<close>

section \<open>Transitions and states\<close>

record machine_transition =
  tr_target :: ident
  tr_condition :: expr
  tr_description :: "string option"

record state =
  st_identifier :: ident
  st_transitions :: "machine_transition list"
  st_exception :: "machine_transition option"
  st_actions :: "statement list"
  st_declarations :: "(ident \<times> decl) list"
  st_description :: "string option"

definition final_name :: ident where
  "final_name = ''Final''"

definition FINAL_STATE :: state where
  "FINAL_STATE =
     \<lparr>st_identifier = final_name, st_transitions = [], st_exception = None, st_actions = [],
      st_declarations = [], st_description = None\<rparr>"

text \<open>Equality with \<open>FINAL_STATE\<close>, which compares all attributes but the location.\<close>

definition is_final :: "state \<Rightarrow> bool" where
  "is_final s =
     (id_eq (st_identifier s) final_name \<and> st_transitions s = [] \<and> st_exception s = None
      \<and> st_actions s = [] \<and> st_declarations s = [] \<and> st_description s = None)"

definition normalized_target :: "machine_transition \<Rightarrow> machine_transition" where
  "normalized_target t = (if id_eq (tr_target t) ''null'' then t\<lparr>tr_target := final_name\<rparr> else t)"

section \<open>Normalization of actions\<close>

fun assigned_field :: "statement \<Rightarrow> (ident \<times> expr) option" where
  "assigned_field (MessageFieldAssignment m f e t) = Some (f, e)"
| "assigned_field _ = None"

definition same_message :: "statement \<Rightarrow> statement \<Rightarrow> bool" where
  "same_message a b = id_eq (stmt_identifier a) (stmt_identifier b)"

text \<open>
  \<open>_collect_message_field_assignments\<close>: a dictionary of the fields, in which the last expression for a
  field stays.
\<close>

definition field_values_of :: "statement list \<Rightarrow> (ident \<times> expr) list" where
  "field_values_of as =
     fold (\<lambda>a d. case assigned_field a of Some (f, e) \<Rightarrow> id_set f e d | None \<Rightarrow> d) as []"

definition collect_assignments :: "statement list \<Rightarrow> statement" where
  "collect_assignments as =
     (let i = stmt_identifier (hd as) in
      VariableAssignment i (MessageAggregate True i (field_values_of as)) Undefined)"

text \<open>One iteration of the loop: the field assignments not yet output, and the new actions.\<close>

fun group_step :: "statement \<Rightarrow> statement list \<times> statement list \<Rightarrow> statement list \<times> statement list" where
  "group_step a (fas, actions) =
     (if fas = [] then
        if is_field_assignment a then ([a], actions) else ([], actions @ [a])
      else if length fas = 1 then
        if is_field_assignment a then
          if same_message (hd fas) a then (fas @ [a], actions) else ([a], actions @ fas)
        else ([], actions @ fas @ [a])
      else
        if is_field_assignment a then
          if same_message (hd fas) a then (fas @ [a], actions)
          else ([a], actions @ [collect_assignments fas])
        else ([], actions @ [collect_assignments fas, a]))"

definition normalize_actions :: "statement list \<Rightarrow> statement list" where
  "normalize_actions as =
     (let (fas, actions) = fold group_step as ([], []) in
      if length fas = 1 then actions @ fas
      else if length fas > 1 then actions @ [collect_assignments fas]
      else actions)"

section \<open>Construction\<close>

definition is_true :: "expr \<Rightarrow> bool res" where
  "is_true e = expr_eq e TRUE"

definition make_state ::
    "ident \<Rightarrow> machine_transition list \<Rightarrow> machine_transition option \<Rightarrow> statement list \<Rightarrow> decl list
     \<Rightarrow> string option \<Rightarrow> state res" where
  "make_state i ts ex as ds description =
     bind_res
       (if ts \<noteq> [] then bind_res (is_true (tr_condition (last ts))) (\<lambda>b. assert_res b (Inr ()))
        else assert_res (as = []) (assert_res (ds = []) (Inr ())))
       (\<lambda>_.
     bind_res
       (case ex of None \<Rightarrow> Inr () | Some t \<Rightarrow> bind_res (is_true (tr_condition t)) (\<lambda>b. assert_res b (Inr ())))
       (\<lambda>_.
     Inr \<lparr>st_identifier = i, st_transitions = map normalized_target ts,
          st_exception = map_option normalized_target ex, st_actions = normalize_actions as,
          st_declarations = fold (\<lambda>d. id_set (declared_identifier d) d) ds [],
          st_description = description\<rparr>))"

section \<open>The need for an exception transition\<close>

definition raising_class :: "expr \<Rightarrow> bool" where
  "raising_class e =
     (case e of
        Variable i \<Rightarrow> True
      | Selected p f \<Rightarrow> True
      | Attribute a p \<Rightarrow> a = Head \<or> a = Opaque
      | Comprehension i sq sel c \<Rightarrow> True
      | MessageAggregate d i fs \<Rightarrow> True
      | Conversion i x \<Rightarrow> True
      | Ass op ts \<Rightarrow> op = Add \<or> op = Mul
      | MathBin op l r \<Rightarrow> op = Sub \<or> op = Div \<or> op = Mod \<or> op = Pow
      | _ \<Rightarrow> False)"

definition has_expression_exceptions :: "expr \<Rightarrow> bool res" where
  "has_expression_exceptions e = bind_res (findall raising_class e) (\<lambda>r. Inr (r \<noteq> []))"

fun action_has_exceptions :: "statement \<Rightarrow> bool res" where
  "action_has_exceptions (AppendTo i e t) = Inr True"
| "action_has_exceptions (ExtendBy i e t) = Inr True"
| "action_has_exceptions (MessageFieldAssignment m f e t) = Inr True"
| "action_has_exceptions (VariableAssignment i e t) =
     (if is_message t then Inr True else has_expression_exceptions e)"
| "action_has_exceptions _ = Inr False"

definition has_exceptions :: "state \<Rightarrow> bool res" where
  "has_exceptions s =
     bind_res (any_res action_has_exceptions (st_actions s)) (\<lambda>b.
       if b then Inr True
       else any_res (\<lambda>t. has_expression_exceptions (tr_condition t)) (st_transitions s))"

section \<open>Textual form\<close>

definition transition_str :: "machine_transition \<Rightarrow> string res" where
  "transition_str t =
     bind_res (is_true (tr_condition t)) (\<lambda>b.
     bind_res (if b then Inr [] else bind_res (expr_str (tr_condition t)) (\<lambda>c.
       Inr ([newline_char] @ ''   if '' @ indent_next c 6))) (\<lambda>if_condition.
     Inr (''goto '' @ (if id_eq (tr_target t) final_name then ''null'' else tr_target t)
       @ (case tr_description t of
            None \<Rightarrow> []
          | Some d \<Rightarrow> if d = [] then [] else [newline_char] @ ''   with Desc => '' @ quote @ d @ quote)
       @ if_condition)))"

definition lines_of :: "string list \<Rightarrow> string" where
  "lines_of ss = concat (map (\<lambda>s. s @ '';'' @ [newline_char]) ss)"

definition state_str :: "state \<Rightarrow> string res" where
  "state_str s =
     (let aspects =
            (case st_description s of
               None \<Rightarrow> '' ''
             | Some d \<Rightarrow>
                 if d = [] then '' ''
                 else [newline_char] @ ''   with Desc => '' @ quote @ d @ quote @ [newline_char]) in
      if st_declarations s = [] \<and> st_actions s = [] \<and> st_transitions s = []
      then Inr (''state '' @ st_identifier s @ aspects @ ''is null state'')
      else
        bind_res (map_res (\<lambda>(k, d). declaration_str d) (st_declarations s)) (\<lambda>ds.
        bind_res (map_res statement_str (st_actions s)) (\<lambda>as.
        bind_res (map_res transition_str (st_transitions s)) (\<lambda>ts.
        bind_res
          (case st_exception s of
             None \<Rightarrow> Inr []
           | Some t \<Rightarrow> bind_res (transition_str t) (\<lambda>e.
               Inr ([newline_char] @ ''exception'' @ [newline_char] @ ''   '' @ e))) (\<lambda>ex.
          Inr (''state '' @ st_identifier s @ aspects @ ''is'' @ [newline_char] @ indent (lines_of ds) 3
            @ ''begin'' @ [newline_char] @ indent (lines_of as) 3
            @ ''transition'' @ [newline_char] @ indent (join_str [newline_char] ts) 3 @ indent_next ex 0
            @ [newline_char] @ ''end '' @ st_identifier s))))))"

section \<open>Translation to three-address code\<close>

record ir_transition =
  ir_target :: ident
  ir_condition :: ir_complex
  ir_description :: "string option"

record ir_state =
  ir_identifier :: ident
  ir_transitions :: "ir_transition list"
  ir_exception :: "ir_transition option"
  ir_actions :: "ir_stmt list"

definition transition_to_ir :: "typing \<Rightarrow> machine_transition \<Rightarrow> ir_transition gen" where
  "transition_to_ir ty t =
     bind_gen (to_ir ty (tr_condition t)) (\<lambda>r.
       return_gen \<lparr>ir_target = tr_target t, ir_condition = complex_of r, ir_description = tr_description t\<rparr>)"

definition state_to_ir :: "typing \<Rightarrow> state \<Rightarrow> ir_state gen" where
  "state_to_ir ty s =
     bind_gen (seq_gen (statement_to_ir ty) (st_actions s)) (\<lambda>actions.
     bind_gen (seq_gen (transition_to_ir ty) (st_transitions s)) (\<lambda>transitions.
     bind_gen (seq_gen (\<lambda>(k, d). declaration_to_ir ty d) (st_declarations s)) (\<lambda>declarations.
     bind_gen
       (case st_exception s of
          None \<Rightarrow> return_gen None
        | Some t \<Rightarrow> bind_gen (transition_to_ir ty t) (\<lambda>r. return_gen (Some r))) (\<lambda>ex.
       return_gen
         \<lparr>ir_identifier = st_identifier s, ir_transitions = transitions, ir_exception = ex,
          ir_actions = declarations @ concat actions\<rparr>))))"

definition states_to_ir :: "typing \<Rightarrow> state list \<Rightarrow> ir_state list gen" where
  "states_to_ir ty ss = seq_gen (state_to_ir ty) ss"

end
