(* ===== verification/Machine_Checks.thy ===== *)
theory Machine_Checks
  imports Machine
begin

text \<open>
  State machines (\<open>StateMachine\<close> in \<open>rflx/model/state_machine.py\<close>): the normalization of identifiers and
  the checks of \<open>_validate\<close> that do not depend on types.
\<close>

section \<open>Machines\<close>

record machine =
  mc_identifier :: ident
  mc_states :: "state list"
  mc_declarations :: "(ident \<times> decl) list"
  mc_parameters :: "(ident \<times> decl) list"

text \<open>The final state is added unless it is given.\<close>

definition with_final :: "state list \<Rightarrow> state list" where
  "with_final ss = (if list_ex is_final ss then ss else ss @ [FINAL_STATE])"

definition initial_state :: "machine \<Rightarrow> state" where
  "initial_state m = hd (mc_states m)"

definition declaration_dict :: "decl list \<Rightarrow> (ident \<times> decl) list" where
  "declaration_dict ds = fold (\<lambda>d. id_set (declared_identifier d) d) ds []"

definition merge_dicts :: "(ident \<times> 'a) list \<Rightarrow> (ident \<times> 'a) list \<Rightarrow> (ident \<times> 'a) list" where
  "merge_dicts d e = fold (\<lambda>(k, v). id_set k v) e d"

definition global_declarations :: "machine \<Rightarrow> (ident \<times> decl) list" where
  "global_declarations m = merge_dicts (mc_parameters m) (mc_declarations m)"

lemma id_set_values: "snd ` set (id_set i x d) \<subseteq> insert x (snd ` set d)"
  by (induction i x d rule: id_set.induct) auto

lemma id_lookup_value: "id_lookup vis v = Some sc \<Longrightarrow> sc \<in> snd ` set vis"
  by (force simp: id_lookup_def dest!: map_of_SomeD)

section \<open>Normalization\<close>

text \<open>The spelling under which an identifier is declared, from the dictionary \<open>{v: v for v in vs}\<close>.\<close>

definition canonical :: "ident list \<Rightarrow> ident \<Rightarrow> ident option" where
  "canonical vs i = id_lookup (fold (\<lambda>v. id_set v v) vs []) i"

definition or_else :: "'a option \<Rightarrow> 'a \<Rightarrow> 'a" where
  "or_else x y = (case x of None \<Rightarrow> y | Some v \<Rightarrow> v)"

record names =
  nm_variables :: "ident list"
  nm_literals :: "ident list"
  nm_types :: "ident list"
  nm_functions :: "ident list"

definition normalize_identifiers :: "names \<Rightarrow> expr \<Rightarrow> expr" where
  "normalize_identifiers nm e =
     (case e of
        Variable i \<Rightarrow>
          (case canonical (nm_types nm) i of
             Some t \<Rightarrow> TypeName t
           | None \<Rightarrow>
               (case canonical (nm_literals nm) i of
                  Some l \<Rightarrow> Literal l
                | None \<Rightarrow>
                    (case canonical (nm_functions nm) i of
                       Some f \<Rightarrow> Call f []
                     | None \<Rightarrow> Variable (or_else (canonical (nm_variables nm) i) i))))
      | Call i es \<Rightarrow> Call (or_else (canonical (nm_functions nm) i) i) es
      | _ \<Rightarrow> e)"

definition normalized :: "names \<Rightarrow> expr \<Rightarrow> expr res" where
  "normalized nm e = substituted (Suc (weight e)) (\<lambda>x. Inr (normalize_identifiers nm x)) e"

definition normalized_option :: "names \<Rightarrow> expr option \<Rightarrow> expr option res" where
  "normalized_option nm e =
     (case e of None \<Rightarrow> Inr None | Some x \<Rightarrow> bind_res (normalized nm x) (\<lambda>x'. Inr (Some x')))"

fun normalize_global :: "names \<Rightarrow> decl \<Rightarrow> decl res" where
  "normalize_global nm (VariableDeclaration i ti e t) =
     bind_res (normalized_option nm e) (\<lambda>e'.
       Inr (VariableDeclaration i (or_else (canonical (nm_types nm) ti) ti) e' t))"
| "normalize_global nm (RenamingDeclaration i ti e t) =
     Inr (RenamingDeclaration i (or_else (canonical (nm_types nm) ti) ti) e t)"
| "normalize_global nm d = Inr d"

fun normalize_local :: "names \<Rightarrow> decl \<Rightarrow> decl res" where
  "normalize_local nm (VariableDeclaration i ti e t) =
     bind_res (normalized_option nm e) (\<lambda>e'. Inr (VariableDeclaration i ti e' t))"
| "normalize_local nm d = Inr d"

text \<open>The names of variables and channels are those that statements other than assignments refer to.\<close>

fun normalize_action :: "names \<Rightarrow> ident list \<Rightarrow> statement \<Rightarrow> statement res" where
  "normalize_action nm ids (VariableAssignment i e t) =
     bind_res (normalized nm e) (\<lambda>e'. Inr (VariableAssignment i e' t))"
| "normalize_action nm ids (MessageFieldAssignment m f e t) =
     bind_res (normalized nm e) (\<lambda>e'. Inr (MessageFieldAssignment m f e' t))"
| "normalize_action nm ids (AppendTo i e t) =
     bind_res (normalized nm e) (\<lambda>e'. Inr (AppendTo (or_else (canonical ids i) i) e' t))"
| "normalize_action nm ids (ExtendBy i e t) =
     bind_res (normalized nm e) (\<lambda>e'. Inr (ExtendBy (or_else (canonical ids i) i) e' t))"
| "normalize_action nm ids (ReadFrom i e t) =
     bind_res (normalized nm e) (\<lambda>e'. Inr (ReadFrom (or_else (canonical ids i) i) e' t))"
| "normalize_action nm ids (WriteTo i e t) =
     bind_res (normalized nm e) (\<lambda>e'. Inr (WriteTo (or_else (canonical ids i) i) e' t))"
| "normalize_action nm ids (ResetOf i ps t) =
     bind_res (map_res (\<lambda>(k, e). bind_res (normalized nm e) (\<lambda>e'. Inr (k, e'))) ps) (\<lambda>ps'.
       Inr (ResetOf (or_else (canonical ids i) i) ps' t))"

definition normalize_transition :: "names \<Rightarrow> ident list \<Rightarrow> machine_transition \<Rightarrow> machine_transition res" where
  "normalize_transition nm states t =
     bind_res (normalized nm (tr_condition t)) (\<lambda>c.
       Inr (t\<lparr>tr_target := or_else (canonical states (tr_target t)) (tr_target t), tr_condition := c\<rparr>))"

text \<open>
  The target of the exception transition: the condition looks at the target of the variable \<open>t\<close> of the
  preceding loop, which is the last transition of the state, or of an earlier state if it has none.
\<close>

definition normalize_exception ::
    "ident list \<Rightarrow> ident option \<Rightarrow> machine_transition option \<Rightarrow> machine_transition option res" where
  "normalize_exception states last_target ex =
     (case ex of
        None \<Rightarrow> Inr None
      | Some x \<Rightarrow>
          (case last_target of
             None \<Rightarrow> Inl UnboundLocalError
           | Some i \<Rightarrow>
               if canonical states i = None then Inr (Some x)
               else
                 (case canonical states (tr_target x) of
                    None \<Rightarrow> Inl (KeyError (tr_target x))
                  | Some c \<Rightarrow> Inr (Some (x\<lparr>tr_target := c\<rparr>)))))"

definition last_target :: "ident option \<Rightarrow> machine_transition list \<Rightarrow> ident option" where
  "last_target prev ts = (if ts = [] then prev else Some (tr_target (last ts)))"

definition normalize_state ::
    "names \<Rightarrow> ident list \<Rightarrow> ident list \<Rightarrow> ident option \<Rightarrow> state \<Rightarrow> state res" where
  "normalize_state nm channels states prev s =
     (let variables = nm_variables nm @ map fst (st_declarations s);
          nm' = nm\<lparr>nm_variables := variables\<rparr> in
      bind_res
        (map_res (\<lambda>(k, d). bind_res (normalize_local nm' d) (\<lambda>d'. Inr (k, d'))) (st_declarations s)) (\<lambda>ds.
      bind_res (map_res (normalize_action nm' (variables @ channels)) (st_actions s)) (\<lambda>as.
      bind_res (map_res (normalize_transition nm' states) (st_transitions s)) (\<lambda>ts.
      bind_res (normalize_exception states (last_target prev ts) (st_exception s)) (\<lambda>ex.
        Inr (s\<lparr>st_declarations := ds, st_actions := as, st_transitions := ts, st_exception := ex\<rparr>))))))"

primrec normalize_states ::
    "names \<Rightarrow> ident list \<Rightarrow> ident list \<Rightarrow> ident option \<Rightarrow> state list \<Rightarrow> state list res" where
  "normalize_states nm channels states prev [] = Inr []"
| "normalize_states nm channels states prev (s # ss) =
     bind_res (normalize_state nm channels states prev s) (\<lambda>s'.
     bind_res (normalize_states nm channels states (last_target prev (st_transitions s')) ss) (\<lambda>ss'.
       Inr (s' # ss')))"

fun is_function :: "decl \<Rightarrow> bool" where
  "is_function (FunctionDeclaration i ps r t) = True"
| "is_function _ = False"

fun is_channel :: "decl \<Rightarrow> bool" where
  "is_channel (ChannelDeclaration i rd wr) = True"
| "is_channel _ = False"

definition normalize_machine :: "ident list \<Rightarrow> ident list \<Rightarrow> machine \<Rightarrow> machine res" where
  "normalize_machine literals type_names m =
     (let functions = map fst (filter (\<lambda>(k, d). is_function d) (mc_parameters m));
          channels = map fst (filter (\<lambda>(k, d). is_channel d) (mc_parameters m));
          nm = \<lparr>nm_variables = map fst (mc_declarations m), nm_literals = literals, nm_types = type_names,
                nm_functions = functions\<rparr> in
      bind_res
        (map_res (\<lambda>(k, d). bind_res (normalize_global nm d) (\<lambda>d'. Inr (k, d'))) (mc_declarations m)) (\<lambda>ds.
      bind_res (normalize_states nm channels (map st_identifier (mc_states m)) None (mc_states m)) (\<lambda>ss.
        Inr (m\<lparr>mc_declarations := ds, mc_states := ss\<rparr>))))"

section \<open>Validation of states\<close>

datatype machine_error =
    EmptyStates
  | MissingState ident ident
  | DuplicateState ident
  | UnreachableState ident
  | DetachedState ident
  | IOStateDeclarations
  | IOStateActions
  | ChannelParameterNoVariable
  | ChannelUsedTwice ident
  | MessageUsedTwice ident
  | MissingExceptionTransition ident
  | UnnecessaryExceptionTransition ident
  | UnusedDeclaration string ident

definition machine_error_if :: "bool \<Rightarrow> machine_error \<Rightarrow> machine_error list" where
  "machine_error_if b e = (if b then [e] else [])"

lemma machine_error_if_Nil [simp]: "machine_error_if b e = [] \<longleftrightarrow> \<not> b"
  by (simp add: machine_error_if_def)

definition known :: "ident list \<Rightarrow> ident \<Rightarrow> bool" where
  "known is i = list_ex (id_eq i) is"

definition existence_errors :: "state list \<Rightarrow> machine_error list" where
  "existence_errors ss =
     concat (map (\<lambda>s. concat (map (\<lambda>t.
       machine_error_if (\<not> known (map st_identifier ss) (tr_target t))
         (MissingState (st_identifier s) (tr_target t))) (st_transitions s))) ss)"

definition duplicate_errors :: "state list \<Rightarrow> machine_error list" where
  "duplicate_errors ss =
     concat (map (\<lambda>i.
       map (\<lambda>s. DuplicateState i) (tl (filter (\<lambda>s. id_eq i (st_identifier s)) ss)))
       (unique_ids (map st_identifier ss)))"

definition all_transitions :: "state \<Rightarrow> machine_transition list" where
  "all_transitions s = st_transitions s @ (case st_exception s of None \<Rightarrow> [] | Some t \<Rightarrow> [t])"

text \<open>
  The targets of the states up to the current one are collected in \<open>inputs\<close>, and the current state is
  checked against them at once.
\<close>

primrec reachability_errors :: "state \<Rightarrow> ident list \<Rightarrow> state list \<Rightarrow> machine_error list" where
  "reachability_errors init inputs [] = []"
| "reachability_errors init inputs (s # ss) =
     (let inputs' = inputs @ map tr_target (all_transitions s) in
      machine_error_if (s \<noteq> init \<and> \<not> is_final s \<and> \<not> known inputs' (st_identifier s))
        (UnreachableState (st_identifier s))
      @ machine_error_if (\<not> is_final s \<and> st_transitions s = []) (DetachedState (st_identifier s))
      @ reachability_errors init inputs' ss)"

definition validate_states :: "machine \<Rightarrow> machine_error list" where
  "validate_states m =
     machine_error_if (list_all is_final (mc_states m)) EmptyStates
     @ existence_errors (mc_states m)
     @ duplicate_errors (mc_states m)
     @ reachability_errors (initial_state m) [] (mc_states m)"

section \<open>Validation of actions\<close>

definition is_variable :: "expr \<Rightarrow> bool" where
  "is_variable e = (case e of Variable i \<Rightarrow> True | _ \<Rightarrow> False)"

definition channel_parameter :: "statement \<Rightarrow> expr" where
  "channel_parameter a = hd (stmt_parameters a)"

fun same_variable :: "expr \<Rightarrow> expr \<Rightarrow> ident option" where
  "same_variable (Variable i) (Variable j) = (if id_eq i j then Some i else None)"
| "same_variable _ _ = None"

text \<open>The conflicts of a statement with the later ones.\<close>

definition io_conflicts :: "statement \<Rightarrow> statement list \<Rightarrow> machine_error list" where
  "io_conflicts a as =
     concat (map (\<lambda>b.
       machine_error_if (id_eq (stmt_identifier a) (stmt_identifier b)) (ChannelUsedTwice (stmt_identifier a))
       @ (case same_variable (channel_parameter a) (channel_parameter b) of
            Some i \<Rightarrow> [MessageUsedTwice i]
          | None \<Rightarrow> [])) as)"

primrec io_statement_errors :: "statement list \<Rightarrow> machine_error list" where
  "io_statement_errors [] = []"
| "io_statement_errors (a # as) =
     machine_error_if (\<not> is_variable (channel_parameter a)) ChannelParameterNoVariable
     @ io_conflicts a as @ io_statement_errors as"

definition validate_io_states :: "statement list \<Rightarrow> (ident \<times> decl) list \<Rightarrow> machine_error list" where
  "validate_io_states actions locals =
     (let ios = filter is_channel_statement actions in
      (if ios = [] then []
       else
         machine_error_if (locals \<noteq> []) IOStateDeclarations
         @ machine_error_if (length ios \<noteq> length actions) IOStateActions)
      @ io_statement_errors ios)"

definition validate_exceptions :: "state \<Rightarrow> machine_error list res" where
  "validate_exceptions s =
     bind_res (has_exceptions s) (\<lambda>b.
       Inr (machine_error_if (st_exception s = None \<and> b) (MissingExceptionTransition (st_identifier s))
         @ machine_error_if (st_exception s \<noteq> None \<and> \<not> b) (UnnecessaryExceptionTransition (st_identifier s))))"

section \<open>Validation of usage\<close>

text \<open>
  A reference is counted on the declaration that is visible: it is named by its scope, the index of its
  state or \<open>None\<close> for a global declaration, and its identifier.
\<close>

type_synonym scope = "nat option"

type_synonym visible = "(ident \<times> scope) list"

definition references :: "visible \<Rightarrow> ident list \<Rightarrow> (scope \<times> ident) list" where
  "references vis vs =
     List.map_filter (\<lambda>v. map_option (\<lambda>sc. (sc, lower v)) (id_lookup vis v)) vs"

primrec declaration_references ::
    "scope \<Rightarrow> visible \<Rightarrow> (ident \<times> decl) list \<Rightarrow> (scope \<times> ident) list res" where
  "declaration_references sc vis [] = Inr []"
| "declaration_references sc vis (kd # ds) =
     bind_res (declaration_variables (snd kd)) (\<lambda>vs.
     bind_res (declaration_references sc (id_set (fst kd) sc vis) ds) (\<lambda>rs.
       Inr (references vis vs @ rs)))"

definition visible_in :: "scope \<Rightarrow> (ident \<times> decl) list \<Rightarrow> visible \<Rightarrow> visible" where
  "visible_in sc ds vis = fold (\<lambda>(k, d). id_set k sc) ds vis"

definition state_references :: "visible \<Rightarrow> nat \<Rightarrow> state \<Rightarrow> (scope \<times> ident) list res" where
  "state_references vis n s =
     (let vis' = visible_in (Some n) (st_declarations s) vis in
      bind_res (declaration_references (Some n) vis (st_declarations s)) (\<lambda>ds.
      bind_res (map_res statement_variables (st_actions s)) (\<lambda>as.
      bind_res (map_res (\<lambda>t. variables (tr_condition t)) (st_transitions s)) (\<lambda>ts.
        Inr (ds @ references vis' (concat as) @ references vis' (concat ts))))))"

definition machine_references :: "machine \<Rightarrow> (scope \<times> ident) list res" where
  "machine_references m =
     (let vis = visible_in None (global_declarations m) [] in
      bind_res (declaration_references None [] (global_declarations m)) (\<lambda>gs.
      bind_res (map_res (\<lambda>(n, s). state_references vis n s) (enumerate 0 (mc_states m))) (\<lambda>ss.
        Inr (gs @ concat ss))))"

definition usage_errors :: "(scope \<times> ident) list \<Rightarrow> scope \<Rightarrow> (ident \<times> decl) list \<Rightarrow> machine_error list" where
  "usage_errors rs sc ds =
     concat (map (\<lambda>(k, d).
       machine_error_if ((sc, lower k) \<notin> set rs) (UnusedDeclaration (descriptive_name d) k)) ds)"

definition validate_usage :: "machine \<Rightarrow> machine_error list res" where
  "validate_usage m =
     bind_res (machine_references m) (\<lambda>rs.
       Inr (usage_errors rs None (global_declarations m)
         @ concat (map (\<lambda>(n, s). usage_errors rs (Some n) (st_declarations s)) (enumerate 0 (mc_states m)))))"

section \<open>Construction\<close>

definition validate_machine :: "machine \<Rightarrow> machine_error list res" where
  "validate_machine m =
     bind_res (map_res validate_exceptions (mc_states m)) (\<lambda>es.
     bind_res (validate_usage m) (\<lambda>us.
       Inr (validate_states m
         @ concat (map (\<lambda>s. validate_io_states (st_actions s) (st_declarations s)) (mc_states m))
         @ concat es @ us)))"

text \<open>
  The machine with the errors found; the literals and the names of types are those of the types the
  machine depends on.
\<close>

definition make_machine ::
    "ident \<Rightarrow> state list \<Rightarrow> decl list \<Rightarrow> decl list \<Rightarrow> type_decl list
     \<Rightarrow> (machine \<times> machine_error list) res" where
  "make_machine i ss ds ps types =
     (let m = \<lparr>mc_identifier = i, mc_states = with_final ss, mc_declarations = declaration_dict ds,
               mc_parameters = declaration_dict ps\<rparr> in
      assert_res (list_all (\<lambda>(k, d). \<not> is_formal d) (mc_declarations m))
        (bind_res
          (normalize_machine (map fst (literal_table types (package_of i))) (map fst (qualified_type_names types)) m)
          (\<lambda>m'. bind_res (validate_machine m') (\<lambda>es. Inr (m', es)))))"

end
