(* ===== verification/Machine_Runs.thy ===== *)
theory Machine_Runs
  imports Machine_Checks
begin

text \<open>
  The runs of a state machine that was accepted: they stay in the states of the machine and end in the
  final state only.
\<close>

section \<open>Steps\<close>

text \<open>
  In a state the first transition whose condition holds is taken, or the exception transition if the
  actions fail.  The truth of the conditions, which depends on the data, is an argument.
\<close>

definition proper :: "(expr \<Rightarrow> bool) \<Rightarrow> bool" where
  "proper holds = (\<forall>i. id_eq i ''True'' \<longrightarrow> holds (Literal i))"

inductive machine_step :: "machine \<Rightarrow> (expr \<Rightarrow> bool) \<Rightarrow> ident \<Rightarrow> ident \<Rightarrow> bool" for m holds where
  normal: "s \<in> set (mc_states m) \<Longrightarrow> find (\<lambda>t. holds (tr_condition t)) (st_transitions s) = Some t \<Longrightarrow>
    machine_step m holds (st_identifier s) (tr_target t)"
| failed: "s \<in> set (mc_states m) \<Longrightarrow> st_exception s = Some t \<Longrightarrow>
    machine_step m holds (st_identifier s) (tr_target t)"

inductive reachable :: "machine \<Rightarrow> ident \<Rightarrow> bool" for m where
  start: "reachable m (st_identifier (initial_state m))"
| step: "reachable m i \<Longrightarrow> proper holds \<Longrightarrow> machine_step m holds i j \<Longrightarrow> reachable m j"

inductive_cases machine_stepE: "machine_step m holds i j"

definition machine_edge :: "machine \<Rightarrow> ident \<Rightarrow> ident \<Rightarrow> bool" where
  "machine_edge m i j =
     (\<exists>s\<in>set (mc_states m). \<exists>t\<in>set (all_transitions s). st_identifier s = i \<and> tr_target t = j)"

section \<open>Names of states\<close>

lemma known_iff: "known vs i \<longleftrightarrow> lower i \<in> lower ` set vs"
  by (auto simp: known_def list_ex_iff id_eq_def image_iff)

lemma canonical_snoc: "canonical (vs @ [v]) i = (if id_eq v i then Some v else canonical vs i)"
  by (simp add: canonical_def id_lookup_def id_set_lookup id_eq_def)

lemma canonical_Some: "canonical vs i = Some c \<Longrightarrow> c \<in> set vs \<and> id_eq c i"
  by (induction vs rule: rev_induct) (auto simp: canonical_snoc canonical_def [of "[]"] id_lookup_def split: if_splits)

lemma canonical_None: "canonical vs i = None \<longleftrightarrow> \<not> known vs i"
  by (induction vs rule: rev_induct)
     (auto simp: canonical_snoc known_iff id_eq_def canonical_def [of "[]"] id_lookup_def)

lemma canonical_target: "known vs (or_else (canonical vs i) i) \<Longrightarrow> or_else (canonical vs i) i \<in> set vs"
  using canonical_Some [of vs i] canonical_None [of vs i] by (cases "canonical vs i") (auto simp: or_else_def)

lemma unique_ids_member: "i \<in> set is \<Longrightarrow> \<exists>j\<in>set (unique_ids is). id_eq j i"
  using unique_ids_set [of "is"] by (auto simp: id_eq_def) (metis imageE image_eqI)

lemma single_occurrence:
  "(\<forall>i\<in>set (map f xs). length (filter (\<lambda>x. id_eq i (f x)) xs) \<le> 1) \<longleftrightarrow> distinct (map (lower \<circ> f) xs)"
proof (induction xs)
  case (Cons x xs)
  have "length (filter (\<lambda>y. id_eq (f x) (f y)) xs) = 0 \<longleftrightarrow> lower (f x) \<notin> (lower \<circ> f) ` set xs"
    by (auto simp: filter_empty_conv id_eq_def)
  moreover have "length (filter (\<lambda>y. id_eq i (f y)) (x # xs)) \<le> 1 \<longleftrightarrow> length (filter (\<lambda>y. id_eq i (f y)) xs) \<le> 1"
    if "lower (f x) \<notin> (lower \<circ> f) ` set xs" "i \<in> set (map f xs)" for i
    using that by (fastforce simp: id_eq_def image_iff)
  ultimately show ?case using Cons by (auto simp: id_eq_def)
qed simp

lemma duplicate_errors_none: "duplicate_errors ss = [] \<longleftrightarrow> distinct (map (lower \<circ> st_identifier) ss)"
proof -
  have tl: "tl xs = [] \<longleftrightarrow> length xs \<le> 1" for xs :: "'a list" by (cases xs) auto
  have "duplicate_errors ss = [] \<longleftrightarrow>
      (\<forall>i\<in>set (unique_ids (map st_identifier ss)). length (filter (\<lambda>s. id_eq i (st_identifier s)) ss) \<le> 1)"
    by (simp add: duplicate_errors_def tl)
  also have "\<dots> \<longleftrightarrow> (\<forall>i\<in>set (map st_identifier ss). length (filter (\<lambda>s. id_eq i (st_identifier s)) ss) \<le> 1)"
  proof -
    have eq: "filter (\<lambda>s. id_eq i (st_identifier s)) ss = filter (\<lambda>s. id_eq j (st_identifier s)) ss" if "id_eq i j" for i j
      using that by (simp add: id_eq_def)
    have sub: "\<exists>j\<in>set (map st_identifier ss). id_eq i j" if "i \<in> set (unique_ids (map st_identifier ss))" for i
    proof -
      have "lower i \<in> lower ` set (map st_identifier ss)"
        using that unique_ids_set [of "map st_identifier ss"] by blast
      then show ?thesis by (auto simp: id_eq_def)
    qed
    show ?thesis using unique_ids_member [of _ "map st_identifier ss"] eq sub by metis
  qed
  also have "\<dots> \<longleftrightarrow> distinct (map (lower \<circ> st_identifier) ss)"
    by (rule single_occurrence)
  finally show ?thesis .
qed

lemma existence_errors_none:
  "existence_errors ss = [] \<longleftrightarrow> (\<forall>s\<in>set ss. \<forall>t\<in>set (st_transitions s). known (map st_identifier ss) (tr_target t))"
  by (auto simp: existence_errors_def)

lemma reachability_errors_nth:
  "reachability_errors init ins ss = [] \<Longrightarrow> n < length ss \<Longrightarrow>
   (ss ! n = init \<or> is_final (ss ! n)
     \<or> known (ins @ concat (map (\<lambda>s. map tr_target (all_transitions s)) (take (Suc n) ss))) (st_identifier (ss ! n)))
   \<and> (is_final (ss ! n) \<or> st_transitions (ss ! n) \<noteq> [])"
proof (induction ss arbitrary: ins n)
  case (Cons s ss)
  show ?case
  proof (cases n)
    case 0
    then show ?thesis using Cons.prems(1) by (auto simp: Let_def)
  next
    case (Suc k)
    then show ?thesis
      using Cons.prems Cons.IH [of "ins @ map tr_target (all_transitions s)" k] by (auto simp: Let_def)
  qed
qed simp

lemma not_detached:
  "reachability_errors init ins ss = [] \<Longrightarrow> s \<in> set ss \<Longrightarrow> is_final s \<or> st_transitions s \<noteq> []"
  using reachability_errors_nth [of init ins ss] by (metis in_set_conv_nth)

section \<open>Normalized states\<close>

text \<open>What normalization keeps and establishes.\<close>

definition normalized_state :: "ident list \<Rightarrow> state \<Rightarrow> state \<Rightarrow> bool" where
  "normalized_state states s s' =
     (st_identifier s' = st_identifier s \<and> (is_final s' \<longleftrightarrow> is_final s)
      \<and> list_all2 (\<lambda>t t'. tr_target t' = or_else (canonical states (tr_target t)) (tr_target t)
            \<and> (\<forall>i. tr_condition t = Literal i \<longrightarrow> tr_condition t' = Literal i))
          (st_transitions s) (st_transitions s')
      \<and> (\<forall>x. st_exception s' = Some x \<longrightarrow>
           st_transitions s' = [] \<or> \<not> known states (tr_target (last (st_transitions s')))
           \<or> tr_target x \<in> set states))"

lemma map_res_list_all2: "map_res f xs = Inr ys \<Longrightarrow> list_all2 (\<lambda>x y. f x = Inr y) xs ys"
  by (induction xs arbitrary: ys) (auto simp: bind_res_eq_Inr)

lemma normalized_Literal: "normalized nm (Literal i) = Inr (Literal i)"
  by (simp add: normalized_def normalize_identifiers_def eval_nat_numeral)

lemma normalize_transition_target:
  "normalize_transition nm states t = Inr t' \<Longrightarrow>
   tr_target t' = or_else (canonical states (tr_target t)) (tr_target t)
   \<and> (\<forall>i. tr_condition t = Literal i \<longrightarrow> tr_condition t' = Literal i)"
  by (auto simp: normalize_transition_def bind_res_eq_Inr normalized_Literal)

lemma normalize_state_normalized:
  assumes "normalize_state nm channels states prev s = Inr s'"
  shows "normalized_state states s s'"
proof -
  obtain ds as ts ex where
      ds: "list_all2 (\<lambda>x y. (case x of (k, d) \<Rightarrow> bind_res (normalize_local (nm\<lparr>nm_variables := nm_variables nm @ map fst (st_declarations s)\<rparr>) d) (\<lambda>d'. Inr (k, d'))) = Inr y) (st_declarations s) ds"
    and as: "list_all2 (\<lambda>x y. normalize_action (nm\<lparr>nm_variables := nm_variables nm @ map fst (st_declarations s)\<rparr>) ((nm_variables nm @ map fst (st_declarations s)) @ channels) x = Inr y) (st_actions s) as"
    and ts: "list_all2 (\<lambda>x y. normalize_transition (nm\<lparr>nm_variables := nm_variables nm @ map fst (st_declarations s)\<rparr>) states x = Inr y) (st_transitions s) ts"
    and ex: "normalize_exception states (last_target prev ts) (st_exception s) = Inr ex"
    and s': "s' = s\<lparr>st_declarations := ds, st_actions := as, st_transitions := ts, st_exception := ex\<rparr>"
    using assms by (auto simp: normalize_state_def Let_def bind_res_eq_Inr dest!: map_res_list_all2)
  have len: "ds = [] \<longleftrightarrow> st_declarations s = []" "as = [] \<longleftrightarrow> st_actions s = []" "ts = [] \<longleftrightarrow> st_transitions s = []"
    using ds as ts by (auto dest: list_all2_lengthD)
  have ex_none: "ex = None \<longleftrightarrow> st_exception s = None"
    using ex by (cases "st_exception s") (auto simp: normalize_exception_def split: option.splits if_splits dest: sym [of "Some _"])
  have "tr_target x \<in> set states" if "ex = Some x" "ts \<noteq> []" "known states (tr_target (last ts))" for x
    using ex that canonical_Some [of states] canonical_None [of states "tr_target (last ts)"]
    by (auto simp: normalize_exception_def last_target_def split: option.splits if_splits)
  moreover have "list_all2 (\<lambda>t t'. tr_target t' = or_else (canonical states (tr_target t)) (tr_target t)
            \<and> (\<forall>i. tr_condition t = Literal i \<longrightarrow> tr_condition t' = Literal i)) (st_transitions s) ts"
    by (rule list_all2_mono [OF ts normalize_transition_target])
  moreover have "is_final s' \<longleftrightarrow> is_final s"
    by (simp add: s' is_final_def len ex_none)
  ultimately show ?thesis
    unfolding normalized_state_def by (auto simp: s')
qed

lemma normalize_states_normalized:
  "normalize_states nm channels states prev ss = Inr ss' \<Longrightarrow> list_all2 (normalized_state states) ss ss'"
  by (induction ss arbitrary: prev ss') (auto simp: bind_res_eq_Inr normalize_state_normalized)

section \<open>Accepted machines\<close>

lemma make_machineE:
  assumes "make_machine i ss ds ps types = Inr (m, [])"
  shows "validate_states m = []"
    and "list_all2 (normalized_state (map st_identifier (mc_states m))) (with_final ss) (mc_states m)"
proof -
  obtain nm channels ss' where n: "normalize_states nm channels (map st_identifier (with_final ss)) None (with_final ss) = Inr ss'"
      and m: "mc_states m = ss'" and v: "validate_machine m = Inr []"
    using assms by (auto simp: make_machine_def assert_res_def bind_res_eq_Inr normalize_machine_def Let_def split: if_splits)
  show "validate_states m = []" using v by (auto simp: validate_machine_def bind_res_eq_Inr)
  have l: "list_all2 (normalized_state (map st_identifier (with_final ss))) (with_final ss) (mc_states m)"
    using normalize_states_normalized [OF n] m by simp
  have "map st_identifier (with_final ss) = map st_identifier (mc_states m)"
    by (rule list_all2_induct [OF l]) (auto simp: normalized_state_def)
  then show "list_all2 (normalized_state (map st_identifier (mc_states m))) (with_final ss) (mc_states m)"
    using l by simp
qed

text \<open>The states that the constructor \<open>State\<close> returns end with an unconditional transition.\<close>

definition built :: "state \<Rightarrow> bool" where
  "built s = (\<exists>i ts ex as ds d. make_state i ts ex as ds d = Inr s)"

definition has_default :: "state \<Rightarrow> bool" where
  "has_default s =
     (st_transitions s \<noteq> [] \<longrightarrow>
       (\<exists>i. tr_condition (last (st_transitions s)) = Literal i \<and> id_eq i ''True''))"

lemma is_true_Literal: "is_true e = Inr True \<Longrightarrow> \<exists>i. e = Literal i \<and> id_eq i ''True''"
  by (cases e) (auto simp: is_true_def expr_eq.simps is_subclass_def split: if_splits)

lemma normalized_target_condition [simp]: "tr_condition (normalized_target t) = tr_condition t"
  by (simp add: normalized_target_def)

lemma built_default: "built s \<Longrightarrow> has_default s"
proof -
  assume "built s"
  then obtain i ts ex as ds d where "make_state i ts ex as ds d = Inr s" by (auto simp: built_def)
  then have "st_transitions s = map normalized_target ts" and "ts \<noteq> [] \<longrightarrow> is_true (tr_condition (last ts)) = Inr True"
    by (auto simp: make_state_def bind_res_eq_Inr assert_res_def split: if_splits)
  then show ?thesis
    using is_true_Literal by (auto simp: has_default_def last_map)
qed

lemma normalized_default:
  assumes "normalized_state states s s'" "has_default s"
  shows "has_default s'"
proof (cases "st_transitions s'")
  case Nil
  then show ?thesis by (simp add: has_default_def)
next
  case (Cons t ts)
  have l: "list_all2 (\<lambda>t t'. tr_target t' = or_else (canonical states (tr_target t)) (tr_target t)
            \<and> (\<forall>i. tr_condition t = Literal i \<longrightarrow> tr_condition t' = Literal i))
          (st_transitions s) (st_transitions s')"
    using assms(1) by (simp add: normalized_state_def)
  then have ne: "st_transitions s \<noteq> []" "st_transitions s' \<noteq> []" using Cons by auto
  have "\<forall>i. tr_condition (last (st_transitions s)) = Literal i \<longrightarrow> tr_condition (last (st_transitions s')) = Literal i"
    using l ne list_all2_lengthD [OF l] by (auto simp: last_conv_nth list_all2_conv_all_nth)
  then show ?thesis using assms(2) ne by (auto simp: has_default_def)
qed

lemma list_all2_member: "list_all2 P xs ys \<Longrightarrow> y \<in> set ys \<Longrightarrow> \<exists>x\<in>set xs. P x y"
  by (induction rule: list_all2_induct) auto

lemma find_member: "find P xs = Some x \<Longrightarrow> x \<in> set xs"
  by (induction xs) (auto split: if_splits)

text \<open>The facts about the states of an accepted machine that the properties rest on.\<close>

lemma accepted_state:
  assumes "make_machine i ss ds ps types = Inr (m, [])" "s \<in> set (mc_states m)"
  obtains s0 where "s0 \<in> set (with_final ss)" "normalized_state (map st_identifier (mc_states m)) s0 s"
  using list_all2_member [OF make_machineE(2) [OF assms(1)] assms(2)] by blast

lemma accepted_checks:
  assumes "make_machine i ss ds ps types = Inr (m, [])"
  shows "existence_errors (mc_states m) = []" "duplicate_errors (mc_states m) = []"
    "reachability_errors (initial_state m) [] (mc_states m) = []"
  using make_machineE(1) [OF assms] by (auto simp: validate_states_def)

lemma accepted_targets:
  assumes a: "make_machine i ss ds ps types = Inr (m, [])"
    and s: "s \<in> set (mc_states m)" and t: "t \<in> set (all_transitions s)"
  shows "tr_target t \<in> set (map st_identifier (mc_states m))"
proof -
  let ?is = "map st_identifier (mc_states m)"
  obtain s0 where n: "normalized_state ?is s0 s" using accepted_state [OF a s] .
  have l: "list_all2 (\<lambda>t t'. tr_target t' = or_else (canonical ?is (tr_target t)) (tr_target t)
            \<and> (\<forall>i. tr_condition t = Literal i \<longrightarrow> tr_condition t' = Literal i))
          (st_transitions s0) (st_transitions s)"
    using n by (simp add: normalized_state_def)
  have normal: "tr_target t \<in> set ?is" if t: "t \<in> set (st_transitions s)" for t
  proof -
    have "known ?is (tr_target t)"
      using accepted_checks(1) [OF a] s t by (auto simp: existence_errors_none)
    moreover obtain t0 :: machine_transition where "tr_target t = or_else (canonical ?is (tr_target t0)) (tr_target t0)"
      using list_all2_member [OF l t] by blast
    ultimately show ?thesis by (metis canonical_target)
  qed
  show ?thesis
  proof (cases "t \<in> set (st_transitions s)")
    case False
    then have ex: "st_exception s = Some t" using t by (auto simp: all_transitions_def split: option.splits)
    then have "\<not> is_final s" by (simp add: is_final_def)
    then have ne: "st_transitions s \<noteq> []"
      using not_detached [OF accepted_checks(3) [OF a] s] by blast
    then have "known ?is (tr_target (last (st_transitions s)))"
      using normal [of "last (st_transitions s)"] by (auto simp: known_iff)
    then show ?thesis using n ex ne by (auto simp: normalized_state_def)
  qed (rule normal)
qed

lemma with_final_not_Nil: "with_final ss \<noteq> []"
  by (auto simp: with_final_def)

lemma accepted_initial:
  assumes "make_machine i ss ds ps types = Inr (m, [])"
  shows "initial_state m \<in> set (mc_states m)"
  using make_machineE(2) [OF assms] with_final_not_Nil [of ss]
  by (cases "mc_states m") (auto simp: initial_state_def)

lemma machine_step_edge: "machine_step m holds i j \<Longrightarrow> machine_edge m i j"
  by (erule machine_stepE) (auto simp: machine_edge_def all_transitions_def dest!: find_member)

lemma reachable_state:
  assumes "make_machine i ss ds ps types = Inr (m, [])" "reachable m j"
  shows "j \<in> set (map st_identifier (mc_states m))"
  using assms(2)
proof induction
  case start
  then show ?case using accepted_initial [OF assms(1)] by simp
next
  case (step k holds j)
  then show ?case
    using machine_step_edge [OF step.hyps(3)] accepted_targets [OF assms(1)] by (auto simp: machine_edge_def)
qed

lemma find_default: "xs \<noteq> [] \<Longrightarrow> P (last xs) \<Longrightarrow> \<exists>x. find P xs = Some x"
  by (induction xs) (auto split: if_splits)

end
