(* ===== verification/Machine_Properties.thy ===== *)
theory Machine_Properties
  imports Machine_Runs
begin

text \<open>
  Properties of accepted state machines: a run is never stuck outside the final state, every state can be
  reached, and counterexamples to stronger claims.
\<close>

section \<open>Runs\<close>

text \<open>
  C4. A state machine that passes the checks, and whose states were built by their constructor, never
  gets stuck: every state that a run reaches is a state of the machine, and in each of them but the final
  state a transition to a state of the machine can be taken whatever the data.
\<close>

theorem machine_never_stuck:
  assumes "make_machine i ss ds ps types = Inr (m, [])"
    and "\<forall>s\<in>set ss. built s"
    and "reachable m j"
  shows "\<exists>s\<in>set (mc_states m). st_identifier s = j
    \<and> (is_final s \<or> (\<forall>holds. proper holds \<longrightarrow> (\<exists>k. machine_step m holds j k \<and> reachable m k)))"
proof -
  obtain s where s: "s \<in> set (mc_states m)" "st_identifier s = j"
    using reachable_state [OF assms(1,3)] by auto
  obtain s0 where s0: "s0 \<in> set (with_final ss)" "normalized_state (map st_identifier (mc_states m)) s0 s"
    using accepted_state [OF assms(1) s(1)] .
  have "has_default s0"
    using s0(1) assms(2) built_default
    by (auto simp: with_final_def has_default_def FINAL_STATE_def split: if_splits)
  then have default: "has_default s" using s0(2) normalized_default by blast
  have "\<exists>k. machine_step m holds j k" if nf: "\<not> is_final s" and h: "proper holds" for holds
  proof -
    have ne: "st_transitions s \<noteq> []"
      using not_detached [OF accepted_checks(3) [OF assms(1)] s(1)] nf by blast
    then obtain t where "find (\<lambda>t. holds (tr_condition t)) (st_transitions s) = Some t"
      using find_default [OF ne, of "\<lambda>t. holds (tr_condition t)"] default h
      by (auto simp: has_default_def proper_def)
    then show ?thesis using machine_step.normal [OF s(1)] s(2) by blast
  qed
  then show ?thesis using s assms(3) reachable.step by blast
qed

definition go :: "ident \<Rightarrow> machine_transition" where
  "go i = \<lparr>tr_target = i, tr_condition = TRUE, tr_description = None\<rparr>"

definition plain_state :: "ident \<Rightarrow> ident list \<Rightarrow> state" where
  "plain_state i ts =
     \<lparr>st_identifier = i, st_transitions = map go ts, st_exception = None, st_actions = [],
      st_declarations = [], st_description = None\<rparr>"

definition two_states :: machine where
  "two_states =
     \<lparr>mc_identifier = ''P::M'', mc_states = [plain_state ''A'' [''B''], plain_state ''B'' [''A'', ''Final''], FINAL_STATE],
      mc_declarations = [], mc_parameters = []\<rparr>"

lemma two_states_accepted:
  "make_machine ''P::M'' [plain_state ''A'' [''b''], plain_state ''B'' [''A'', ''Final'']] [] [] [] = Inr (two_states, [])"
  by code_simp


lemma plain_state_built:
  "ts \<noteq> [] \<Longrightarrow> \<forall>t\<in>set ts. \<not> id_eq t ''null'' \<Longrightarrow> built (plain_state i ts)"
  unfolding built_def
  by (rule exI [of _ i], rule exI [of _ "map go ts"], rule exI [of _ None], rule exI [of _ "[]"],
      rule exI [of _ "[]"], rule exI [of _ None])
    (auto simp: make_state_def plain_state_def go_def normalized_target_def normalize_actions_def
      is_true_def expr_eq_TRUE is_TRUE_def id_eq_def last_map assert_res_def map_idI)

theorem machine_never_stuck_witness:
  "\<exists>k. machine_step two_states (\<lambda>c. True) ''A'' k \<and> reachable two_states k"
proof -
  have "initial_state two_states = plain_state ''A'' [''B'']"
    by (simp add: initial_state_def two_states_def)
  then have r: "reachable two_states ''A''"
    using reachable.start [of two_states] by (simp add: plain_state_def)
  have b: "\<forall>s\<in>set [plain_state ''A'' [''b''], plain_state ''B'' [''A'', ''Final'']]. built s"
    by (auto intro!: plain_state_built simp: id_eq_def lower_def lower_char_def)
  have "\<not> is_final s" if "s \<in> set (mc_states two_states)" "st_identifier s = ''A''" for s
    using that by (auto simp: two_states_def is_final_def plain_state_def FINAL_STATE_def final_name_def)
  then show ?thesis
    using machine_never_stuck [OF two_states_accepted b r] by (auto simp: proper_def)
qed

section \<open>Reachability\<close>

definition self_loop :: "state \<Rightarrow> bool" where
  "self_loop s = list_ex (\<lambda>t. id_eq (tr_target t) (st_identifier s)) (all_transitions s)"

lemma distinct_lower: "distinct (map (lower \<circ> f) xs) \<Longrightarrow> x \<in> set xs \<Longrightarrow> y \<in> set xs \<Longrightarrow> id_eq (f x) (f y) \<Longrightarrow> x = y"
  by (metis comp_apply distinct_map id_eq_def inj_onD)

text \<open>
  C24. In an accepted state machine without transitions from a state to itself every state but the final
  one can be reached from the initial state.
\<close>

theorem all_states_reachable:
  assumes "make_machine i ss ds ps types = Inr (m, [])"
    and "\<forall>s\<in>set (mc_states m). \<not> self_loop s"
    and "s \<in> set (mc_states m)" "\<not> is_final s"
  shows "(machine_edge m)\<^sup>*\<^sup>* (st_identifier (initial_state m)) (st_identifier s)"
proof -
  let ?ss = "mc_states m"
  have d: "distinct (map (lower \<circ> st_identifier) ?ss)"
    using accepted_checks(2) [OF assms(1)] by (simp add: duplicate_errors_none)
  have "n < length ?ss \<Longrightarrow> \<not> is_final (?ss ! n) \<Longrightarrow>
      (machine_edge m)\<^sup>*\<^sup>* (st_identifier (initial_state m)) (st_identifier (?ss ! n))" for n
  proof (induction n rule: less_induct)
    case (less n)
    have mem: "?ss ! n \<in> set ?ss" using less.prems(1) by simp
    show ?case
    proof (cases "?ss ! n = initial_state m")
      case False
      then have "known (concat (map (\<lambda>s. map tr_target (all_transitions s)) (take (Suc n) ?ss))) (st_identifier (?ss ! n))"
        using reachability_errors_nth [OF accepted_checks(3) [OF assms(1)] less.prems(1)] less.prems(2) by simp
      then obtain s' t where s': "s' \<in> set (take (Suc n) ?ss)" and t: "t \<in> set (all_transitions s')"
          and eq: "id_eq (tr_target t) (st_identifier (?ss ! n))"
        by (auto simp: known_iff id_eq_def)
      obtain k where k: "k < Suc n" "s' = ?ss ! k"
        using s' less.prems(1) by (auto simp: in_set_conv_nth)
      have s'_mem: "s' \<in> set ?ss" using s' by (rule in_set_takeD)
      have "k \<noteq> n" using assms(2) s'_mem t eq k(2) by (auto simp: self_loop_def list_ex_iff)
      then have kn: "k < n" using k(1) by simp
      have "\<not> is_final s'" using t by (auto simp: is_final_def all_transitions_def)
      then have r: "(machine_edge m)\<^sup>*\<^sup>* (st_identifier (initial_state m)) (st_identifier s')"
        using less.IH [OF kn] k(2) kn less.prems(1) by simp
      obtain s'' where s'': "s'' \<in> set ?ss" "tr_target t = st_identifier s''"
        using accepted_targets [OF assms(1) s'_mem t] by auto
      have "s'' = ?ss ! n" using distinct_lower [OF d s''(1) mem] eq s''(2) by simp
      then have "machine_edge m (st_identifier s') (st_identifier (?ss ! n))"
        using s'_mem t s''(2) by (auto simp: machine_edge_def)
      then show ?thesis using r by simp
    qed simp
  qed
  then show ?thesis using assms(3,4) by (metis in_set_conv_nth)
qed

theorem all_states_reachable_witness:
  "(machine_edge two_states)\<^sup>*\<^sup>* (st_identifier (initial_state two_states)) ''B''"
proof -
  have m: "plain_state ''B'' [''A'', ''Final''] \<in> set (mc_states two_states)"
    "\<not> is_final (plain_state ''B'' [''A'', ''Final''])" "st_identifier (plain_state ''B'' [''A'', ''Final'']) = ''B''"
    by (auto simp: two_states_def plain_state_def is_final_def)
  have l: "\<forall>s\<in>set (mc_states two_states). \<not> self_loop s"
    by code_simp
  show ?thesis using all_states_reachable [OF two_states_accepted l m(1,2)] m(3) by simp
qed

text \<open>
  The check is made with the transitions of the states up to the current one, the current one included: a
  transition from a state to itself hides that the state cannot be reached.
\<close>

lemma self_loop_hides_unreachable:
  "make_machine ''P::M'' [plain_state ''A'' [''Final''], plain_state ''B'' [''B'']] [] [] [] =
     Inr (\<lparr>mc_identifier = ''P::M'', mc_states = [plain_state ''A'' [''Final''], plain_state ''B'' [''B''], FINAL_STATE],
           mc_declarations = [], mc_parameters = []\<rparr>, [])"
  by code_simp

text \<open>A state that is reached from a state listed after it only is reported as unreachable.\<close>

lemma reachable_state_rejected:
  "bind_res
    (make_machine ''P::M'' [plain_state ''A'' [''C''], plain_state ''B'' [''Final''], plain_state ''C'' [''B'']] [] [] [])
    (\<lambda>(m, es). Inr es) = Inr [UnreachableState ''B'']"
  by code_simp

text \<open>
  An exception transition to a state that does not exist is not reported: the construction fails, as the
  target of the last transition exists.
\<close>

lemma unknown_exception_target_crashes:
  "make_machine ''P::M''
     [plain_state ''A'' [''Final'']\<lparr>st_exception := Some (go ''B'')\<rparr>] [] [] [] = Inl (KeyError ''B'')"
  by code_simp

section \<open>Channel statements\<close>

definition channel_state :: "statement list \<Rightarrow> (ident \<times> decl) list \<Rightarrow> bool" where
  "channel_state as ds =
     (ds = [] \<and> list_all is_channel_statement as
      \<and> distinct (map (lower \<circ> stmt_identifier) as)
      \<and> (\<exists>is. map channel_parameter as = map Variable is \<and> distinct (map lower is)))"

lemma io_conflicts_none:
  "io_conflicts a as = [] \<longleftrightarrow>
   (\<forall>b\<in>set as. \<not> id_eq (stmt_identifier a) (stmt_identifier b)
      \<and> same_variable (channel_parameter a) (channel_parameter b) = None)"
  by (auto simp: io_conflicts_def split: option.splits)

lemma is_variable_iff: "is_variable e \<longleftrightarrow> (\<exists>i. e = Variable i)"
  by (cases e) (auto simp: is_variable_def)

lemma io_statement_errors_none:
  "io_statement_errors as = [] \<longleftrightarrow>
   distinct (map (lower \<circ> stmt_identifier) as)
   \<and> (\<exists>is. map channel_parameter as = map Variable is \<and> distinct (map lower is))"
proof (induction as)
  case (Cons a as)
  have "io_statement_errors (a # as) = [] \<longleftrightarrow>
      (\<exists>i. channel_parameter a = Variable i) \<and> io_conflicts a as = [] \<and> io_statement_errors as = []"
    by (simp add: is_variable_iff)
  also have "\<dots> \<longleftrightarrow> distinct (map (lower \<circ> stmt_identifier) (a # as))
     \<and> (\<exists>is. map channel_parameter (a # as) = map Variable is \<and> distinct (map lower is))"
  proof -
    have c: "io_conflicts a as = [] \<longleftrightarrow> lower (stmt_identifier a) \<notin> (lower \<circ> stmt_identifier) ` set as
        \<and> lower i \<notin> set (map lower is)"
      if "channel_parameter a = Variable i" "map channel_parameter as = map Variable is" for i "is"
    proof -
      have "set (map channel_parameter as) = Variable ` set is" using that(2) by simp
      then have p: "channel_parameter ` set as = Variable ` set is" by simp
      have "(\<forall>b\<in>set as. same_variable (channel_parameter a) (channel_parameter b) = None) \<longleftrightarrow>
          (\<forall>e\<in>channel_parameter ` set as. same_variable (Variable i) e = None)"
        using that(1) by simp
      also have "\<dots> \<longleftrightarrow> (\<forall>j\<in>set is. \<not> id_eq i j)" unfolding p by simp
      finally show ?thesis by (auto simp: io_conflicts_none id_eq_def image_iff)
    qed
    show ?thesis
    proof (intro iffI conjI; elim conjE exE)
      fix i assume a: "channel_parameter a = Variable i" "io_conflicts a as = []" "io_statement_errors as = []"
      then obtain "is" where "is": "map channel_parameter as = map Variable is" "distinct (map lower is)"
          and d: "distinct (map (lower \<circ> stmt_identifier) as)"
        using Cons.IH by blast
      show "distinct (map (lower \<circ> stmt_identifier) (a # as))"
        using a(2) d c [OF a(1) "is"(1)] by simp
      show "\<exists>is. map channel_parameter (a # as) = map Variable is \<and> distinct (map lower is)"
        using a(1,2) "is" c [OF a(1) "is"(1)] by (intro exI [of _ "i # is"]) simp
    next
      fix "is" assume d: "distinct (map (lower \<circ> stmt_identifier) (a # as))"
        and "is": "map channel_parameter (a # as) = map Variable is" "distinct (map lower is)"
      then obtain i js where e: "is = i # js" "channel_parameter a = Variable i" "map channel_parameter as = map Variable js"
        by (cases "is") auto
      show "\<exists>i. channel_parameter a = Variable i" using e(2) by blast
      show "io_conflicts a as = []" using c [OF e(2,3)] d "is"(2) e(1) by simp
      have "distinct (map (lower \<circ> stmt_identifier) as)" "distinct (map lower js)" using d "is"(2) e(1) by simp_all
      then show "io_statement_errors as = []" using Cons.IH e(3) by blast
    qed
  qed
  finally show ?case .
qed simp

text \<open>
  The check of channel statements accepts the actions of a state exactly if none of them is a channel
  statement, or all of them are, the state has no declarations, no channel is used twice, and the
  parameters are variables that are all different.
\<close>

theorem io_state_accepted_iff:
  "validate_io_states as ds = [] \<longleftrightarrow> (list_ex is_channel_statement as \<longrightarrow> channel_state as ds)"
proof (cases "list_ex is_channel_statement as")
  case False
  then have "filter is_channel_statement as = []" by (auto simp: filter_empty_conv list_ex_iff)
  then show ?thesis using False by (simp add: validate_io_states_def)
next
  case True
  then have "filter is_channel_statement as \<noteq> []" by (auto simp: filter_empty_conv list_ex_iff)
  moreover have "length (filter is_channel_statement as) = length as \<longleftrightarrow> list_all is_channel_statement as"
    by (metis filter_True length_filter_less list_all_iff nat_neq_iff)
  moreover have "list_all is_channel_statement as \<Longrightarrow> filter is_channel_statement as = as"
    by (simp add: list_all_iff)
  ultimately show ?thesis
    using True by (auto simp: validate_io_states_def channel_state_def Let_def io_statement_errors_none)
qed

theorem io_state_accepted_iff_witness:
  "\<not> channel_state [ReadFrom ''C'' (Variable ''M'') Undefined, WriteTo ''c'' (Variable ''N'') Undefined] []"
proof -
  have "validate_io_states [ReadFrom ''C'' (Variable ''M'') Undefined, WriteTo ''c'' (Variable ''N'') Undefined] [] \<noteq> []"
    by code_simp
  then show ?thesis
    using io_state_accepted_iff [of "[ReadFrom ''C'' (Variable ''M'') Undefined, WriteTo ''c'' (Variable ''N'') Undefined]" "[]"]
    by blast
qed

section \<open>Unused declarations\<close>

text \<open>The variables that the parts of a state mention.\<close>

definition mentions :: "state \<Rightarrow> ident \<Rightarrow> bool" where
  "mentions s v =
     ((\<exists>a\<in>set (st_actions s). \<exists>vs. statement_variables a = Inr vs \<and> v \<in> set vs)
      \<or> (\<exists>t\<in>set (st_transitions s). \<exists>vs. variables (tr_condition t) = Inr vs \<and> v \<in> set vs)
      \<or> (\<exists>(k, d)\<in>set (st_declarations s). \<exists>vs. declaration_variables d = Inr vs \<and> v \<in> set vs))"

lemma references_member: "(sc, k) \<in> set (references vis vs) \<Longrightarrow> \<exists>v\<in>set vs. lower v = k"
  by (auto simp: references_def map_filter_def)

lemma declaration_references_member:
  "declaration_references sc' vis ds = Inr rs \<Longrightarrow> (sc, k) \<in> set rs \<Longrightarrow>
   \<exists>(i, d)\<in>set ds. \<exists>vs v. declaration_variables d = Inr vs \<and> v \<in> set vs \<and> lower v = k"
proof (induction ds arbitrary: vis rs)
  case (Cons kd ds)
  then obtain vs rs' where vs: "declaration_variables (snd kd) = Inr vs" and rs: "rs = references vis vs @ rs'"
      and ds: "declaration_references sc' (id_set (fst kd) sc' vis) ds = Inr rs'"
    by (auto simp: bind_res_eq_Inr)
  from Cons.prems(2) rs consider "(sc, k) \<in> set (references vis vs)" | "(sc, k) \<in> set rs'" by auto
  then show ?case
  proof cases
    case 1
    then show ?thesis using references_member [OF 1] vs by (cases kd) auto
  next
    case 2
    then show ?thesis using Cons.IH [OF ds 2] by auto
  qed
qed simp

lemma map_res_member: "map_res f xs = Inr ys \<Longrightarrow> y \<in> set ys \<Longrightarrow> \<exists>x\<in>set xs. f x = Inr y"
  by (induction xs arbitrary: ys) (auto simp: bind_res_eq_Inr)

lemma state_references_mentions:
  assumes "state_references vis n s = Inr rs" "(sc, k) \<in> set rs"
  shows "\<exists>v. mentions s v \<and> lower v = k"
proof -
  obtain ds as ts where ds: "declaration_references (Some n) vis (st_declarations s) = Inr ds"
      and as: "map_res statement_variables (st_actions s) = Inr as"
      and ts: "map_res (\<lambda>t. variables (tr_condition t)) (st_transitions s) = Inr ts"
      and rs: "(sc, k) \<in> set ds \<or> (sc, k) \<in> set (references (visible_in (Some n) (st_declarations s) vis) (concat as))
        \<or> (sc, k) \<in> set (references (visible_in (Some n) (st_declarations s) vis) (concat ts))"
    using assms by (auto simp: state_references_def Let_def bind_res_eq_Inr)
  from rs show ?thesis
  proof (elim disjE)
    assume "(sc, k) \<in> set ds"
    then show ?thesis using declaration_references_member [OF ds] by (fastforce simp: mentions_def)
  next
    assume "(sc, k) \<in> set (references (visible_in (Some n) (st_declarations s) vis) (concat as))"
    then show ?thesis
      using map_res_member [OF as] by (fastforce simp: mentions_def dest!: references_member)
  next
    assume "(sc, k) \<in> set (references (visible_in (Some n) (st_declarations s) vis) (concat ts))"
    then show ?thesis
      using map_res_member [OF ts] by (fastforce simp: mentions_def dest!: references_member)
  qed
qed

text \<open>The scopes that references can have.\<close>

lemma visible_in_values: "snd ` set (visible_in sc ds vis) \<subseteq> insert sc (snd ` set vis)"
  unfolding visible_in_def
proof (induction ds arbitrary: vis)
  case (Cons kd ds)
  then show ?case using Cons [of "id_set (fst kd) sc vis"] id_set_values [of "fst kd" sc vis]
    by (auto simp: case_prod_unfold)
qed auto

lemma references_scope: "(sc, k) \<in> set (references vis vs) \<Longrightarrow> sc \<in> snd ` set vis"
  by (auto simp: references_def map_filter_def dest: id_lookup_value)

lemma declaration_references_scope:
  "declaration_references sc' vis ds = Inr rs \<Longrightarrow> (sc, k) \<in> set rs \<Longrightarrow> sc \<in> insert sc' (snd ` set vis)"
proof (induction ds arbitrary: vis rs)
  case (Cons kd ds)
  then obtain vs rs' where rs: "rs = references vis vs @ rs'"
      and ds: "declaration_references sc' (id_set (fst kd) sc' vis) ds = Inr rs'"
    by (auto simp: bind_res_eq_Inr)
  from Cons.prems(2) rs consider "(sc, k) \<in> set (references vis vs)" | "(sc, k) \<in> set rs'" by auto
  then show ?case
  proof cases
    case 2
    then show ?thesis using Cons.IH [OF ds 2] id_set_values [of "fst kd" sc' vis] by auto
  qed (simp add: references_scope)
qed simp

lemma state_references_scope:
  assumes "state_references vis n s = Inr rs" "(sc, k) \<in> set rs"
  shows "sc \<in> insert (Some n) (snd ` set vis)"
proof -
  let ?vis = "visible_in (Some n) (st_declarations s) vis"
  obtain ds as ts where ds: "declaration_references (Some n) vis (st_declarations s) = Inr ds"
      and "(sc, k) \<in> set ds \<or> (sc, k) \<in> set (references ?vis (concat as)) \<or> (sc, k) \<in> set (references ?vis (concat ts))"
    using assms by (auto simp: state_references_def Let_def bind_res_eq_Inr)
  then have "(sc, k) \<in> set ds \<or> (\<exists>vs. (sc, k) \<in> set (references ?vis vs))" by blast
  then show ?thesis
    using declaration_references_scope [OF ds] references_scope [of sc k ?vis]
      visible_in_values [of "Some n" "st_declarations s" vis] by blast
qed

lemma enumerate_member: "(n, s) \<in> set (enumerate 0 ss) \<longleftrightarrow> n < length ss \<and> s = ss ! n"
  by (auto simp: in_set_enumerate_eq)

lemma local_reference:
  assumes "machine_references m = Inr rs" "(Some n, k) \<in> set rs"
  shows "n < length (mc_states m) \<and> (\<exists>v. mentions (mc_states m ! n) v \<and> lower v = k)"
proof -
  let ?vis = "visible_in None (global_declarations m) []"
  obtain gs ys where gs: "declaration_references None [] (global_declarations m) = Inr gs"
      and ys: "map_res (\<lambda>(n, s). state_references ?vis n s) (enumerate 0 (mc_states m)) = Inr ys"
      and rs: "rs = gs @ concat ys"
    using assms(1) by (auto simp: machine_references_def Let_def bind_res_eq_Inr)
  have "(Some n, k) \<notin> set gs" using declaration_references_scope [OF gs, of "Some n" k] by auto
  then obtain y where "y \<in> set ys" "(Some n, k) \<in> set y" using assms(2) rs by auto
  then obtain n' where n': "n' < length (mc_states m)" "state_references ?vis n' (mc_states m ! n') = Inr y"
    using map_res_member [OF ys] by (fastforce simp: enumerate_member)
  have "n = n'"
    using state_references_scope [OF n'(2) \<open>(Some n, k) \<in> set y\<close>] visible_in_values [of None "global_declarations m" "[]"]
    by auto
  then show ?thesis using n'(1) state_references_mentions [OF n'(2) \<open>(Some n, k) \<in> set y\<close>] by simp
qed

lemma accepted_usage:
  assumes "make_machine i ss ds ps types = Inr (m, [])"
  shows "validate_usage m = Inr []"
  using assms by (auto simp: make_machine_def assert_res_def validate_machine_def bind_res_eq_Inr split: if_splits)

text \<open>
  In an accepted state machine every variable that a state declares is mentioned by an action, a
  transition or a declaration of that state.
\<close>

theorem local_declarations_used:
  assumes "make_machine i ss ds ps types = Inr (m, [])"
    and "s \<in> set (mc_states m)" "(k, d) \<in> set (st_declarations s)"
  shows "\<exists>v. mentions s v \<and> id_eq v k"
proof -
  obtain rs where rs: "machine_references m = Inr rs"
      and us: "concat (map (\<lambda>(n, s). usage_errors rs (Some n) (st_declarations s)) (enumerate 0 (mc_states m))) = []"
    using accepted_usage [OF assms(1)] by (auto simp: validate_usage_def bind_res_eq_Inr)
  obtain n where n: "n < length (mc_states m)" "s = mc_states m ! n" using assms(2) by (metis in_set_conv_nth)
  then have "(n, s) \<in> set (enumerate 0 (mc_states m))" by (simp add: enumerate_member)
  then have "usage_errors rs (Some n) (st_declarations s) = []" using us by auto
  then have "(Some n, lower k) \<in> set rs"
    using assms(3) by (auto simp: usage_errors_def)
  then show ?thesis using local_reference [OF rs] n(2) by (auto simp: id_eq_def)
qed

definition local_state :: state where
  "local_state = (plain_state ''A'' [''Final''])
     \<lparr>st_declarations := [(''X'', VariableDeclaration ''X'' ''Boolean'' None BOOLEAN)],
      st_actions := [VariableAssignment ''x'' TRUE BOOLEAN]\<rparr>"

definition local_machine :: machine where
  "local_machine =
     \<lparr>mc_identifier = ''P::M'', mc_states = [local_state, FINAL_STATE],
      mc_declarations = [], mc_parameters = []\<rparr>"

lemma local_machine_accepted: "make_machine ''P::M'' [local_state] [] [] [] = Inr (local_machine, [])"
  by code_simp

theorem local_declarations_used_witness: "\<exists>v. mentions local_state v \<and> id_eq v ''X''"
proof -
  have "local_state \<in> set (mc_states local_machine)" by (simp add: local_machine_def)
  moreover have "(''X'', VariableDeclaration ''X'' ''Boolean'' None BOOLEAN) \<in> set (st_declarations local_state)"
    by (simp add: local_state_def)
  ultimately show ?thesis by (rule local_declarations_used [OF local_machine_accepted])
qed

end
