(* ===== verification/Machine_Actions.thy ===== *)
theory Machine_Actions
  imports Machine
begin

text \<open>
  The normalization of the actions of a state replaces consecutive assignments to fields of a message by
  one assignment of a delta aggregate.  This theory relates the effect of both on the contents of
  messages.
\<close>

section \<open>Effect of actions on messages\<close>

text \<open>
  The values of the fields of messages, by their names in lower case.  The values of expressions and the
  effect of other statements are arguments.  A delta aggregate evaluates all its expressions before it
  sets the fields.
\<close>

type_synonym 'v fields = "string \<Rightarrow> 'v"

type_synonym 'v messages = "string \<Rightarrow> 'v fields"

definition set_field :: "ident \<Rightarrow> 'v \<Rightarrow> 'v fields \<Rightarrow> 'v fields" where
  "set_field f v r = r(lower f := v)"

definition set_fields :: "(expr \<Rightarrow> 'v) \<Rightarrow> (ident \<times> expr) list \<Rightarrow> 'v fields \<Rightarrow> 'v fields" where
  "set_fields v fs r = fold (\<lambda>(f, e). set_field f (v e)) fs r"

fun perform ::
    "(expr \<Rightarrow> 'v messages \<Rightarrow> 'v) \<Rightarrow> (statement \<Rightarrow> 'v messages \<Rightarrow> 'v messages) \<Rightarrow> statement
     \<Rightarrow> 'v messages \<Rightarrow> 'v messages" where
  "perform eval other (MessageFieldAssignment m f e t) \<sigma> =
     \<sigma>(lower m := set_field f (eval e \<sigma>) (\<sigma> (lower m)))"
| "perform eval other (VariableAssignment i (MessageAggregate True j fs) t) \<sigma> =
     \<sigma>(lower i := set_fields (\<lambda>e. eval e \<sigma>) fs (\<sigma> (lower j)))"
| "perform eval other s \<sigma> = other s \<sigma>"

definition perform_all ::
    "(expr \<Rightarrow> 'v messages \<Rightarrow> 'v) \<Rightarrow> (statement \<Rightarrow> 'v messages \<Rightarrow> 'v messages) \<Rightarrow> statement list
     \<Rightarrow> 'v messages \<Rightarrow> 'v messages" where
  "perform_all eval other as \<sigma> = fold (perform eval other) as \<sigma>"

lemma perform_all_simps [simp]:
  "perform_all eval other [] \<sigma> = \<sigma>"
  "perform_all eval other (a # as) \<sigma> = perform_all eval other as (perform eval other a \<sigma>)"
  "perform_all eval other (as @ bs) \<sigma> = perform_all eval other bs (perform_all eval other as \<sigma>)"
  by (simp_all add: perform_all_def)

text \<open>The expression assigned to a field does not read the message.\<close>

definition independent :: "(expr \<Rightarrow> 'v messages \<Rightarrow> 'v) \<Rightarrow> statement \<Rightarrow> bool" where
  "independent eval a =
     (case a of
        MessageFieldAssignment m f e t \<Rightarrow> \<forall>\<sigma> r. eval e (\<sigma>(lower m := r)) = eval e \<sigma>
      | _ \<Rightarrow> True)"

section \<open>Collected assignments\<close>

lemma set_fields_simps [simp]:
  "set_fields v [] r = r" "set_fields v ((f, e) # fs) r = set_fields v fs (set_field f (v e) r)"
  by (simp_all add: set_fields_def)

lemma set_fields_other:
  "lower f \<notin> lower ` fst ` set fs \<Longrightarrow> set_fields v fs (r(lower f := x)) = (set_fields v fs r)(lower f := x)"
proof (induction fs arbitrary: r)
  case (Cons fe fs)
  obtain g e where fe: "fe = (g, e)" by (cases fe)
  have f: "lower f \<noteq> lower g" "lower f \<notin> lower ` fst ` set fs"
    using Cons.prems fe by auto
  show ?case
    unfolding fe set_fields_simps set_field_def using Cons.IH [OF f(2)] fun_upd_twist [OF f(1), of r x "v e"] by metis
qed simp

lemma id_set_keys: "lower ` fst ` set (id_set k v d) = insert (lower k) (lower ` fst ` set d)"
  by (induction k v d rule: id_set.induct) (auto simp: id_eq_def)

lemma id_set_distinct: "distinct (map (lower \<circ> fst) d) \<Longrightarrow> distinct (map (lower \<circ> fst) (id_set k v d))"
proof (induction k v d rule: id_set.induct)
  case (2 k v k' v' d)
  have "lower k' \<notin> lower ` fst ` set (id_set k v d)" if "\<not> id_eq k k'"
    using 2(2) that unfolding id_set_keys by (auto simp: id_eq_def image_image)
  then show ?case using 2 by (auto simp: image_image)
qed simp

lemma set_fields_id_set:
  assumes "distinct (map (lower \<circ> fst) d)"
  shows "set_fields v (id_set f e d) r = set_field f (v e) (set_fields v d r)"
  using assms
proof (induction d arbitrary: r)
  case (Cons kv d)
  obtain k e' where kv: "kv = (k, e')" by (cases kv)
  have k: "lower k \<notin> lower ` fst ` set d" using Cons.prems kv by (auto simp: image_image)
  show ?case
  proof (cases "id_eq f k")
    case True
    then have "lower f = lower k" by (simp add: id_eq_def)
    then show ?thesis
      using True by (simp add: kv set_field_def set_fields_other [OF k] fun_eq_iff)
  next
    case False
    then show ?thesis using Cons kv by simp
  qed
qed simp

lemma field_values_of_append:
  "fold (\<lambda>a d. case assigned_field a of Some (f, e) \<Rightarrow> id_set f e d | None \<Rightarrow> d) as d =
   fold (\<lambda>(f, e). id_set f e) (List.map_filter assigned_field as) d"
  by (induction as arbitrary: d) (auto simp: List.map_filter_simps split: option.splits)

lemma set_fields_dict:
  "distinct (map (lower \<circ> fst) d) \<Longrightarrow>
   set_fields v (fold (\<lambda>(f, e). id_set f e) fs d) r = set_fields v fs (set_fields v d r)"
proof (induction fs arbitrary: d)
  case (Cons x fs)
  obtain f e where x: "x = (f, e)" by (cases x)
  show ?case
    using Cons.IH [OF id_set_distinct [OF Cons.prems]] by (simp add: x set_fields_id_set [OF Cons.prems])
qed simp

text \<open>Field assignments of one message.\<close>

definition one_message :: "ident \<Rightarrow> statement list \<Rightarrow> bool" where
  "one_message m as = list_all (\<lambda>a. is_field_assignment a \<and> id_eq m (stmt_identifier a)) as"

lemma perform_fields:
  assumes "one_message m as" "list_all (independent eval) as"
  shows "perform_all eval other as \<sigma> =
    \<sigma>(lower m := set_fields (\<lambda>e. eval e \<sigma>) (List.map_filter assigned_field as) (\<sigma> (lower m)))"
  using assms
proof (induction as arbitrary: \<sigma>)
  case (Cons a as)
  obtain m' f e t where a: "a = MessageFieldAssignment m' f e t"
    using Cons.prems(1) by (cases a) (auto simp: one_message_def)
  have m': "lower m' = lower m" using Cons.prems(1) by (simp add: one_message_def a id_eq_def)
  let ?\<sigma> = "\<sigma>(lower m := set_field f (eval e \<sigma>) (\<sigma> (lower m)))"
  have "eval x ?\<sigma> = eval x \<sigma>" if "(g, x) \<in> set (List.map_filter assigned_field as)" for g x
  proof -
    obtain b where b: "b \<in> set as" "assigned_field b = Some (g, x)"
      using \<open>(g, x) \<in> set (List.map_filter assigned_field as)\<close> by (auto simp: List.map_filter_def)
    from b(2) obtain m'' t' where "b = MessageFieldAssignment m'' g x t'" by (cases b) auto
    then have "independent eval (MessageFieldAssignment m'' g x t')" "lower m'' = lower m"
      using b(1) Cons.prems by (auto simp: list_all_iff one_message_def id_eq_def)
    then show ?thesis by (simp add: independent_def)
  qed
  then have "set_fields (\<lambda>e. eval e ?\<sigma>) (List.map_filter assigned_field as) r =
      set_fields (\<lambda>e. eval e \<sigma>) (List.map_filter assigned_field as) r" for r
    unfolding set_fields_def by (intro fold_cong) auto
  moreover have "one_message m as" "list_all (independent eval) as"
    using Cons.prems by (simp_all add: one_message_def)
  ultimately show ?case
    unfolding perform_all_simps a perform.simps m' by (subst Cons.IH) (simp_all add: List.map_filter_simps fun_eq_iff)
qed (simp add: List.map_filter_simps)

lemma collect_assignments_correct:
  assumes "one_message m as" "as \<noteq> []" "list_all (independent eval) as"
  shows "perform eval other (collect_assignments as) \<sigma> = perform_all eval other as \<sigma>"
proof -
  have "lower (stmt_identifier (hd as)) = lower m"
    using assms(1,2) by (cases as) (auto simp: one_message_def id_eq_def)
  moreover have "set_fields v (field_values_of as) r = set_fields v (List.map_filter assigned_field as) r" for v r
    by (simp add: field_values_of_def field_values_of_append set_fields_dict)
  ultimately show ?thesis
    unfolding perform_fields [OF assms(1,3)] collect_assignments_def Let_def perform.simps by metis
qed

section \<open>Normalized actions\<close>

definition flush :: "statement list \<Rightarrow> statement list" where
  "flush fas = (if length fas = 1 then fas else if length fas > 1 then [collect_assignments fas] else [])"

lemma normalize_actions_flush:
  "normalize_actions as = (case fold group_step as ([], []) of (fas, actions) \<Rightarrow> actions @ flush fas)"
  by (auto simp: normalize_actions_def flush_def split: prod.splits)

lemma group_step_flush:
  "group_step a (fas, actions) =
     (if is_field_assignment a \<and> fas \<noteq> [] \<and> same_message (hd fas) a then (fas @ [a], actions)
      else if is_field_assignment a then ([a], actions @ flush fas)
      else ([], actions @ flush fas @ [a]))"
  by (cases fas; cases "tl fas") (auto simp: flush_def)

definition pending :: "statement list \<Rightarrow> bool" where
  "pending fas = (fas = [] \<or> one_message (stmt_identifier (hd fas)) fas)"

lemma pending_step: "pending fas \<Longrightarrow> pending (fst (group_step a (fas, actions)))"
  unfolding group_step_flush by (cases fas) (auto simp: pending_def one_message_def same_message_def)

lemma perform_flush:
  assumes "pending fas" "list_all (independent eval) fas"
  shows "perform_all eval other (flush fas) \<sigma> = perform_all eval other fas \<sigma>"
  using assms collect_assignments_correct [of "stmt_identifier (hd fas)" fas eval other \<sigma>]
  by (cases fas; cases "tl fas") (auto simp: flush_def pending_def)

lemma perform_grouped:
  assumes "list_all (independent eval) as" "list_all (independent eval) fas" "pending fas"
  shows "perform_all eval other (case fold group_step as (fas, actions) of (fas', actions') \<Rightarrow> actions' @ flush fas') \<sigma>
    = perform_all eval other (actions @ fas @ as) \<sigma>"
  using assms
proof (induction as arbitrary: fas actions)
  case Nil
  then show ?case by (simp add: perform_flush)
next
  case (Cons a as)
  obtain fas' actions' where g: "group_step a (fas, actions) = (fas', actions')" by fastforce
  have p: "pending fas'" using pending_step [OF Cons.prems(3), of a actions] g by simp
  have i: "list_all (independent eval) fas'"
    using g Cons.prems unfolding group_step_flush by (auto split: if_splits)
  have "perform_all eval other (actions' @ fas') \<tau> = perform_all eval other (actions @ fas @ [a]) \<tau>" for \<tau>
    using g Cons.prems(2,3) unfolding group_step_flush by (auto split: if_splits simp: perform_flush)
  then show ?case using Cons.IH [OF _ i p, of actions'] Cons.prems g by simp
qed


text \<open>An evaluation of numbers and fields.\<close>

definition field_eval :: "expr \<Rightarrow> int messages \<Rightarrow> int" where
  "field_eval e \<sigma> =
     (case e of
        Number n b \<Rightarrow> n
      | Selected p f \<Rightarrow> (case p of Variable m \<Rightarrow> \<sigma> (lower m) (lower f) | _ \<Rightarrow> 0)
      | _ \<Rightarrow> 0)"


text \<open>
  Otherwise it can: of the assignments \<open>M.A := 1\<close> and \<open>M.B := M.A\<close> the second one reads the old value of
  the field after the normalization.
\<close>

lemma normalize_actions_reads_old_value:
  "let as = [MessageFieldAssignment ''M'' ''A'' (Number 1 0) Undefined,
             MessageFieldAssignment ''M'' ''B'' (Selected (Variable ''M'') ''A'') Undefined] in
   perform_all field_eval (\<lambda>s \<sigma>. \<sigma>) as (\<lambda>m f. 0) ''m'' ''b'' = 1
   \<and> perform_all field_eval (\<lambda>s \<sigma>. \<sigma>) (normalize_actions as) (\<lambda>m f. 0) ''m'' ''b'' = 0"
  by code_simp

end
