(* ===== verification/Expr_Check.thy ===== *)
theory Expr_Check
  imports Tac_Gen
begin

text \<open>
  The type checks of expressions (\<open>check_type\<close>, \<open>check_type_instance\<close> and \<open>_check_type_subexpr\<close> in
  \<open>rflx/expr.py\<close>, with the functions of \<open>ty.rs\<close> that compare an actual with the expected types).
\<close>

section \<open>Comparing types\<close>

text \<open>The classes of types (\<open>TyDiscriminants\<close>).\<close>

datatype ty_class =
    UndefinedC | AnyC | EnumerationC | AnyIntegerC | UniversalIntegerC | IntegerC | CompositeC
  | AggregateC | SequenceC | CompoundC | StructureC | MessageC | ChannelC

fun class_of_ty :: "ty \<Rightarrow> ty_class" where
  "class_of_ty Undefined = UndefinedC"
| "class_of_ty Any = AnyC"
| "class_of_ty (Enumeration i) = EnumerationC"
| "class_of_ty (UniversalInteger b) = UniversalIntegerC"
| "class_of_ty (Integer i b) = IntegerC"
| "class_of_ty (ty.Aggregate t) = AggregateC"
| "class_of_ty (Sequence i t) = SequenceC"
| "class_of_ty (Structure i p f) = StructureC"
| "class_of_ty (Message i p f) = MessageC"
| "class_of_ty (Channel r w) = ChannelC"

definition is_instance :: "ty_class \<Rightarrow> ty_class \<Rightarrow> bool" where
  "is_instance c d =
     (if c = UndefinedC \<and> d = AnyC \<or> c = AnyC \<and> d = UndefinedC then False
      else
        c = AnyC \<or> d = AnyC
        \<or> (c = UniversalIntegerC \<or> c = IntegerC) \<and> d = AnyIntegerC
        \<or> (c = AggregateC \<or> c = SequenceC) \<and> d = CompositeC
        \<or> (c = StructureC \<or> c = MessageC) \<and> d = CompoundC
        \<or> c = d)"

datatype type_error =
    UndefinedEntity
  | IncompatibleType ty "ty list"
  | UnexpectedType ty "ty_class list"
  | PresentPrefix
  | HeadPrefix
  | InvalidField ident
  | MissingArguments
  | TooManyArguments
  | InvalidConversion
  | InvalidConversionArgument
  | InvalidPosition ident
  | MissingFields
  | IncompatibleBranches ty ty
  | DuplicateChoices
  | ChoicesMissing
  | InvalidChoices
  | InvalidDiscreteChoice ty

definition check_type :: "ty \<Rightarrow> ty list \<Rightarrow> type_error list" where
  "check_type actual expected =
     (if actual = Undefined then [UndefinedEntity]
      else if Undefined \<notin> set expected \<and> \<not> list_ex (is_compatible actual) expected
      then [IncompatibleType actual expected]
      else [])"

definition check_type_instance :: "ty \<Rightarrow> ty_class list \<Rightarrow> type_error list" where
  "check_type_instance actual expected =
     (if actual = Undefined then [UndefinedEntity]
      else if \<not> list_ex (is_instance (class_of_ty actual)) expected
      then [UnexpectedType actual expected]
      else [])"

section \<open>The types of names\<close>

fun type_name :: "ty \<Rightarrow> ident" where
  "type_name (Enumeration i) = i"
| "type_name (Integer i b) = i"
| "type_name (Sequence i t) = i"
| "type_name (Structure i p f) = i"
| "type_name (Message i p f) = i"
| "type_name _ = []"

text \<open>
  The types that the model assigns to the names in an expression before it is checked (the argument
  \<open>typify_variable\<close>); functions and conversions have the types of their arguments, too.  Message types
  have the combinations of fields that form a message and the refinements of their fields, and
  enumeration types their literals.
\<close>

record tenv =
  te_variable :: "ident \<Rightarrow> ty"
  te_literal :: "ident \<Rightarrow> ty"
  te_type_name :: "ident \<Rightarrow> ty"
  te_call :: "ident \<Rightarrow> ty \<times> ty list"
  te_conversion :: "ident \<Rightarrow> ty \<times> ty list"
  te_aggregate :: "ident \<Rightarrow> ty"
  te_delta :: "ident \<Rightarrow> ty"
  te_combinations :: "ident \<Rightarrow> string list list"
  te_refinements :: "ident \<Rightarrow> (ident \<times> ty) list"
  te_literals :: "ident \<Rightarrow> ident list"

definition bind_variable :: "ident \<Rightarrow> ty \<Rightarrow> tenv \<Rightarrow> tenv" where
  "bind_variable i t te = te\<lparr>te_variable := (\<lambda>j. if id_eq j i then t else te_variable te j)\<rparr>"

definition iterated_type :: "ty \<Rightarrow> ty" where
  "iterated_type t = (case t of ty.Aggregate e \<Rightarrow> e | Sequence i e \<Rightarrow> e | _ \<Rightarrow> Any)"

definition universal :: "int \<Rightarrow> ty" where
  "universal n = UniversalInteger (n, n)"

definition or_base_integer :: "ty \<Rightarrow> ty" where
  "or_base_integer t = (if t = Undefined then BASE_INTEGER else t)"

fun attribute_type :: "attribute \<Rightarrow> ty" where
  "attribute_type Size = UNIVERSAL_INTEGER"
| "attribute_type Length = UNIVERSAL_INTEGER"
| "attribute_type First = UNIVERSAL_INTEGER"
| "attribute_type Last = UNIVERSAL_INTEGER"
| "attribute_type ValidChecksum = BOOLEAN"
| "attribute_type Valid = BOOLEAN"
| "attribute_type Present = BOOLEAN"
| "attribute_type HasData = BOOLEAN"
| "attribute_type Head = Undefined"
| "attribute_type Opaque = OPAQUE"
| "attribute_type Constrained = Undefined"

text \<open>The type that the constructor of an expression sets, from the types of the parts at that time.\<close>

fun initial_type :: "tenv \<Rightarrow> expr \<Rightarrow> ty" where
  "initial_type te (NotE e) = BOOLEAN"
| "initial_type te (Ass op ts) =
     (if is_bool_op op then BOOLEAN else or_base_integer (common_types (map (initial_type te) ts)))"
| "initial_type te (Number n b) = universal n"
| "initial_type te (Neg e) = initial_type te e"
| "initial_type te (MathBin op l r) = common_types [initial_type te l, initial_type te r]"
| "initial_type te (TypeName i) = te_type_name te i"
| "initial_type te (Literal i) = te_literal te i"
| "initial_type te (Variable i) = te_variable te i"
| "initial_type te (Attribute a p) = attribute_type a"
| "initial_type te (Call i es) = fst (te_call te i)"
| "initial_type te (expr.Aggregate es) = ty.Aggregate (common_types (map (initial_type te) es))"
| "initial_type te (StringE s) = ty.Aggregate (common_types (map (\<lambda>c. universal (int (of_char c))) s))"
| "initial_type te (Relation op l r) = BOOLEAN"
| "initial_type te (IfExpr ces els) =
     common_types
       (map (\<lambda>(c, e). initial_type te e) ces
        @ (case els of None \<Rightarrow> [] | Some e \<Rightarrow> [initial_type te e]))"
| "initial_type te (Quantified q i it p) = BOOLEAN"
| "initial_type te (ValueRange a b) = Any"
| "initial_type te (Conversion i e) = fst (te_conversion te i)"
| "initial_type te (Comprehension i sq sel c) = ty.Aggregate (initial_type te sel)"
| "initial_type te (MessageAggregate delta i fs) = (if delta then te_delta te i else te_aggregate te i)"
| "initial_type te (CaseExpr e cs) = common_types (map (\<lambda>(c, x). initial_type te x) cs)"
| "initial_type te _ = Undefined"

section \<open>Checking expressions\<close>

text \<open>The type of an expression after its check, and the errors found.\<close>

type_synonym typed = "ty \<times> type_error list"

definition expecting :: "ty list \<Rightarrow> typed \<Rightarrow> type_error list" where
  "expecting expected r = snd r @ check_type (fst r) expected"

definition expecting_instance :: "ty_class list \<Rightarrow> typed \<Rightarrow> type_error list" where
  "expecting_instance expected r = snd r @ check_type_instance (fst r) expected"

definition check_all :: "(typed \<Rightarrow> type_error list) \<Rightarrow> ty \<Rightarrow> typed list res \<Rightarrow> typed res" where
  "check_all f t m = bind_res m (\<lambda>rs. Inr (t, concat (map f rs)))"

definition check_one :: "(typed \<Rightarrow> type_error list) \<Rightarrow> ty \<Rightarrow> typed res \<Rightarrow> typed res" where
  "check_one f t m = bind_res m (\<lambda>r. Inr (t, f r))"

definition check_math :: "typed res \<Rightarrow> typed res \<Rightarrow> typed res" where
  "check_math l r =
     bind_res l (\<lambda>x. bind_res r (\<lambda>y.
       Inr (or_base_integer (common_types [fst x, fst y]),
            expecting_instance [AnyIntegerC] x @ expecting_instance [AnyIntegerC] y)))"

definition check_relation :: "rel_op \<Rightarrow> typed res \<Rightarrow> typed res \<Rightarrow> typed res" where
  "check_relation op l r =
     bind_res l (\<lambda>x. bind_res r (\<lambda>y.
       Inr (BOOLEAN,
         (if op = Equal \<or> op = NotEqual then expecting_instance [AnyC] x @ expecting [fst x] y
          else if op = In \<or> op = NotIn then expecting_instance [AnyC] x @ expecting [ty.Aggregate (fst x)] y
          else expecting_instance [AnyIntegerC] x @ expecting_instance [AnyIntegerC] y))))"

definition head_prefix :: "expr \<Rightarrow> bool" where
  "head_prefix p = (case p of Variable i \<Rightarrow> True | Selected q f \<Rightarrow> True | Comprehension i sq sel c \<Rightarrow> True | _ \<Rightarrow> False)"

definition attribute_classes :: "attribute \<Rightarrow> expr \<Rightarrow> ty_class list" where
  "attribute_classes a p =
     (case a of
        HasData \<Rightarrow> [MessageC]
      | Head \<Rightarrow> [CompositeC]
      | Opaque \<Rightarrow> [SequenceC, MessageC]
      | Valid \<Rightarrow> (if class_of p = C_Variable then [SequenceC, MessageC] else [AnyC])
      | _ \<Rightarrow> [AnyC])"

definition check_attribute :: "attribute \<Rightarrow> expr \<Rightarrow> typed res \<Rightarrow> typed res" where
  "check_attribute a p m =
     (if a = Constrained then Inl NotImplementedError
      else
        bind_res m (\<lambda>x.
          Inr (if a = Head then (if is_composite (fst x) then iterated_type (fst x) else Any) else attribute_type a,
               expecting_instance (attribute_classes a p) x
               @ (if a = Head \<and> \<not> head_prefix p then [HeadPrefix] else []))))"

text \<open>
  A field is looked up in the type that the prefix has before it is checked itself, so that the field of a
  field has any type.
\<close>

definition check_selected :: "ty \<Rightarrow> ident \<Rightarrow> typed res \<Rightarrow> typed res" where
  "check_selected prior f m =
     bind_res m (\<lambda>x.
       let errors = expecting_instance [MessageC] x in
       Inr (if is_message prior then
              (case id_lookup (all_types prior) f of
                 Some t \<Rightarrow> (t, errors)
               | None \<Rightarrow> (Any, InvalidField f # errors))
            else (Any, errors)))"

definition check_call :: "ty \<Rightarrow> ty list \<Rightarrow> typed list res \<Rightarrow> typed res" where
  "check_call t ats m =
     bind_res m (\<lambda>rs.
       Inr (t,
         concat (map (\<lambda>(i, r). expecting [if i < length ats then ats ! i else Any] r) (enumerate 0 rs))
         @ (if t = Undefined then []
            else if length rs < length ats then [MissingArguments]
            else if length rs > length ats then [TooManyArguments] else [])))"

definition check_quantified :: "typed res \<Rightarrow> (ty \<Rightarrow> typed res) \<Rightarrow> typed res" where
  "check_quantified it p =
     bind_res it (\<lambda>x. bind_res (p (iterated_type (fst x))) (\<lambda>y.
       Inr (BOOLEAN, expecting_instance [CompositeC] x @ expecting [BOOLEAN] y)))"

definition check_comprehension :: "typed res \<Rightarrow> (ty \<Rightarrow> typed res) \<Rightarrow> (ty \<Rightarrow> typed res) \<Rightarrow> typed res" where
  "check_comprehension sq sel c =
     bind_res sq (\<lambda>x.
     bind_res (sel (iterated_type (fst x))) (\<lambda>y.
     bind_res (c (iterated_type (fst x))) (\<lambda>z.
       Inr (ty.Aggregate (fst y),
            expecting_instance [CompositeC] x @ expecting_instance [AnyC] y @ expecting [BOOLEAN] z))))"

text \<open>The argument of a conversion is checked, and then its prefix once more.\<close>

definition check_conversion :: "ty \<Rightarrow> ty list \<Rightarrow> expr \<Rightarrow> typed res \<Rightarrow> typed res \<Rightarrow> typed res" where
  "check_conversion t ats e m prefix =
     bind_res m (\<lambda>x.
       case e of
         Selected p f \<Rightarrow>
           (if ats \<noteq> [] then
              bind_res prefix (\<lambda>y. Inr (t, expecting [OPAQUE] x @ expecting ats y))
            else Inr (t, expecting [OPAQUE] x @ [InvalidConversion]))
       | _ \<Rightarrow> Inr (t, expecting [OPAQUE] x @ [InvalidConversionArgument]))"

section \<open>Message aggregates\<close>

text \<open>
  The fields of an aggregate with the type before the check, and the check itself, which is carried out
  only if it is needed.
\<close>

type_synonym field_value = "ident \<times> ty \<times> typed res"

definition infix_at :: "string list \<Rightarrow> string list \<Rightarrow> bool" where
  "infix_at fs c = list_ex (\<lambda>i. take (length fs) (drop i c) = fs) [0..<(length c + 1) - length fs]"

definition matching_combination :: "bool \<Rightarrow> ident list \<Rightarrow> nat \<Rightarrow> string list \<Rightarrow> bool" where
  "matching_combination delta fs n c =
     (if delta then infix_at (take (Suc n) fs) c else n < length c \<and> c ! n = fs ! n)"

primrec check_fields ::
    "tenv \<Rightarrow> bool \<Rightarrow> ty \<Rightarrow> ident list \<Rightarrow> nat \<Rightarrow> field_value list \<Rightarrow> type_error list res" where
  "check_fields te delta t fs n [] = Inr []"
| "check_fields te delta t fs n (fv # fvs) =
     (case fv of (f, prior, m) \<Rightarrow>
       case id_lookup (all_types t) f of
         None \<Rightarrow> bind_res (check_fields te delta t fs (Suc n) fvs) (\<lambda>es. Inr (InvalidField f # es))
       | Some ft \<Rightarrow>
           bind_res
             (if ty_eq ft OPAQUE
                 \<and> list_ex (\<lambda>(g, sdu). id_eq g f \<and> is_compatible prior sdu) (te_refinements te (type_name t))
              then Inr []
              else bind_res m (\<lambda>x. Inr (expecting [ft] x)))
             (\<lambda>es.
                if list_ex (matching_combination delta fs n) (te_combinations te (type_name t))
                then bind_res (check_fields te delta t fs (Suc n) fvs) (\<lambda>es'. Inr (es @ es'))
                else Inr (es @ [InvalidPosition f])))"

definition missing_fields :: "tenv \<Rightarrow> bool \<Rightarrow> ty \<Rightarrow> nat \<Rightarrow> type_error list" where
  "missing_fields te delta t n =
     (let cs = te_combinations te (type_name t) in
      if \<not> delta \<and> cs \<noteq> [] \<and> list_all (\<lambda>c. length c > n) cs then [MissingFields] else [])"

definition check_message_aggregate :: "tenv \<Rightarrow> bool \<Rightarrow> ty \<Rightarrow> field_value list \<Rightarrow> typed res" where
  "check_message_aggregate te delta t fvs =
     (if is_message t then
        bind_res (check_fields te delta t (map fst fvs) 0 fvs) (\<lambda>es.
          Inr (t, es @ missing_fields te delta t (length fvs)))
      else check_all (expecting_instance [AnyC]) t (map_res (\<lambda>(f, b, m). m) fvs))"

section \<open>Case expressions\<close>

definition incompatible_branches :: "ty list \<Rightarrow> type_error list" where
  "incompatible_branches ts =
     concat (map (\<lambda>i. concat (map (\<lambda>j.
       if i < j \<and> \<not> is_compatible (ts ! i) (ts ! j) then [IncompatibleBranches (ts ! i) (ts ! j)] else [])
       [0..<length ts])) [0..<length ts])"

definition choice_eq :: "ident + int \<Rightarrow> ident + int \<Rightarrow> bool" where
  "choice_eq c d =
     (case (c, d) of (Inl i, Inl j) \<Rightarrow> id_eq i j | (Inr m, Inr n) \<Rightarrow> m = n | _ \<Rightarrow> False)"

fun duplicate_choices :: "(ident + int) list \<Rightarrow> bool" where
  "duplicate_choices [] = False"
| "duplicate_choices (c # cs) = (list_ex (choice_eq c) cs \<or> duplicate_choices cs)"

definition coverage_errors :: "'a list \<Rightarrow> 'a list \<Rightarrow> type_error list" where
  "coverage_errors choices expected =
     (if set expected \<subseteq> set choices then [] else [ChoicesMissing])
     @ (if set choices \<subseteq> set expected then [] else [InvalidChoices])"

definition identifier_choices :: "(ident + int) list \<Rightarrow> ident list" where
  "identifier_choices cs = concat (map (\<lambda>c. case c of Inl i \<Rightarrow> [id_name i] | Inr n \<Rightarrow> []) cs)"

definition number_choices :: "(ident + int) list \<Rightarrow> int list" where
  "number_choices cs = concat (map (\<lambda>c. case c of Inl i \<Rightarrow> [] | Inr n \<Rightarrow> [n]) cs)"

text \<open>
  The sets of names compare hashes first, that is, the exact spelling; the assertions about the bounds
  fail for zero.
\<close>

definition check_choices :: "tenv \<Rightarrow> ty \<Rightarrow> (ident + int) list \<Rightarrow> type_error list res" where
  "check_choices te t cs =
     (case t of
        Enumeration i \<Rightarrow>
          assert_res (te_literals te i \<noteq> [])
            (Inr (coverage_errors (identifier_choices cs) (map id_name (te_literals te i))))
      | Integer i (l, u) \<Rightarrow>
          assert_res (l \<noteq> 0 \<and> u \<noteq> 0) (Inr (coverage_errors (number_choices cs) [l..u]))
      | _ \<Rightarrow> Inr [InvalidDiscreteChoice t])"

definition check_case :: "tenv \<Rightarrow> typed res \<Rightarrow> ((ident + int) list \<times> typed) list res \<Rightarrow> typed res" where
  "check_case te m branches =
     bind_res branches (\<lambda>bs.
     bind_res m (\<lambda>x.
       let choices = concat (map fst bs);
           errors = concat (map (\<lambda>(c, r). expecting_instance [AnyC] r) bs)
             @ incompatible_branches (map (\<lambda>(c, r). fst r) bs)
             @ expecting_instance [AnyC] x in
       if errors \<noteq> [] then Inl (RecordFluxError ''case expression'')
       else
         bind_res (check_choices te (fst x) choices) (\<lambda>es.
           Inr (common_types (map (\<lambda>(c, r). fst r) bs),
                (if duplicate_choices choices then [DuplicateChoices] else []) @ es))))"

section \<open>The check of an expression\<close>

function check :: "tenv \<Rightarrow> expr \<Rightarrow> typed res" where
  "check te (NotE e) = check_one (expecting [BOOLEAN]) BOOLEAN (check te e)"
| "check te (Ass op ts) =
     check_all (if is_bool_op op then expecting [BOOLEAN] else expecting_instance [AnyIntegerC])
       (initial_type te (Ass op ts)) (map_res (\<lambda>t. check te t) ts)"
| "check te (Number n b) = Inr (universal n, [])"
| "check te (Neg e) = check_one (expecting_instance [AnyIntegerC]) (initial_type te e) (check te e)"
| "check te (MathBin op l r) = check_math (check te l) (check te r)"
| "check te (TypeName i) = Inr (te_type_name te i, [])"
| "check te (Literal i) = Inr (te_literal te i, [])"
| "check te (Variable i) = Inr (te_variable te i, [])"
| "check te (Attribute a p) =
     (if a = Present then
        (case p of
           Selected q f \<Rightarrow> check_one (expecting_instance [MessageC]) BOOLEAN (check te q)
         | _ \<Rightarrow> Inr (BOOLEAN, [PresentPrefix]))
      else check_attribute a p (check te p))"
| "check te (Val p e) = Inl NotImplementedError"
| "check te (Indexed p es) = Inl NotImplementedError"
| "check te (Selected p f) = check_selected (initial_type te p) f (check te p)"
| "check te (Call i es) =
     check_call (fst (te_call te i)) (snd (te_call te i)) (map_res (\<lambda>e. check te e) es)"
| "check te (Slice p a b) = Inl NotImplementedError"
| "check te UndefinedExpr = Inl NotImplementedError"
| "check te (expr.Aggregate es) =
     check_all (expecting_instance [AnyC]) (initial_type te (expr.Aggregate es)) (map_res (\<lambda>e. check te e) es)"
| "check te (StringE s) = Inr (initial_type te (StringE s), [])"
| "check te (Relation op l r) = check_relation op (check te l) (check te r)"
| "check te (IfExpr ces els) = Inl NotImplementedError"
| "check te (Quantified q i it p) = check_quantified (check te it) (\<lambda>t. check (bind_variable i t te) p)"
| "check te (ValueRange a b) =
     check_all (expecting_instance [AnyIntegerC]) Any (map_res (\<lambda>e. check te e) [a, b])"
| "check te (Conversion i e) =
     check_conversion (fst (te_conversion te i)) (snd (te_conversion te i)) e (check te e)
       (case e of Selected p f \<Rightarrow> check te p | _ \<Rightarrow> Inl AssertionError)"
| "check te (QualifiedExpr i e) = Inl NotImplementedError"
| "check te (Comprehension i sq sel c) =
     check_comprehension (check te sq) (\<lambda>t. check (bind_variable i t te) sel) (\<lambda>t. check (bind_variable i t te) c)"
| "check te (MessageAggregate delta i fs) =
     check_message_aggregate te delta (initial_type te (MessageAggregate delta i fs))
       (map (\<lambda>(f, e). (f, initial_type te e, check te e)) fs)"
| "check te (CaseExpr e cs) =
     check_case te (check te e) (map_res (\<lambda>(c, x). bind_res (check te x) (\<lambda>r. Inr (c, r))) cs)"
  by pat_completeness auto

termination
proof (relation "measure (\<lambda>(te, e). weight e)", goal_cases)
  case 1
  then show ?case by simp
qed (auto simp: weight_ge_2 less_Suc_eq_le dest!: weight_mem weight_in_pairs)

declare check.simps [simp del]

text \<open>The checks against expected types and classes (\<open>check_type\<close>, \<open>check_type_instance\<close>).\<close>

definition check_expr :: "tenv \<Rightarrow> ty list \<Rightarrow> expr \<Rightarrow> type_error list res" where
  "check_expr te expected e = bind_res (check te e) (\<lambda>r. Inr (expecting expected r))"

definition check_expr_instance :: "tenv \<Rightarrow> ty_class list \<Rightarrow> expr \<Rightarrow> type_error list res" where
  "check_expr_instance te expected e = bind_res (check te e) (\<lambda>r. Inr (expecting_instance expected r))"

end
