(* ===== verification/Check_Translates.thy ===== *)
theory Check_Translates
  imports Expr_Check Tac_Gen_Correct
begin

text \<open>
  Expressions that pass the type check can be translated to three-address code: the assertions of
  \<open>to_ir\<close> about the types of operands hold.
\<close>

section \<open>The types after the check\<close>

definition typing_of :: "tenv \<Rightarrow> typing" where
  "typing_of te e = (case check te e of Inr r \<Rightarrow> fst r | Inl x \<Rightarrow> Undefined)"

lemma typing_of_check: "check te e = Inr r \<Longrightarrow> typing_of te e = fst r"
  by (simp add: typing_of_def)

text \<open>
  Arithmetic, comparisons and connectives over variables, literals, numbers, fields and attributes.  The
  literals of type Boolean are True and False, and there is no translation of \<open>AndThen\<close>, \<open>OrElse\<close>, \<open>Rem\<close>,
  \<open>In\<close> and \<open>NotIn\<close>.
\<close>

definition declared_field :: "ty \<Rightarrow> ident \<Rightarrow> bool" where
  "declared_field t f =
     (case id_lookup (all_types t) f of
        Some u \<Rightarrow> is_integer u \<or> is_enumeration u \<or> is_sequence u
      | None \<Rightarrow> False)"

fun translatable :: "tenv \<Rightarrow> expr \<Rightarrow> bool" where
  "translatable te (Number n b) = True"
| "translatable te (Variable i) = is_named (te_variable te i)"
| "translatable te (Literal i) =
     (is_enumeration (te_literal te i)
      \<and> (ty_eq (te_literal te i) BOOLEAN \<longrightarrow> id_eq i ''True'' \<or> id_eq i ''False''))"
| "translatable te (NotE e) = translatable te e"
| "translatable te (Neg e) = translatable te e"
| "translatable te (Ass op ts) = (op \<noteq> AndThen \<and> op \<noteq> OrElse \<and> ts \<noteq> [] \<and> (\<forall>t\<in>set ts. translatable te t))"
| "translatable te (MathBin op l r) = (op \<noteq> Rem \<and> translatable te l \<and> translatable te r)"
| "translatable te (Relation op l r) = (op \<noteq> In \<and> op \<noteq> NotIn \<and> translatable te l \<and> translatable te r)"
| "translatable te (Selected p f) =
     (case p of
        Variable m \<Rightarrow> is_message (te_variable te m) \<and> declared_field (te_variable te m) f
      | _ \<Rightarrow> False)"
| "translatable te (Attribute a p) =
     (case p of
        Variable i \<Rightarrow> a \<notin> {Present, Head, Opaque, Constrained} \<and> is_named (te_variable te i)
      | Selected q f \<Rightarrow>
          a \<in> {Size, Valid, Present}
          \<and> (case q of Variable m \<Rightarrow> is_message (te_variable te m) | _ \<Rightarrow> False)
      | _ \<Rightarrow> False)"
| "translatable te _ = False"

section \<open>Computations that succeed\<close>

text \<open>A translation that returns a result with the property, whatever the state of the generator.\<close>

definition yields :: "('a \<Rightarrow> bool) \<Rightarrow> 'a gen \<Rightarrow> bool" where
  "yields P M = (\<forall>m. \<exists>r n. M m = Inr (r, n) \<and> P r)"

named_theorems yields_rules \<open>rules for the combinators of the translation\<close>

lemma yields_return [yields_rules]: "P x \<Longrightarrow> yields P (return_gen x)"
  by (simp add: yields_def return_gen_def)

lemma yields_bind: "yields Q M \<Longrightarrow> (\<And>x. Q x \<Longrightarrow> yields P (f x)) \<Longrightarrow> yields P (bind_gen M f)"
  unfolding yields_def bind_gen_def by (metis bind_res_Inr case_prod_conv)

lemma yields_bind2:
  "yields Q M \<Longrightarrow> (\<And>a b. Q (a, b) \<Longrightarrow> yields P (f a b)) \<Longrightarrow> yields P (bind_gen M (\<lambda>(a, b). f a b))"
  by (erule yields_bind) auto

lemma yields_bind3:
  "yields Q M \<Longrightarrow> (\<And>a b c. Q (a, b, c) \<Longrightarrow> yields P (f a b c)) \<Longrightarrow> yields P (bind_gen M (\<lambda>(a, b, c). f a b c))"
  by (erule yields_bind) auto

lemma bind_lift [simp]: "bind_gen (lift_gen (Inr x)) f = f x"
  by (auto simp: bind_gen_def lift_gen_def)

lemma yields_assert [yields_rules]: "b \<Longrightarrow> yields P M \<Longrightarrow> yields P (assert_gen b M)"
  by (simp add: assert_gen_def)

lemma yields_lift [yields_rules]: "m = Inr x \<Longrightarrow> P x \<Longrightarrow> yields P (lift_gen m)"
  by (simp add: yields_def lift_gen_def)

lemma yields_next: "yields (\<lambda>_. True) next_id"
  by (simp add: yields_def next_id_def)

lemma yields_mono: "yields P M \<Longrightarrow> (\<And>x. P x \<Longrightarrow> Q x) \<Longrightarrow> yields Q M"
  unfolding yields_def by metis

text \<open>The kind of the result fits the type.\<close>

definition fits :: "ty \<Rightarrow> ir_result \<Rightarrow> bool" where
  "fits t r =
     (case r of (k, ss, x) \<Rightarrow>
        (is_int_expr x \<longleftrightarrow> is_any_integer t) \<and> (is_bool_expr x \<longleftrightarrow> ty_eq t BOOLEAN)
        \<and> (is_basic x \<or> is_any_integer t \<or> ty_eq t BOOLEAN \<or> is_named t))"

abbreviation anything :: "'a \<Rightarrow> bool" where
  "anything \<equiv> \<lambda>_. True"

abbreviation int_result :: "ir_stmt list \<times> ir_expr \<Rightarrow> bool" where
  "int_result r \<equiv> is_int_expr (snd r)"

abbreviation bool_result :: "ir_stmt list \<times> ir_expr \<Rightarrow> bool" where
  "bool_result r \<equiv> is_bool_expr (snd r)"

lemma yields_basic_int: "is_any_integer t \<Longrightarrow> yields P M \<Longrightarrow> yields int_result (to_ir_basic_int t M)"
  unfolding to_ir_basic_int_def
  by (intro yields_assert yields_bind [of P])
    (auto simp: is_basic_int_def intro!: yields_return yields_bind [OF yields_next] split: prod.split)

lemma yields_basic_bool: "ty_eq t BOOLEAN \<Longrightarrow> yields P M \<Longrightarrow> yields bool_result (to_ir_basic_bool t M)"
  unfolding to_ir_basic_bool_def
  by (intro yields_assert yields_bind [of P])
    (auto simp: is_basic_bool_def intro!: yields_return yields_bind [OF yields_next] split: prod.split)

lemma yields_basic_expr:
  assumes "yields (fits t) M" "\<not> is_aggregate t"
  shows "yields anything (to_ir_basic_expr t M)"
  unfolding to_ir_basic_expr_def
  by (rule yields_bind [OF assms(1)])
     (use assms(2) in \<open>auto simp: fits_def intro!: yields_return yields_assert yields_bind [OF yields_next] split: prod.splits\<close>)

section \<open>The types of checked expressions\<close>

definition integer_or_undefined :: "ty \<Rightarrow> bool" where
  "integer_or_undefined t = (is_any_integer t \<or> t = Undefined)"

lemma integer_or_undefined_cases:
  "integer_or_undefined t \<longleftrightarrow> (\<exists>b. t = UniversalInteger b) \<or> (\<exists>i b. t = Integer i b) \<or> t = Undefined"
  by (cases t) (auto simp: integer_or_undefined_def)

lemma common_type_integer_or_undefined:
  "integer_or_undefined s \<Longrightarrow> integer_or_undefined t \<Longrightarrow> integer_or_undefined (common_type s t)"
  by (auto simp: integer_or_undefined_cases BASE_INTEGER_def)

lemma common_types_integer_or_undefined:
  assumes "ts \<noteq> []" "\<forall>t\<in>set ts. integer_or_undefined t"
  shows "integer_or_undefined (common_types ts)"
proof -
  have "integer_or_undefined (fold (\<lambda>t r. common_type r t) us r)"
    if "integer_or_undefined r" "\<forall>t\<in>set us. integer_or_undefined t" for us r
    using that by (induction us arbitrary: r) (auto simp: common_type_integer_or_undefined)
  then show ?thesis using assms by (cases ts) (auto simp: common_types_def)
qed

lemma or_base_integer: "integer_or_undefined t \<Longrightarrow> is_any_integer (or_base_integer t)"
  by (auto simp: integer_or_undefined_def or_base_integer_def BASE_INTEGER_def)

lemma any_integer_not: "is_any_integer t \<Longrightarrow> t \<noteq> Any \<and> t \<noteq> Undefined \<and> \<not> ty_eq t BOOLEAN \<and> \<not> is_aggregate t"
  by (cases t) (auto simp: BOOLEAN_def)

lemma expecting_instance_integer:
  "expecting_instance [AnyIntegerC] (t, es) = [] \<longleftrightarrow> es = [] \<and> (is_any_integer t \<or> t = Any)"
  by (cases t) (auto simp: expecting_instance_def check_type_instance_def is_instance_def)

lemma expecting_boolean:
  "expecting [BOOLEAN] (t, es) = [] \<longleftrightarrow> es = [] \<and> (ty_eq t BOOLEAN \<or> t = Any)"
  by (cases t) (auto simp: expecting_def check_type_def is_compatible_def BOOLEAN_def)

lemma expecting_instance_sub: "expecting_instance cs (t, es) = [] \<Longrightarrow> es = [] \<and> t \<noteq> Undefined"
  by (auto simp: expecting_instance_def check_type_instance_def split: if_splits)

lemma expecting_sub: "expecting us (t, es) = [] \<Longrightarrow> es = [] \<and> t \<noteq> Undefined"
  by (auto simp: expecting_def check_type_def split: if_splits)

text \<open>An inversion rule for each class: what an error-free check says about the parts.\<close>

lemma check_NotE: "check te (NotE e) = Inr (t, []) \<longleftrightarrow>
    t = BOOLEAN \<and> (\<exists>u. check te e = Inr (u, []) \<and> (ty_eq u BOOLEAN \<or> u = Any))"
  by (auto simp: check.simps check_one_def bind_res_eq_Inr expecting_boolean)

lemma check_Neg: "check te (Neg e) = Inr (t, []) \<longleftrightarrow>
    t = initial_type te e \<and> (\<exists>u. check te e = Inr (u, []) \<and> (is_any_integer u \<or> u = Any))"
  by (auto simp: check.simps check_one_def bind_res_eq_Inr expecting_instance_integer)

lemma check_MathBin: "check te (MathBin op l r) = Inr (t, []) \<longleftrightarrow>
    (\<exists>u v. check te l = Inr (u, []) \<and> (is_any_integer u \<or> u = Any)
       \<and> check te r = Inr (v, []) \<and> (is_any_integer v \<or> v = Any)
       \<and> t = or_base_integer (common_types [u, v]))"
  by (fastforce simp: check.simps check_math_def bind_res_eq_Inr expecting_instance_integer)

lemma map_res_argument: "map_res f xs = Inr ys \<Longrightarrow> x \<in> set xs \<Longrightarrow> \<exists>y\<in>set ys. f x = Inr y"
  by (induction xs arbitrary: ys) (auto simp: bind_res_eq_Inr)

lemma check_Ass:
  assumes "check te (Ass op ts) = Inr (t, [])"
  shows "t = initial_type te (Ass op ts)"
    and "\<And>e. e \<in> set ts \<Longrightarrow> \<exists>u. check te e = Inr (u, [])
      \<and> (if is_bool_op op then ty_eq u BOOLEAN \<or> u = Any else is_any_integer u \<or> u = Any)"
proof -
  let ?f = "if is_bool_op op then expecting [BOOLEAN] else expecting_instance [AnyIntegerC]"
  obtain rs where rs: "map_res (\<lambda>t. check te t) ts = Inr rs" "concat (map ?f rs) = []" "t = initial_type te (Ass op ts)"
    using assms by (auto simp: check.simps check_all_def bind_res_eq_Inr)
  show "t = initial_type te (Ass op ts)" by (rule rs(3))
  fix e assume "e \<in> set ts"
  then obtain r where "check te e = Inr r" "r \<in> set rs"
    using map_res_argument [OF rs(1)] by blast
  moreover from this(2) have "?f r = []" using rs(2) by auto
  ultimately show "\<exists>u. check te e = Inr (u, [])
      \<and> (if is_bool_op op then ty_eq u BOOLEAN \<or> u = Any else is_any_integer u \<or> u = Any)"
    by (cases r) (auto simp: expecting_instance_integer expecting_boolean split: if_splits)
qed

lemma check_Relation:
  assumes "check te (Relation op l r) = Inr (t, [])"
  shows "t = BOOLEAN \<and> (\<exists>u v. check te l = Inr (u, []) \<and> u \<noteq> Undefined \<and> check te r = Inr (v, []) \<and> v \<noteq> Undefined)"
  using assms
  by (fastforce simp: check.simps check_relation_def bind_res_eq_Inr split: if_splits
      dest: expecting_sub expecting_instance_sub)

lemma is_named_not: "is_named t \<Longrightarrow> t \<noteq> Any \<and> t \<noteq> Undefined \<and> \<not> is_aggregate t"
  by (cases t) (auto simp: is_named_def)

lemma checked_types:
  "translatable te e \<Longrightarrow> check te e = Inr (t, []) \<Longrightarrow>
   t \<noteq> Any \<and> \<not> is_aggregate t \<and> (is_any_integer t \<longrightarrow> integer_or_undefined (initial_type te e))"
proof (induction e arbitrary: t rule: measure_induct_rule [where f = weight])
  case (less e)
  show ?case
  proof (cases e)
    case (Ass op ts)
    show ?thesis
    proof (cases "is_bool_op op")
      case True
      then show ?thesis using check_Ass(1) [of te op ts t] less.prems(2) by (simp add: Ass BOOLEAN_def)
    next
      case False
      have "integer_or_undefined (initial_type te x)" if x: "x \<in> set ts" for x
      proof -
        have w: "weight x < weight e" using x Ass weight_mem [of x ts] by simp
        have tr: "translatable te x" using less.prems(1) x by (simp add: Ass)
        obtain u where u: "check te x = Inr (u, [])" "is_any_integer u \<or> u = Any"
          using check_Ass(2) [of te op ts t x] less.prems(2) x False by (auto simp: Ass)
        then show ?thesis using less.IH [OF w tr u(1)] by auto
      qed
      then have "integer_or_undefined (common_types (map (initial_type te) ts))"
        using less.prems(1) by (intro common_types_integer_or_undefined) (auto simp: Ass)
      then have "is_any_integer t"
        using or_base_integer check_Ass(1) [of te op ts t] less.prems(2) False by (simp add: Ass)
      then show ?thesis
        using any_integer_not check_Ass(1) [of te op ts t] less.prems(2)
        by (simp add: Ass integer_or_undefined_def del: initial_type.simps)
    qed
  next
    case (Neg x)
    obtain u where u: "check te x = Inr (u, [])" "is_any_integer u \<or> u = Any" "t = initial_type te x"
      using less.prems(2) by (auto simp: Neg check_Neg)
    have "u \<noteq> Any \<and> (is_any_integer u \<longrightarrow> integer_or_undefined (initial_type te x))"
      using less.IH [of x u] less.prems(1) u(1) by (simp add: Neg)
    then have "integer_or_undefined t" using u by auto
    then show ?thesis using u(3) by (auto simp: Neg integer_or_undefined_cases)
  next
    case (MathBin op l r)
    obtain u v where uv: "check te l = Inr (u, [])" "is_any_integer u \<or> u = Any"
        "check te r = Inr (v, [])" "is_any_integer v \<or> v = Any" "t = or_base_integer (common_types [u, v])"
      using less.prems(2) by (auto simp: MathBin check_MathBin)
    have l: "u \<noteq> Any \<and> (is_any_integer u \<longrightarrow> integer_or_undefined (initial_type te l))"
      using less.IH [of l u] less.prems(1) uv(1) by (simp add: MathBin)
    have r: "v \<noteq> Any \<and> (is_any_integer v \<longrightarrow> integer_or_undefined (initial_type te r))"
      using less.IH [of r v] less.prems(1) uv(3) by (simp add: MathBin)
    have "integer_or_undefined (common_types [u, v])"
      using l r uv(2,4) by (intro common_types_integer_or_undefined) (auto simp: integer_or_undefined_def)
    then have "is_any_integer t" using uv(5) or_base_integer by simp
    moreover have "integer_or_undefined (initial_type te e)"
      using l r uv(2,4) common_types_integer_or_undefined [of "[initial_type te l, initial_type te r]"] by (auto simp: MathBin)
    ultimately show ?thesis using any_integer_not by blast
  next
    case (Attribute a p)
    then show ?thesis using less.prems
      by (cases a; cases p) (auto simp: check.simps check_attribute_def check_one_def bind_res_eq_Inr BOOLEAN_def
          UNIVERSAL_INTEGER_def integer_or_undefined_def split: expr.splits)
  next
    case (Selected p f)
    then show ?thesis using less.prems
      by (cases p) (auto simp: check.simps check_selected_def declared_field_def bind_res_eq_Inr integer_or_undefined_def
          Let_def split: option.splits elim: is_integer.elims is_enumeration.elims is_sequence.elims)
  next
    case (Variable i)
    then show ?thesis using less.prems is_named_not [of t]
      by (auto simp: check.simps integer_or_undefined_def)
  next
    case (Literal i)
    then show ?thesis using less.prems by (auto simp: check.simps elim: is_enumeration.elims)
  next
    case (NotE x)
    then show ?thesis using less.prems by (auto simp: check_NotE BOOLEAN_def)
  next
    case (Relation op l r)
    then show ?thesis using less.prems check_Relation [of te op l r t] by (auto simp: BOOLEAN_def)
  qed (use less.prems in \<open>auto simp: check.simps universal_def integer_or_undefined_def\<close>)
qed

section \<open>Checked expressions can be translated\<close>

lemma fits_int: "is_int_expr x \<Longrightarrow> is_any_integer t \<Longrightarrow> fits t (k, ss, x)"
  using any_integer_not [of t] int_not_bool [of x] by (simp add: fits_def)

lemma fits_bool: "is_bool_expr x \<Longrightarrow> fits BOOLEAN (k, ss, x)"
  using int_not_bool [of x] by (auto simp: fits_def BOOLEAN_def)

lemma length_cases:
  obtains "ts = []" | l where "ts = [l]" | l r where "ts = [l, r]" | l r r' rest where "ts = l # r # r' # rest"
  by (metis list.exhaust)

lemma yields_conn:
  assumes "ir_bool_op op = Inr o'" "ts \<noteq> []"
    and "\<And>t. t \<in> set ts \<Longrightarrow> yields bool_result (to_ir_basic_bool (ty t) (to_ir ty t))"
  shows "yields (fits BOOLEAN) (to_ir ty (Ass op ts))"
  using assms(2,3)
proof (induction "length ts" arbitrary: ts rule: less_induct)
  case less
  have op: "is_bool_op op" using assms(1) by (cases op) (auto simp: is_bool_op_def)
  show ?case
  proof (cases ts rule: length_cases)
    case (2 l)
    have l: "yields bool_result (to_ir_basic_bool (ty l) (to_ir ty l))" by (rule less.prems(2)) (simp add: 2)
    show ?thesis unfolding 2 to_ir_conn1 [OF op]
      by (rule yields_bind2 [OF l], rule yields_return, rule fits_bool, simp)
  next
    case (3 l r)
    have l: "yields bool_result (to_ir_basic_bool (ty l) (to_ir ty l))" by (rule less.prems(2)) (simp add: 3)
    have r: "yields bool_result (to_ir_basic_bool (ty r) (to_ir ty r))" by (rule less.prems(2)) (simp add: 3)
    show ?thesis unfolding 3 to_ir_conn2 [OF op] assms(1) bind_lift
      by (rule yields_bind2 [OF l], rule yields_bind2 [OF r], rule yields_return, rule fits_bool, simp)
  next
    case (4 l r r' rest)
    have l: "yields bool_result (to_ir_basic_bool (ty l) (to_ir ty l))" by (rule less.prems(2)) (simp add: 4)
    have ih: "yields (fits BOOLEAN) (to_ir ty (Ass op (r # r' # rest)))"
      using less.prems(2) by (intro less.hyps) (simp_all add: 4)
    show ?thesis unfolding 4 to_ir_conn3 [OF op] assms(1) bind_lift
      by (rule yields_bind2 [OF l], rule yields_bind [OF yields_next], rule yields_bind3 [OF ih], rule yields_return,
          rule fits_bool, simp)
  qed (use less.prems(1) in simp)
qed

lemma yields_arith:
  assumes "ir_ass_op op = Inr o'" "ts \<noteq> []"
    and "\<And>t. t \<in> set ts \<Longrightarrow> yields int_result (to_ir_basic_int (ty t) (to_ir ty t))"
    and "\<And>us. us \<noteq> [] \<Longrightarrow> set us \<subseteq> set ts \<Longrightarrow> is_any_integer (ty (Ass op us))"
  shows "yields (fits (ty (Ass op ts))) (to_ir ty (Ass op ts))"
  using assms(2-)
proof (induction "length ts" arbitrary: ts rule: less_induct)
  case less
  have op: "\<not> is_bool_op op" using assms(1) by (cases op) (auto simp: is_bool_op_def)
  have t: "is_any_integer (ty (Ass op ts))" using less.prems(1,3) by blast
  show ?case
  proof (cases ts rule: length_cases)
    case (2 l)
    have l: "yields int_result (to_ir_basic_int (ty l) (to_ir ty l))" by (rule less.prems(2)) (simp add: 2)
    show ?thesis unfolding 2 to_ir_arith1 [OF op]
      by (rule yields_assert [OF t [unfolded 2]], rule yields_bind2 [OF l], rule yields_return, rule fits_int,
          simp, rule t [unfolded 2])
  next
    case (3 l r)
    have l: "yields int_result (to_ir_basic_int (ty l) (to_ir ty l))" by (rule less.prems(2)) (simp add: 3)
    have r: "yields int_result (to_ir_basic_int (ty r) (to_ir ty r))" by (rule less.prems(2)) (simp add: 3)
    show ?thesis unfolding 3 to_ir_arith2 [OF op] assms(1) bind_lift
      by (rule yields_assert [OF t [unfolded 3]], rule yields_bind2 [OF l], rule yields_bind2 [OF r], rule yields_return,
          rule fits_int, simp, rule t [unfolded 3])
  next
    case (4 l r r' rest)
    have l: "yields int_result (to_ir_basic_int (ty l) (to_ir ty l))" by (rule less.prems(2)) (simp add: 4)
    have u: "is_any_integer (ty (Ass op (r # r' # rest)))"
      by (rule less.prems(3)) (auto simp: 4)
    have ih: "yields (fits (ty (Ass op (r # r' # rest)))) (to_ir ty (Ass op (r # r' # rest)))"
      using less.prems(2,3) by (intro less.hyps) (auto simp: 4)
    show ?thesis unfolding 4 to_ir_arith3 [OF op] assms(1) bind_lift Let_def
      by (rule yields_assert [OF t [unfolded 4]], rule yields_bind [OF yields_next], rule yields_bind2 [OF l],
          rule yields_assert [OF u], rule yields_bind3 [OF ih], rule yields_return, rule fits_int, simp, rule t [unfolded 4])
  qed (use less.prems(1) in simp)
qed

lemma check_Ass_type:
  assumes "\<And>x. x \<in> set us \<Longrightarrow> \<exists>r. check te x = Inr r"
  shows "typing_of te (Ass op us) = initial_type te (Ass op us)"
proof -
  have "map_res (\<lambda>t. check te t) us = Inr (map (\<lambda>x. projr (check te x)) us)"
    using assms by (intro map_res_all_Inr) force
  then show ?thesis by (simp add: typing_of_def check.simps check_all_def)
qed

lemma variable_basic:
  assumes "is_named t"
  obtains k x where "variable_to_ir i t = Inr (k, [], x)" "is_var x" "is_basic x" "var_name x = i"
  using assms by (cases "ty_eq t BOOLEAN"; cases t) (auto simp: variable_to_ir_def is_named_def assert_res_def)

lemma variable_fits: "is_named t \<Longrightarrow> \<exists>k x. variable_to_ir i t = Inr (k, [], x) \<and> fits t (k, [], x)"
  by (cases t) (auto simp: variable_to_ir_def assert_res_def fits_def is_named_def BOOLEAN_def)

lemma literal_fits:
  "is_enumeration t \<Longrightarrow> ty_eq t BOOLEAN \<longrightarrow> id_eq i ''True'' \<or> id_eq i ''False'' \<Longrightarrow>
   \<exists>k x. literal_to_ir i t = Inr (k, [], x) \<and> fits t (k, [], x)"
  by (cases t) (auto simp: literal_to_ir_def assert_res_def fits_def BOOLEAN_def)

lemma to_ir_variable:
  assumes "is_named (te_variable te i)"
  shows "\<exists>x. to_ir_basic_expr (typing_of te (Variable i)) (to_ir (typing_of te) (Variable i)) = return_gen ([], x)
    \<and> is_var x \<and> var_name x = i"
proof -
  have t: "typing_of te (Variable i) = te_variable te i" by (simp add: typing_of_def check.simps)
  obtain k x where x: "variable_to_ir i (te_variable te i) = Inr (k, [], x)" "is_var x" "is_basic x" "var_name x = i"
    using variable_basic [OF assms] .
  then show ?thesis by (intro exI [of _ x]) (simp add: t to_ir_basic_expr_def)
qed

lemma bind_return [simp]: "bind_gen (return_gen x) f = f x"
  by (auto simp: bind_gen_def return_gen_def)

text \<open>The parts of the translation that depend on the class.\<close>

lemma checked_yields:
  "translatable te e \<Longrightarrow> check te e = Inr (t, []) \<Longrightarrow> t \<noteq> Undefined \<Longrightarrow> yields (fits t) (to_ir (typing_of te) e)"
proof (induction e arbitrary: t rule: measure_induct_rule [where f = weight])
  case (less e)
  let ?ty = "typing_of te"
  have int: "yields int_result (to_ir_basic_int (?ty x) (to_ir ?ty x))"
    if "weight x < weight e" "translatable te x" "check te x = Inr (u, [])" "is_any_integer u \<or> u = Any" for x u
  proof -
    have u: "is_any_integer u" using checked_types [OF that(2,3)] that(4) by blast
    then have "yields (fits u) (to_ir ?ty x)" using less.IH [OF that(1-3)] any_integer_not by blast
    then show ?thesis using u typing_of_check [OF that(3)] by (auto intro: yields_basic_int)
  qed
  have bool: "yields bool_result (to_ir_basic_bool (?ty x) (to_ir ?ty x))"
    if "weight x < weight e" "translatable te x" "check te x = Inr (u, [])" "ty_eq u BOOLEAN \<or> u = Any" for x u
  proof -
    have u: "ty_eq u BOOLEAN" using checked_types [OF that(2,3)] that(4) by blast
    then have "u \<noteq> Undefined" by (auto simp: BOOLEAN_def)
    then have "yields (fits u) (to_ir ?ty x)" using less.IH [OF that(1-3)] by blast
    then show ?thesis using u typing_of_check [OF that(3)] by (auto intro: yields_basic_bool)
  qed
  have any: "yields anything (to_ir_basic_expr (?ty x) (to_ir ?ty x))"
    if "weight x < weight e" "translatable te x" "check te x = Inr (u, [])" "u \<noteq> Undefined" for x u
    using yields_basic_expr [OF less.IH [OF that]] checked_types [OF that(2,3)] typing_of_check [OF that(3)] by simp
  note te = less.prems(1) and ck = less.prems(2)
  show ?case
  proof (cases e)
    case (NotE x)
    obtain u where "check te x = Inr (u, [])" "ty_eq u BOOLEAN \<or> u = Any" and t: "t = BOOLEAN"
      using ck by (auto simp: NotE check_NotE)
    then have b: "yields bool_result (to_ir_basic_bool (?ty x) (to_ir ?ty x))"
      using te by (intro bool) (simp_all add: NotE)
    show ?thesis unfolding NotE to_ir.simps t
      by (rule yields_bind2 [OF b], rule yields_return, rule fits_bool, simp)
  next
    case (Neg x)
    obtain u where "check te x = Inr (u, [])" "is_any_integer u \<or> u = Any" and t: "t = initial_type te x"
      using ck by (auto simp: Neg check_Neg)
    moreover from this have "integer_or_undefined t"
      using checked_types [of te x u] te by (auto simp: Neg)
    moreover have "?ty (Neg x) = t" using typing_of_check ck by (simp add: Neg)
    ultimately have i: "yields int_result (to_ir_basic_int (?ty x) (to_ir ?ty x))" and "is_any_integer t" "?ty (Neg x) = t"
      using te int [of x u] less.prems(3) by (auto simp: Neg integer_or_undefined_def)
    then show ?thesis unfolding Neg to_ir.simps neg_to_ir_def
      by (intro yields_assert) (simp, rule yields_bind2 [OF i], rule yields_return, rule fits_int, simp_all)
  next
    case (MathBin op l r)
    obtain u v where uv: "check te l = Inr (u, [])" "is_any_integer u \<or> u = Any"
        "check te r = Inr (v, [])" "is_any_integer v \<or> v = Any" and t: "t = or_base_integer (common_types [u, v])"
      using ck by (auto simp: MathBin check_MathBin)
    have l: "yields int_result (to_ir_basic_int (?ty l) (to_ir ?ty l))"
      using te uv by (intro int [of l u]) (simp_all add: MathBin)
    have r: "yields int_result (to_ir_basic_int (?ty r) (to_ir ?ty r))"
      using te uv by (intro int [of r v]) (simp_all add: MathBin)
    have "u \<noteq> Any" "v \<noteq> Any" using checked_types [of te l u] checked_types [of te r v] te uv by (simp_all add: MathBin)
    then have ti: "is_any_integer t"
      using uv(2,4) t common_types_integer_or_undefined [of "[u, v]"] or_base_integer by (simp add: integer_or_undefined_def)
    have ty: "?ty (MathBin op l r) = t" using typing_of_check ck by (simp add: MathBin)
    obtain o' where o': "ir_math_op op = Inr o'" using te by (cases op) (auto simp: MathBin)
    show ?thesis unfolding MathBin to_ir.simps math_to_ir_def ty o' bind_lift
      by (rule yields_assert [OF ti], rule yields_bind2 [OF l], rule yields_bind2 [OF r], rule yields_return, rule fits_int,
          simp, rule ti)
  next
    case (Relation op l r)
    obtain u v where t: "t = BOOLEAN" and uv: "check te l = Inr (u, [])" "u \<noteq> Undefined" "check te r = Inr (v, [])" "v \<noteq> Undefined"
      using ck check_Relation [of te op l r t] by (auto simp: Relation)
    have l: "yields anything (to_ir_basic_expr (?ty l) (to_ir ?ty l))"
      using te uv by (intro any [of l u]) (simp_all add: Relation)
    have r: "yields anything (to_ir_basic_expr (?ty r) (to_ir ?ty r))"
      using te uv by (intro any [of r v]) (simp_all add: Relation)
    obtain o' where o': "ir_rel_op op = Inr o'" using te by (cases op) (auto simp: Relation)
    have "op \<noteq> In \<and> op \<noteq> NotIn" using te by (simp add: Relation)
    then have eq: "to_ir ?ty (Relation op l r) =
        relation_to_ir op (to_ir_basic_expr (?ty l) (to_ir ?ty l)) (to_ir_basic_expr (?ty r) (to_ir ?ty r))"
      by (subst to_ir.simps) (simp del: to_ir.simps)
    show ?thesis unfolding Relation eq relation_to_ir_def t o' bind_lift
      by (rule yields_bind2 [OF l], rule yields_bind2 [OF r], rule yields_return, rule fits_bool, simp)
  next
    case (Ass op ts)
    have w: "weight x < weight e" "translatable te x" if "x \<in> set ts" for x
      using te that weight_mem [of x ts] by (auto simp: Ass)
    have sub: "\<exists>u. check te x = Inr (u, [])
        \<and> (if is_bool_op op then ty_eq u BOOLEAN \<or> u = Any else is_any_integer u \<or> u = Any)" if "x \<in> set ts" for x
      using check_Ass(2) ck that by (simp add: Ass)
    have ne: "ts \<noteq> []" using te by (simp add: Ass)
    have t: "t = initial_type te (Ass op ts)" using check_Ass(1) ck by (simp add: Ass)
    show ?thesis
    proof (cases "is_bool_op op")
      case True
      then obtain o' where "ir_bool_op op = Inr o'" using te by (cases op) (auto simp: Ass is_bool_op_def)
      then have "yields (fits BOOLEAN) (to_ir ?ty (Ass op ts))"
        using sub w bool True by (intro yields_conn ne) fastforce+
      then show ?thesis using t True by (simp add: Ass del: to_ir.simps)
    next
      case False
      have int_us: "is_any_integer (?ty (Ass op us))" if us: "us \<noteq> []" "set us \<subseteq> set ts" for us
      proof -
        have "integer_or_undefined (initial_type te x)" if "x \<in> set us" for x
          using sub [of x] w [of x] us(2) that False checked_types [of te x] by auto
        then have "is_any_integer (initial_type te (Ass op us))"
          using False us(1) common_types_integer_or_undefined [of "map (initial_type te) us"] or_base_integer by simp
        moreover have "?ty (Ass op us) = initial_type te (Ass op us)"
          using sub us(2) by (intro check_Ass_type) blast
        ultimately show ?thesis by simp
      qed
      obtain o' where o': "ir_ass_op op = Inr o'" using False by (cases op) (auto simp: is_bool_op_def)
      have "yields (fits (?ty (Ass op ts))) (to_ir ?ty (Ass op ts))"
        using sub w int False int_us by (intro yields_arith [OF o'] ne) fastforce+
      then show ?thesis using typing_of_check ck by (simp add: Ass del: to_ir.simps)
    qed
  next
    case (Attribute a p)
    have ty: "?ty (Attribute a p) = t" using typing_of_check ck by (simp add: Attribute)
    show ?thesis
    proof (cases "field_attribute a p")
      case None
      then obtain i where p: "p = Variable i" and a: "a \<notin> {Present, Head, Opaque, Constrained}" and n: "is_named (te_variable te i)"
        using te by (cases p; cases a) (auto simp: Attribute split: expr.splits)
      then have t: "t = attribute_type a" using ck by (auto simp: Attribute check.simps check_attribute_def)
      obtain x where x: "to_ir_basic_expr (?ty p) (to_ir ?ty p) = return_gen ([], x)" "is_var x" "var_name x = i"
        using to_ir_variable [OF n] by (auto simp: p simp del: to_ir.simps)
      have tp: "?ty p = te_variable te i" by (simp add: p typing_of_def check.simps)
      have "te_variable te i \<noteq> Undefined" using is_named_not [OF n] by simp
      then obtain y where y: "attribute_to_ir a (te_variable te i) i = Inr y" "fits t (ObjKind, [], y)"
        using a t by (cases a) (auto simp: attribute_to_ir_def assert_res_def fits_def BOOLEAN_def UNIVERSAL_INTEGER_def)
      have eq: "to_ir ?ty (Attribute a p) = prefix_attribute_to_ir a (?ty p) (to_ir_basic_expr (?ty p) (to_ir ?ty p))"
        using less.prems(3) a ty None unfolding p
        by (subst to_ir.simps) (auto simp: assert_gen_def simp del: to_ir.simps)
      show ?thesis unfolding Attribute eq prefix_attribute_to_ir_def x(1) bind_return
        using x(2,3) y tp by (auto intro!: yields_assert yields_return)
    next
      case (Some r)
      then obtain q f m where p: "p = Selected q f" and q: "q = Variable m" and m: "is_message (te_variable te m)"
          and a: "a = Size \<or> a = Valid \<or> a = Present"
        using te by (cases p; cases a) (auto simp: Attribute split: expr.splits)
      have "?ty q = te_variable te m" by (simp add: q typing_of_def check.simps)
      moreover have "is_compound (te_variable te m)" using m by (cases "te_variable te m") auto
      moreover have "t = attribute_type a"
        using ck a by (auto simp: Attribute p check.simps check_attribute_def check_one_def bind_res_eq_Inr)
      ultimately show ?thesis
        using a ty less.prems(3) unfolding Attribute
        by (auto simp: p q fits_def BOOLEAN_def UNIVERSAL_INTEGER_def intro!: yields_assert yields_return)
    qed
  next
    case (Selected p f)
    then obtain m where p: "p = Variable m" and m: "is_message (te_variable te m)" and df: "declared_field (te_variable te m) f"
      using te by (cases p) auto
    obtain u where u: "id_lookup (all_types (te_variable te m)) f = Some u" "is_integer u \<or> is_enumeration u \<or> is_sequence u"
      using df by (auto simp: declared_field_def split: option.splits)
    have t: "t = u" using ck m u by (auto simp: Selected p check.simps check_selected_def)
    have ty: "?ty (Selected p f) = u" using typing_of_check ck by (simp add: Selected t)
    have tp: "?ty p = te_variable te m" by (simp add: p typing_of_def check.simps)
    have n: "is_named (te_variable te m)" using m by (cases "te_variable te m") (auto simp: is_named_def)
    obtain x where x: "to_ir_basic_expr (?ty p) (to_ir ?ty p) = return_gen ([], x)" "is_var x" "var_name x = m"
      using to_ir_variable [OF n] by (auto simp: p simp del: to_ir.simps)
    have "x = ObjVar m (te_variable te m)"
      using x(1) m by (cases "te_variable te m")
        (auto simp: p tp typing_of_def check.simps variable_to_ir_def BOOLEAN_def to_ir_basic_expr_def return_gen_def
          bind_gen_def lift_gen_def assert_res_def fun_eq_iff)
    moreover have "is_compound (te_variable te m)" using m by (cases "te_variable te m") auto
    moreover obtain y where "field_access_to_ir u m f (te_variable te m) = Inr y" "fits u (ObjKind, [], y)"
      using u(2) by (cases "ty_eq u BOOLEAN"; cases u)
        (auto simp: field_access_to_ir_def assert_res_def fits_def is_named_def BOOLEAN_def)
    ultimately show ?thesis
      unfolding Selected to_ir.simps selected_to_ir_def ty tp x(1) [unfolded tp] bind_return
      using less.prems(3) t by (auto intro!: yields_assert yields_return)
  next
    case (Variable i)
    then have n: "is_named (te_variable te i)" and t: "t = te_variable te i" using te ck by (auto simp: check.simps)
    then obtain k x where "variable_to_ir i t = Inr (k, [], x)" "fits t (k, [], x)"
      using variable_fits by metis
    then show ?thesis using t typing_of_check [OF ck] by (simp add: Variable yields_lift)
  next
    case (Literal i)
    then have n: "is_enumeration (te_literal te i)" "ty_eq (te_literal te i) BOOLEAN \<longrightarrow> id_eq i ''True'' \<or> id_eq i ''False''"
        and t: "t = te_literal te i" using te ck by (auto simp: check.simps)
    then obtain k x where "literal_to_ir i t = Inr (k, [], x)" "fits t (k, [], x)"
      using literal_fits by metis
    then show ?thesis using t typing_of_check [OF ck] by (simp add: Literal yields_lift)
  next
    case (Number n b)
    then show ?thesis using ck by (auto simp: check.simps universal_def fits_def BOOLEAN_def intro!: yields_return)
  qed (use te in simp_all)
qed


definition sample_tenv :: tenv where
  "sample_tenv =
     \<lparr>te_variable = (\<lambda>i. if i = ''M'' then Message ''P::M'' [] [(''F'', Integer ''P::T'' (0, 255))]
                       else if i = ''X'' then Integer ''P::T'' (0, 255) else Undefined),
      te_literal = (\<lambda>i. BOOLEAN), te_type_name = (\<lambda>i. Undefined), te_call = (\<lambda>i. (Undefined, [])),
      te_conversion = (\<lambda>i. (Undefined, [])), te_aggregate = (\<lambda>i. Undefined), te_delta = (\<lambda>i. Undefined),
      te_combinations = (\<lambda>i. []), te_refinements = (\<lambda>i. []), te_literals = (\<lambda>i. [])\<rparr>"

definition sample_condition :: expr where
  "sample_condition =
     Relation Less (Ass Add [Variable ''X'', Selected (Variable ''M'') ''F'', Number 1 0]) (Number 10 0)"


text \<open>
  The negation of a field is rejected: it keeps the type that the field had before it was checked.
\<close>

lemma negated_field_rejected:
  "check_expr sample_tenv [Integer ''P::T'' (0, 255)] (Neg (Selected (Variable ''M'') ''F'')) = Inr [UndefinedEntity]"
  "check_expr sample_tenv [Integer ''P::T'' (0, 255)] (Selected (Variable ''M'') ''F'') = Inr []"
  by code_simp+

section \<open>Case expressions\<close>

lemma duplicate_choices_append:
  "c \<in> set xs \<Longrightarrow> d \<in> set ys \<Longrightarrow> choice_eq c d \<Longrightarrow> duplicate_choices (xs @ ys)"
  by (induction xs) (auto simp: list_ex_iff)

lemma duplicate_choices_suffix: "duplicate_choices ys \<Longrightarrow> duplicate_choices (xs @ ys)"
  by (induction xs) auto

lemma number_in_one_branch:
  "\<not> duplicate_choices (concat css) \<Longrightarrow> i < j \<Longrightarrow> j < length css \<Longrightarrow> Inr n \<in> set (css ! i) \<Longrightarrow> Inr n \<notin> set (css ! j)"
proof (induction css arbitrary: i j)
  case (Cons cs css)
  obtain k where j: "j = Suc k" "k < length css" using Cons.prems(2,3) by (cases j) auto
  show ?case
  proof (cases i)
    case 0
    have "Inr n \<notin> set (concat css)"
      using Cons.prems(1,4) 0 duplicate_choices_append [of "Inr n" cs "Inr n" "concat css"] by (auto simp: choice_eq_def)
    then show ?thesis using j nth_mem [OF j(2)] by auto
  next
    case (Suc i')
    then show ?thesis
      using Cons.IH [of i' k] Cons.prems j duplicate_choices_suffix [of "concat css" cs] by auto
  qed
qed simp

lemma number_choices_member: "n \<in> set (number_choices cs) \<longleftrightarrow> Inr n \<in> set cs"
  by (force simp: number_choices_def split: sum.splits)

lemma branch_choices:
  "map_res (\<lambda>(c, x). bind_res (check te x) (\<lambda>r. Inr (c, r))) cs = Inr bs \<Longrightarrow> map fst bs = map fst cs"
  by (induction cs arbitrary: bs) (auto simp: bind_res_eq_Inr)


definition sample_case :: expr where
  "sample_case = CaseExpr (Variable ''Y'') [([Inr 1, Inr 2], Number 10 0), ([Inr 3], Number 20 0)]"

definition sample_case_tenv :: "int \<Rightarrow> tenv" where
  "sample_case_tenv l = sample_tenv\<lparr>te_variable := (\<lambda>i. Integer ''P::U'' (l, 3))\<rparr>"


text \<open>The check fails with an assertion if the type starts with zero, as most integer types do.\<close>

lemma case_from_zero_crashes:
  "check (sample_case_tenv 0) (CaseExpr (Variable ''Y'') [([Inr 0, Inr 1, Inr 2, Inr 3], Number 10 0)]) = Inl AssertionError"
  by code_simp

end
