(* ===== verification/Statement_Check.thy ===== *)
theory Statement_Check
  imports Statement Check_Translates
begin

text \<open>
  The type checks of statements (\<open>rflx/model/statement.py\<close>) and declarations
  (\<open>rflx/model/declaration.py\<close>).  A check sets the type of the statement or declaration and returns the
  errors.
\<close>

section \<open>Statements\<close>

datatype statement_error =
    TypeError type_error
  | ParameterAssignment ident
  | InvalidMessageField ident
  | IndependentMessage
  | UnexpectedArgument ident
  | MissingArgument ident
  | InvalidRenaming ident

definition type_errors :: "type_error list \<Rightarrow> statement_error list" where
  "type_errors es = map TypeError es"

lemma type_errors_Nil [simp]: "type_errors es = [] \<longleftrightarrow> es = []"
  by (simp add: type_errors_def)

type_synonym checked_statement = "(statement \<times> statement_error list) res"

text \<open>
  The expressions are given the types of names first; the substitution returns the expression itself or
  raises (see \<open>typify_variable\<close>), so that the environment stands for it here.
\<close>

definition check_variable_assignment :: "tenv \<Rightarrow> ty \<Rightarrow> ident \<Rightarrow> expr \<Rightarrow> checked_statement" where
  "check_variable_assignment te t i e =
     bind_res (check_expr te [t] e) (\<lambda>es.
       Inr (VariableAssignment i e t, type_errors (check_type_instance t [AnyC] @ es)))"

fun parameter_types :: "ty \<Rightarrow> (ident \<times> ty) list" where
  "parameter_types (Structure i ps fs) = ps"
| "parameter_types (Message i ps fs) = ps"
| "parameter_types _ = []"

definition assigned_field_type :: "ty \<Rightarrow> ident \<Rightarrow> ty \<times> statement_error list" where
  "assigned_field_type t f =
     (if is_message t then
        (if id_lookup (field_types t) f \<noteq> None
         then (case id_lookup (all_types t) f of Some u \<Rightarrow> (u, []) | None \<Rightarrow> (Undefined, []))
         else if id_lookup (parameter_types t) f \<noteq> None then (Undefined, [ParameterAssignment f])
         else (Undefined, [InvalidMessageField f]))
      else (Undefined, []))"

definition check_field_assignment :: "tenv \<Rightarrow> ty \<Rightarrow> ident \<Rightarrow> ident \<Rightarrow> expr \<Rightarrow> checked_statement" where
  "check_field_assignment te t m f e =
     (let (ft, errors) = assigned_field_type t f in
      bind_res (check_expr te [ft] e) (\<lambda>es.
        Inr (MessageFieldAssignment m f e t, errors @ type_errors (check_type_instance t [MessageC] @ es))))"

definition check_append :: "tenv \<Rightarrow> ty \<Rightarrow> ident \<Rightarrow> expr \<Rightarrow> checked_statement" where
  "check_append te t i e =
     (case t of
        Sequence j u \<Rightarrow>
          bind_res (check_expr te [u] e) (\<lambda>es.
            Inr (AppendTo i e t,
              type_errors (check_type_instance t [SequenceC] @ es)
              @ (if is_message u \<and> class_of e = C_Variable then [IndependentMessage] else [])))
      | _ \<Rightarrow> Inr (AppendTo i e t, type_errors (check_type_instance t [SequenceC])))"

definition check_extend :: "tenv \<Rightarrow> ty \<Rightarrow> ident \<Rightarrow> expr \<Rightarrow> checked_statement" where
  "check_extend te t i e =
     bind_res (check_expr te [t] e) (\<lambda>es.
       Inr (ExtendBy i e t, type_errors (check_type_instance t [SequenceC] @ es)))"

definition check_argument :: "tenv \<Rightarrow> ty \<Rightarrow> ident \<times> expr \<Rightarrow> statement_error list res" where
  "check_argument te t ie =
     (case id_lookup (parameter_types t) (fst ie) of
        Some u \<Rightarrow> bind_res (check_expr te [u] (snd ie)) (\<lambda>es. Inr (type_errors es))
      | None \<Rightarrow> Inr [UnexpectedArgument (fst ie)])"

definition check_reset :: "tenv \<Rightarrow> ty \<Rightarrow> ident \<Rightarrow> (ident \<times> expr) list \<Rightarrow> checked_statement" where
  "check_reset te t i args =
     bind_res
       (if is_sequence t then Inr (map (\<lambda>(a, e). UnexpectedArgument a) args)
        else if is_message t then
          bind_res (map_res (check_argument te t) args) (\<lambda>ess.
            Inr (concat ess
              @ concat (map (\<lambda>(p, u). if id_lookup args p = None then [MissingArgument p] else []) (parameter_types t))))
        else Inr [])
       (\<lambda>es. Inr (ResetOf i args t, es @ type_errors (check_type_instance t [SequenceC, MessageC])))"

definition check_channel :: "tenv \<Rightarrow> ty \<Rightarrow> bool \<Rightarrow> expr \<Rightarrow> statement_error list res" where
  "check_channel te t rd e =
     bind_res (check_expr_instance te [MessageC] e) (\<lambda>es.
       Inr (type_errors (check_type t [Channel rd (\<not> rd)] @ es)))"

fun check_statement :: "tenv \<Rightarrow> ty \<Rightarrow> statement \<Rightarrow> checked_statement" where
  "check_statement te t (VariableAssignment i e u) = check_variable_assignment te t i e"
| "check_statement te t (MessageFieldAssignment m f e u) = check_field_assignment te t m f e"
| "check_statement te t (AppendTo i e u) = check_append te t i e"
| "check_statement te t (ExtendBy i e u) = check_extend te t i e"
| "check_statement te t (ResetOf i args u) = check_reset te t i args"
| "check_statement te t (ReadFrom i e u) = bind_res (check_channel te t True e) (\<lambda>es. Inr (ReadFrom i e t, es))"
| "check_statement te t (WriteTo i e u) = bind_res (check_channel te t False e) (\<lambda>es. Inr (WriteTo i e t, es))"

section \<open>Declarations\<close>

definition check_renaming :: "tenv \<Rightarrow> ty \<Rightarrow> ident \<Rightarrow> expr \<Rightarrow> statement_error list res" where
  "check_renaming te t i e =
     (case e of
        Selected p f \<Rightarrow>
          bind_res (check te p) (\<lambda>x.
            let errors = expecting_instance [MessageC] x in
            if errors \<noteq> [] then Inr (type_errors errors)
            else assert_res (is_message (fst x))
              (bind_res (check_expr te [OPAQUE] e) (\<lambda>es.
                Inr ((if list_ex (\<lambda>(g, sdu). id_eq g f \<and> is_compatible sdu t) (te_refinements te (type_name (fst x)))
                      then [] else [InvalidRenaming i])
                  @ type_errors es))))
      | _ \<Rightarrow> Inl AssertionError)"

fun check_declaration :: "tenv \<Rightarrow> ty \<Rightarrow> decl \<Rightarrow> (decl \<times> statement_error list) res" where
  "check_declaration te t (VariableDeclaration i ti None u) = Inr (VariableDeclaration i ti None t, [])"
| "check_declaration te t (VariableDeclaration i ti (Some e) u) =
     bind_res (check_expr te [t] e) (\<lambda>es. Inr (VariableDeclaration i ti (Some e) t, type_errors es))"
| "check_declaration te t (RenamingDeclaration i ti e u) =
     bind_res (check_renaming te t i e) (\<lambda>es. Inr (RenamingDeclaration i ti e t, es))"
| "check_declaration te t (FunctionDeclaration i ps r u) = Inr (FunctionDeclaration i ps r t, [])"
| "check_declaration te t (ChannelDeclaration i rd wr) = Inr (ChannelDeclaration i rd wr, [])"

section \<open>Checked statements can be translated\<close>

fun statement_expressions :: "statement \<Rightarrow> expr list" where
  "statement_expressions (VariableAssignment i e t) = [e]"
| "statement_expressions (MessageFieldAssignment m f e t) = [e]"
| "statement_expressions (ResetOf i args t) = map snd args"
| "statement_expressions s = stmt_parameters s"

lemma check_expr_none: "check_expr te ts e = Inr [] \<longleftrightarrow> (\<exists>t. check te e = Inr (t, []) \<and> check_type t ts = [])"
  by (auto simp: check_expr_def bind_res_eq_Inr expecting_def)

lemma check_expr_instance_none:
  "check_expr_instance te ts e = Inr [] \<longleftrightarrow> (\<exists>t. check te e = Inr (t, []) \<and> check_type_instance t ts = [])"
  by (auto simp: check_expr_instance_def bind_res_eq_Inr expecting_instance_def)

lemma check_type_none_defined: "check_type t ts = [] \<Longrightarrow> t \<noteq> Undefined"
  by (auto simp: check_type_def)

lemma check_instance_none_defined: "check_type_instance t ts = [] \<Longrightarrow> t \<noteq> Undefined"
  by (auto simp: check_type_instance_def)

lemma expression_yields:
  "check te e = Inr (t, []) \<Longrightarrow> t \<noteq> Undefined \<Longrightarrow> translatable te e \<Longrightarrow> yields anything (to_ir (typing_of te) e)"
  by (rule yields_mono [OF checked_yields]) simp_all

lemma yields_store:
  assumes "b" "yields anything M"
  shows "yields anything (store_ir b M f)"
  unfolding store_ir_def
  by (rule yields_assert [OF assms(1)], rule yields_bind3 [OF assms(2)], rule yields_return, simp)

lemma instance_sequence: "check_type_instance t [SequenceC] = [] \<longleftrightarrow> is_sequence t \<or> t = Any"
  by (cases t) (auto simp: check_type_instance_def is_instance_def)

lemma instance_message: "check_type_instance t [MessageC] = [] \<longleftrightarrow> is_message t \<or> t = Any"
  by (cases t) (auto simp: check_type_instance_def is_instance_def)

lemma instance_reset: "check_type_instance t [SequenceC, MessageC] = [] \<longleftrightarrow> is_sequence t \<or> is_message t \<or> t = Any"
  by (cases t) (auto simp: check_type_instance_def is_instance_def)

lemma yields_seq: "(\<And>x. x \<in> set xs \<Longrightarrow> yields anything (f x)) \<Longrightarrow> yields anything (seq_gen f xs)"
proof (induction xs)
  case (Cons x xs)
  then have x: "yields anything (f x)" and xs: "yields anything (seq_gen f xs)" by auto
  show ?case
    unfolding seq_gen.simps
    by (rule yields_bind [OF x], rule yields_bind [OF xs], rule yields_return, simp)
qed (simp add: yields_return)

lemma reset_argument:
  assumes "check_reset te t i args = Inr (s', [])" "is_named t" "(k, e) \<in> set args"
  shows "\<exists>u us. check te e = Inr (u, []) \<and> check_type u us = []"
proof -
  have "\<not> is_sequence t" using assms(1,3) by (auto simp: check_reset_def)
  moreover have "t \<noteq> Any" using assms(2) by (auto simp: is_named_def)
  ultimately have m: "\<not> is_sequence t" "is_message t"
    using assms(1) by (auto simp: check_reset_def bind_res_eq_Inr instance_reset)
  then obtain ess where "map_res (check_argument te t) args = Inr ess" "concat ess = []"
    using assms(1) by (auto simp: check_reset_def bind_res_eq_Inr)
  then obtain es where "check_argument te t (k, e) = Inr es" "es = []"
    using map_res_argument assms(3) by force
  then show ?thesis
    by (auto simp: check_argument_def bind_res_eq_Inr check_expr_none split: option.splits)
qed

lemma channel_yields:
  assumes "check_channel te t rd e = Inr []" "translatable te e"
  shows "yields anything (to_ir_basic_expr (typing_of te e) (to_ir (typing_of te) e))"
proof -
  obtain u where u: "check te e = Inr (u, [])" "check_type_instance u [MessageC] = []"
    using assms(1) by (auto simp: check_channel_def bind_res_eq_Inr check_expr_instance_none)
  then have "yields (fits u) (to_ir (typing_of te) e)" "\<not> is_aggregate u"
    using checked_yields checked_types assms(2) check_instance_none_defined by blast+
  then show ?thesis using yields_basic_expr typing_of_check [OF u(1)] by simp
qed

lemma statement_yields:
  assumes "check_statement te t s = Inr (s', [])" "is_named t \<or> is_channel_statement s"
    and "\<forall>e\<in>set (statement_expressions s). translatable te e"
  shows "yields anything (statement_to_ir (typing_of te) s')"
proof (cases s)
  case (VariableAssignment i e u)
  then obtain v where "check te e = Inr (v, [])" "check_type v [t] = []" and s': "s' = VariableAssignment i e t"
    using assms(1) by (auto simp: check_variable_assignment_def bind_res_eq_Inr check_expr_none)
  then have "yields anything (to_ir (typing_of te) e)"
    using assms(3) expression_yields check_type_none_defined by (simp add: VariableAssignment)
  then show ?thesis using assms(2) s' by (simp add: VariableAssignment yields_store)
next
  case (MessageFieldAssignment i f e u)
  then obtain v us where "check te e = Inr (v, [])" "check_type v us = []" and s': "s' = MessageFieldAssignment i f e t"
      and "is_message t \<or> t = Any"
    using assms(1)
    by (auto simp: check_field_assignment_def bind_res_eq_Inr check_expr_none instance_message split: prod.splits)
  moreover from this have "yields anything (to_ir (typing_of te) e)"
    using assms(3) expression_yields check_type_none_defined by (simp add: MessageFieldAssignment)
  moreover have "t \<noteq> Any" using assms(2) by (auto simp: MessageFieldAssignment is_named_def)
  ultimately show ?thesis by (simp add: yields_store)
next
  case (AppendTo i e u)
  then have "t \<noteq> Any" using assms(2) by (auto simp: is_named_def)
  then obtain v us where "check te e = Inr (v, [])" "check_type v us = []" and s': "s' = AppendTo i e t" and t: "is_sequence t"
    using assms(1) AppendTo
    by (cases "is_sequence t"; cases t)
      (auto simp: check_append_def bind_res_eq_Inr check_expr_none instance_sequence split: if_splits)
  then have "yields anything (to_ir (typing_of te) e)"
    using assms(3) expression_yields check_type_none_defined by (simp add: AppendTo)
  then show ?thesis using t s' by (simp add: yields_store)
next
  case (ExtendBy i e u)
  then have "t \<noteq> Any" using assms(2) by (auto simp: is_named_def)
  then obtain v us where "check te e = Inr (v, [])" "check_type v us = []" and s': "s' = ExtendBy i e t" and t: "is_sequence t"
    using assms(1) ExtendBy
    by (auto simp: check_extend_def bind_res_eq_Inr check_expr_none instance_sequence)
  then have "yields anything (to_ir (typing_of te) e)"
    using assms(3) expression_yields check_type_none_defined by (simp add: ExtendBy)
  then show ?thesis using t s' by (simp add: yields_store)
next
  case (ResetOf i args u)
  have n: "is_named t" using assms(2) by (simp add: ResetOf)
  then have "t \<noteq> Any" by (auto simp: is_named_def)
  then have ok: "is_sequence t \<or> is_message t" and s': "s' = ResetOf i args t"
    using assms(1) by (auto simp: ResetOf check_reset_def bind_res_eq_Inr instance_reset)
  have e: "yields anything (to_ir (typing_of te) e)" if ke: "(k, e) \<in> set args" for k e
  proof -
    obtain u us where "check te e = Inr (u, [])" "check_type u us = []"
      using reset_argument [of te t i args s' k e] assms(1) ke n by (auto simp: ResetOf)
    moreover have "translatable te e" using assms(3) ke by (force simp: ResetOf)
    ultimately show ?thesis using expression_yields check_type_none_defined by blast
  qed
  have "yields anything (seq_gen (\<lambda>(k, e). bind_gen (to_ir (typing_of te) e) (\<lambda>r. return_gen (k, r))) args)"
  proof (rule yields_seq)
    fix x assume mem: "x \<in> set args"
    obtain k e where "x = (k, e)" by (cases x)
    then have x: "x = (k, e)" "(k, e) \<in> set args" using mem by simp_all
    show "yields anything (case x of (k, e) \<Rightarrow> bind_gen (to_ir (typing_of te) e) (\<lambda>r. return_gen (k, r)))"
      unfolding x(1) prod.case by (rule yields_bind [OF e [OF x(2)]], rule yields_return, simp)
  qed
  then show ?thesis
    unfolding s' statement_to_ir.simps by (intro yields_assert ok) (erule yields_bind, rule yields_return, simp)
next
  case (ReadFrom i e u)
  then have c: "check_channel te t True e = Inr []" and s': "s' = ReadFrom i e t"
    using assms(1) by (auto simp: bind_res_eq_Inr)
  have tr: "translatable te e" using assms(3) by (simp add: ReadFrom)
  show ?thesis
    unfolding s' statement_to_ir.simps
    by (rule yields_bind2 [OF channel_yields [OF c tr]], rule yields_return, simp)
next
  case (WriteTo i e u)
  then have c: "check_channel te t False e = Inr []" and s': "s' = WriteTo i e t"
    using assms(1) by (auto simp: bind_res_eq_Inr)
  have tr: "translatable te e" using assms(3) by (simp add: WriteTo)
  show ?thesis
    unfolding s' statement_to_ir.simps
    by (rule yields_bind2 [OF channel_yields [OF c tr]], rule yields_return, simp)
qed

text \<open>
  A statement that passes its type check, for a variable of a named type, can be translated to
  three-address code if its expressions belong to the translatable ones: neither an assertion about the
  type of the statement nor one about the types of its expressions fails.
\<close>

theorem checked_statement_translates:
  assumes "check_statement te t s = Inr (s', [])" "is_named t \<or> is_channel_statement s"
    and "\<forall>e\<in>set (statement_expressions s). translatable te e"
  shows "\<exists>ss n. statement_to_ir (typing_of te) s' m = Inr (ss, n)"
  using statement_yields [OF assms] by (auto simp: yields_def)

definition sample_statement :: statement where
  "sample_statement = VariableAssignment ''X'' (Ass Add [Variable ''X'', Selected (Variable ''M'') ''F'']) Undefined"

theorem checked_statement_translates_witness:
  "\<exists>ss n. statement_to_ir (typing_of sample_tenv)
     (VariableAssignment ''X'' (Ass Add [Variable ''X'', Selected (Variable ''M'') ''F'']) (Integer ''P::T'' (0, 255))) 0
     = Inr (ss, n)"
proof -
  have c: "check_statement sample_tenv (Integer ''P::T'' (0, 255)) sample_statement =
      Inr (VariableAssignment ''X'' (Ass Add [Variable ''X'', Selected (Variable ''M'') ''F'']) (Integer ''P::T'' (0, 255)), [])"
    by code_simp
  have n: "is_named (Integer ''P::T'' (0, 255)) \<or> is_channel_statement sample_statement"
    by (simp add: is_named_def)
  have t: "\<forall>e\<in>set (statement_expressions sample_statement). translatable sample_tenv e"
    by code_simp
  show ?thesis by (rule checked_statement_translates [OF c n t])
qed

end
