(* ===== verification/Expr_Proof.thy ===== *)
theory Expr_Proof
  imports Expr_Termination Types
begin

text \<open>
  The translation of expressions into formulas of the SMT solver, proof goals and their evaluation
  (\<open>rflx/expr_proof.py\<close>).  The solver itself is not part of the program: it is an argument of the
  definitions, and its results are tied to the meaning of formulas below by \<open>sound_solver\<close>.
\<close>

section \<open>Formulas\<close>

text \<open>
  The terms built with the Python interface of Z3.  \<open>PyInt\<close> is the plain integer that an empty sum or
  product evaluates to, which is not a term.
\<close>

datatype zterm =
    ZInt int
  | ZBool bool
  | IntConst string
  | BoolConst string
  | ZNot zterm
  | ZAnd "zterm list"
  | ZOr "zterm list"
  | ZNeg zterm
  | ZSum "zterm list"
  | ZProduct "zterm list"
  | ZSub zterm zterm
  | ZDiv zterm zterm
  | ZPow zterm zterm
  | ZMod zterm zterm
  | ZRel rel_op zterm zterm
  | ZIf zterm zterm zterm
  | PyInt int

datatype zsort = IntSort | RealSort | BoolSort | NoSort

definition join_sort :: "zsort \<Rightarrow> zsort \<Rightarrow> zsort" where
  "join_sort a b = (if a = RealSort \<or> b = RealSort then RealSort else if a = IntSort \<or> b = IntSort then IntSort else a)"

text \<open>The powers have the sort of real numbers, also those of integers.\<close>

fun sort_of :: "zterm \<Rightarrow> zsort" where
  "sort_of (ZInt n) = IntSort"
| "sort_of (IntConst s) = IntSort"
| "sort_of (ZNeg t) = sort_of t"
| "sort_of (ZSum ts) = foldr join_sort (map sort_of ts) IntSort"
| "sort_of (ZProduct ts) = foldr join_sort (map sort_of ts) IntSort"
| "sort_of (ZSub a b) = join_sort (sort_of a) (sort_of b)"
| "sort_of (ZDiv a b) = join_sort (sort_of a) (sort_of b)"
| "sort_of (ZPow a b) = RealSort"
| "sort_of (ZMod a b) = IntSort"
| "sort_of (ZIf c a b) = join_sort (sort_of a) (sort_of b)"
| "sort_of (PyInt n) = NoSort"
| "sort_of _ = BoolSort"

definition is_arith :: "zterm \<Rightarrow> bool" where
  "is_arith t = (sort_of t = IntSort \<or> sort_of t = RealSort)"

definition is_bool :: "zterm \<Rightarrow> bool" where
  "is_bool t = (sort_of t = BoolSort)"

lemma arith_not_bool: "is_arith t \<Longrightarrow> \<not> is_bool t"
  by (auto simp: is_arith_def is_bool_def)

section \<open>The translation of expressions\<close>

definition z3_not :: "zterm \<Rightarrow> zterm res" where
  "z3_not t = (if is_bool t then Inr (ZNot t) else Inl TypeError)"

definition z3_conn :: "(zterm list \<Rightarrow> zterm) \<Rightarrow> zterm list \<Rightarrow> zterm res" where
  "z3_conn f ts = (if list_all is_bool ts then Inr (f ts) else Inl TypeError)"

definition z3_fold :: "(zterm list \<Rightarrow> zterm) \<Rightarrow> int \<Rightarrow> zterm list \<Rightarrow> zterm res" where
  "z3_fold f n ts =
     (if list_all is_arith ts then Inr (if ts = [] then PyInt n else f ts) else Inl TypeError)"

definition z3_ass :: "ass_op \<Rightarrow> zterm list \<Rightarrow> zterm res" where
  "z3_ass op ts =
     (case op of
        Add \<Rightarrow> z3_fold ZSum 0 ts
      | Mul \<Rightarrow> z3_fold ZProduct 1 ts
      | And \<Rightarrow> z3_conn ZAnd ts | AndThen \<Rightarrow> z3_conn ZAnd ts
      | Or \<Rightarrow> z3_conn ZOr ts | OrElse \<Rightarrow> z3_conn ZOr ts)"

definition z3_math :: "math_op \<Rightarrow> zterm \<Rightarrow> zterm \<Rightarrow> zterm res" where
  "z3_math op a b =
     (if is_arith a \<and> is_arith b then
        (case op of
           Sub \<Rightarrow> Inr (ZSub a b)
         | Div \<Rightarrow> Inr (ZDiv a b)
         | Pow \<Rightarrow> Inr (ZPow a b)
         | Mod \<Rightarrow>
             (if sort_of a \<noteq> IntSort then Inl TypeError
              else if sort_of b \<noteq> IntSort then Inl Z3Exception
              else Inr (ZMod a b))
         | Rem \<Rightarrow> Inl NotImplementedError)
      else Inl TypeError)"

definition z3_relation :: "rel_op \<Rightarrow> zterm \<Rightarrow> zterm \<Rightarrow> zterm res" where
  "z3_relation op a b =
     (if is_arith a \<and> is_arith b then
        (if op = In \<or> op = NotIn then Inl NotImplementedError else Inr (ZRel op a b))
      else if is_bool a \<and> is_bool b then
        (if op = In \<or> op = NotIn then Inl NotImplementedError
         else if op = Equal \<or> op = NotEqual then Inr (ZRel op a b) else Inl TypeError)
      else Inl TypeError)"

text \<open>A plain integer in a branch becomes a term; a boolean branch beside a number becomes 0 or 1.\<close>

definition z3_branch :: "zterm \<Rightarrow> zterm" where
  "z3_branch t = (case t of PyInt n \<Rightarrow> ZInt n | _ \<Rightarrow> t)"

definition z3_if :: "zterm \<Rightarrow> zterm \<Rightarrow> zterm \<Rightarrow> zterm res" where
  "z3_if c a b =
     (if \<not> is_bool c then Inl TypeError
      else if is_bool a \<and> sort_of b = NoSort \<or> sort_of a = NoSort \<and> is_bool b then Inl Z3Exception
      else Inr (ZIf c (z3_branch a) (z3_branch b)))"

definition named_prefix :: "expr \<Rightarrow> bool" where
  "named_prefix p = (class_of p \<in> {C_Variable, C_Literal, C_TypeName, C_Selected})"

text \<open>The types of variables are an argument; only whether a variable is boolean matters.\<close>

function to_z3 :: "(ident \<Rightarrow> ty) \<Rightarrow> expr \<Rightarrow> zterm res" where
  "to_z3 vt (NotE e) = bind_res (to_z3 vt e) z3_not"
| "to_z3 vt (Ass op ts) = bind_res (map_res (\<lambda>t. to_z3 vt t) ts) (z3_ass op)"
| "to_z3 vt (Number n b) = Inr (ZInt n)"
| "to_z3 vt (Neg e) = bind_res (to_z3 vt e) (\<lambda>t. if is_arith t then Inr (ZNeg t) else Inl TypeError)"
| "to_z3 vt (MathBin op l r) =
     (if op = Rem then Inl NotImplementedError
      else
        bind_res (if op = Mod then simplified l else Inr l) (\<lambda>l'.
        bind_res (to_z3 vt l') (\<lambda>a. bind_res (to_z3 vt r) (\<lambda>b. z3_math op a b))))"
| "to_z3 vt (TypeName i) = Inl NotImplementedError"
| "to_z3 vt (Literal i) =
     Inr (if id_eq i ''True'' then ZBool True else if id_eq i ''False'' then ZBool False else IntConst i)"
| "to_z3 vt (Variable i) = Inr (if ty_eq (vt i) BOOLEAN then BoolConst i else IntConst i)"
| "to_z3 vt (Attribute a p) =
     (if a = ValidChecksum then
        bind_res (expr_str (Attribute a p)) (\<lambda>s. Inr (BoolConst s))
      else if named_prefix p then bind_res (expr_str (Attribute a p)) (\<lambda>s. Inr (IntConst s))
      else Inl TypeError)"
| "to_z3 vt (Val p e) = Inl NotImplementedError"
| "to_z3 vt (Indexed p es) = Inl NotImplementedError"
| "to_z3 vt (Selected p f) = bind_res (expr_str (Selected p f)) (\<lambda>s. Inr (IntConst s))"
| "to_z3 vt (Call i es) = Inl NotImplementedError"
| "to_z3 vt (Slice p a b) = Inl NotImplementedError"
| "to_z3 vt UndefinedExpr = Inl NotImplementedError"
| "to_z3 vt (expr.Aggregate es) = bind_res (expr_str (expr.Aggregate es)) (\<lambda>s. Inr (IntConst s))"
| "to_z3 vt (StringE s) = bind_res (expr_str (StringE s)) (\<lambda>s. Inr (IntConst s))"
| "to_z3 vt (Relation op l r) =
     bind_res (to_z3 vt l) (\<lambda>a. bind_res (to_z3 vt r) (\<lambda>b. z3_relation op a b))"
| "to_z3 vt (IfExpr ces els) =
     (case (ces, els) of
        ([(c, e)], Some e') \<Rightarrow>
          bind_res (to_z3 vt c) (\<lambda>t.
          if \<not> is_bool t then Inl TypeError
          else bind_res (to_z3 vt e) (\<lambda>a. bind_res (to_z3 vt e') (\<lambda>b. z3_if t a b)))
      | _ \<Rightarrow> Inl TypeError)"
| "to_z3 vt (Quantified q i it p) = Inl NotImplementedError"
| "to_z3 vt (ValueRange a b) = Inl NotImplementedError"
| "to_z3 vt (Conversion i e) = Inl NotImplementedError"
| "to_z3 vt (QualifiedExpr i e) = Inl NotImplementedError"
| "to_z3 vt (Comprehension i sq sel c) = Inl NotImplementedError"
| "to_z3 vt (MessageAggregate d i fs) = Inl NotImplementedError"
| "to_z3 vt (CaseExpr e cs) = Inl NotImplementedError"
  by pat_completeness auto

termination
  by (relation "measure (\<lambda>(vt, e). weight e)")
    (auto simp: less_Suc_eq_le weight_pos dest!: weight_mem simplified_weight split: if_splits)

declare to_z3.simps [simp del]

section \<open>The meaning of formulas\<close>

text \<open>
  Division by zero and the other cases that the theory of integers and reals leaves open are part of the
  interpretation.
\<close>

record interp =
  in_int :: "string \<Rightarrow> int"
  in_bool :: "string \<Rightarrow> bool"
  in_div0 :: "int \<Rightarrow> int"
  in_mod0 :: "int \<Rightarrow> int"
  in_quotient0 :: "rat \<Rightarrow> rat"
  in_power :: "rat \<Rightarrow> rat \<Rightarrow> rat"

datatype zval = ZN rat | ZB bool

fun num :: "zval \<Rightarrow> rat" where
  "num (ZN x) = x"
| "num (ZB b) = of_bool b"

fun truth :: "zval \<Rightarrow> bool" where
  "truth (ZB b) = b"
| "truth (ZN x) = (x \<noteq> 0)"

text \<open>The remainder of a division is never negative.\<close>

definition int_quotient :: "interp \<Rightarrow> int \<Rightarrow> int \<Rightarrow> int" where
  "int_quotient I m n = (if n = 0 then in_div0 I m else sgn n * (m div \<bar>n\<bar>))"

definition int_remainder :: "interp \<Rightarrow> int \<Rightarrow> int \<Rightarrow> int" where
  "int_remainder I m n = (if n = 0 then in_mod0 I m else m mod \<bar>n\<bar>)"

lemma int_quotient_remainder: "n \<noteq> 0 \<Longrightarrow> n * int_quotient I m n + int_remainder I m n = m"
  by (simp add: int_quotient_def int_remainder_def mult.assoc [symmetric] abs_sgn mult.commute)

definition power_value :: "interp \<Rightarrow> rat \<Rightarrow> rat \<Rightarrow> rat" where
  "power_value I x y =
     (if y = of_int \<lfloor>y\<rfloor> \<and> x \<noteq> 0 then (if 0 \<le> y then x ^ nat \<lfloor>y\<rfloor> else 1 / x ^ nat (- \<lfloor>y\<rfloor>))
      else if y = of_int \<lfloor>y\<rfloor> \<and> 0 < y then 0 else in_power I x y)"

fun zeval :: "interp \<Rightarrow> zterm \<Rightarrow> zval" where
  "zeval I (ZInt n) = ZN (of_int n)"
| "zeval I (ZBool b) = ZB b"
| "zeval I (IntConst s) = ZN (of_int (in_int I s))"
| "zeval I (BoolConst s) = ZB (in_bool I s)"
| "zeval I (ZNot t) = ZB (\<not> truth (zeval I t))"
| "zeval I (ZAnd ts) = ZB (list_all (\<lambda>t. truth (zeval I t)) ts)"
| "zeval I (ZOr ts) = ZB (list_ex (\<lambda>t. truth (zeval I t)) ts)"
| "zeval I (ZNeg t) = ZN (- num (zeval I t))"
| "zeval I (ZSum ts) = ZN (sum_list (map (\<lambda>t. num (zeval I t)) ts))"
| "zeval I (ZProduct ts) = ZN (prod_list (map (\<lambda>t. num (zeval I t)) ts))"
| "zeval I (ZSub a b) = ZN (num (zeval I a) - num (zeval I b))"
| "zeval I (ZDiv a b) =
     ZN (let x = num (zeval I a); y = num (zeval I b) in
         if join_sort (sort_of a) (sort_of b) = IntSort then of_int (int_quotient I \<lfloor>x\<rfloor> \<lfloor>y\<rfloor>)
         else if y = 0 then in_quotient0 I x else x / y)"
| "zeval I (ZPow a b) = ZN (power_value I (num (zeval I a)) (num (zeval I b)))"
| "zeval I (ZMod a b) = ZN (of_int (int_remainder I \<lfloor>num (zeval I a)\<rfloor> \<lfloor>num (zeval I b)\<rfloor>))"
| "zeval I (ZRel op a b) =
     ZB (if is_bool a then (truth (zeval I a) = truth (zeval I b)) = (op = Equal)
         else compare_with op (num (zeval I a)) (num (zeval I b)))"
| "zeval I (ZIf c a b) =
     (let v = (if truth (zeval I c) then zeval I a else zeval I b) in
      if sort_of (ZIf c a b) = BoolSort then v else ZN (num v))"
| "zeval I (PyInt n) = ZN (of_int n)"

text \<open>Terms of the sort of integers have integer values.\<close>

lemma join_sort_Int: "join_sort a b = IntSort \<longleftrightarrow> (a = IntSort \<or> b = IntSort) \<and> a \<noteq> RealSort \<and> b \<noteq> RealSort"
  by (auto simp: join_sort_def)

section \<open>Proofs\<close>

datatype proof_result = SAT | UNSAT | UNKNOWN

type_synonym solver = "zterm list \<Rightarrow> proof_result"

text \<open>
  The solver answers correctly, if it gives an answer: assertions it finds unsatisfiable have no model, and
  those it finds satisfiable have one.
\<close>

definition sound_solver :: "solver \<Rightarrow> bool" where
  "sound_solver solve \<longleftrightarrow>
     (\<forall>ts. solve ts = UNSAT \<longrightarrow> (\<nexists>I. \<forall>t\<in>set ts. truth (zeval I t)))
     \<and> (\<forall>ts. solve ts = SAT \<longrightarrow> (\<exists>I. \<forall>t\<in>set ts. truth (zeval I t)))"

text \<open>Only boolean terms can be asserted.\<close>

definition assertion :: "(ident \<Rightarrow> ty) \<Rightarrow> expr \<Rightarrow> zterm res" where
  "assertion vt e = bind_res (to_z3 vt e) (\<lambda>t. if is_bool t then Inr t else Inl Z3Exception)"

definition prove :: "solver \<Rightarrow> (ident \<Rightarrow> ty) \<Rightarrow> expr \<Rightarrow> expr list \<Rightarrow> proof_result res" where
  "prove solve vt goal facts = bind_res (map_res (assertion vt) (goal # facts)) (\<lambda>ts. Inr (solve ts))"

text \<open>
  The assertions tracked to explain an unsatisfiable goal: those of a disjunction are all the parts of its
  terms.
\<close>

definition tracked_goal :: "expr \<Rightarrow> expr list" where
  "tracked_goal goal =
     (case goal of
        Ass op ts \<Rightarrow>
          (if op = Or \<or> op = OrElse then
             concat (map (\<lambda>t. case t of Ass op' us \<Rightarrow> if op' = And \<or> op' = AndThen then us else [t] | _ \<Rightarrow> [t]) ts)
           else [goal])
      | _ \<Rightarrow> [goal])"

definition unsat_assertions :: "expr \<Rightarrow> expr list \<Rightarrow> expr list" where
  "unsat_assertions goal facts = facts @ tracked_goal goal"

section \<open>Proof jobs\<close>

record 'e proof_job =
  job_goal :: expr
  job_facts :: "expr list"
  job_result :: "proof_result \<Rightarrow> 'e list"
  job_add_unsat :: bool

definition add_proof ::
    "expr \<Rightarrow> expr list \<Rightarrow> 'e list \<Rightarrow> 'e list \<Rightarrow> 'e list \<Rightarrow> bool \<Rightarrow> 'e proof_job" where
  "add_proof goal facts unsat unknown sat add_unsat =
     \<lparr>job_goal = goal, job_facts = facts,
      job_result = (\<lambda>r. case r of SAT \<Rightarrow> sat | UNSAT \<Rightarrow> unsat | UNKNOWN \<Rightarrow> unknown),
      job_add_unsat = add_unsat\<rparr>"

text \<open>
  The errors of a job and whether there are annotations for them.  An explanation of an unsatisfiable goal is
  not empty, and the second run of the solver confirms the result of the first, or the assertion fails.
\<close>

definition check_proof :: "solver \<Rightarrow> (ident \<Rightarrow> ty) \<Rightarrow> 'e proof_job \<Rightarrow> ('e list \<times> bool) res" where
  "check_proof solve vt j =
     bind_res (prove solve vt (job_goal j) (job_facts j)) (\<lambda>r.
       if r = UNKNOWN then Inr (job_result j r, True)
       else if r = UNSAT \<and> job_add_unsat j then
         bind_res (map_res (assertion vt) (unsat_assertions (job_goal j) (job_facts j))) (\<lambda>ts.
           assert_res (solve ts = UNSAT) (Inr (job_result j r, True)))
       else Inr (job_result j r, False))"

definition check_proofs :: "solver \<Rightarrow> (ident \<Rightarrow> ty) \<Rightarrow> 'e proof_job list \<Rightarrow> 'e list res" where
  "check_proofs solve vt js =
     bind_res (map_res (check_proof solve vt) js) (\<lambda>rs.
       assert_res (list_all (\<lambda>(es, annotated). annotated \<longrightarrow> es \<noteq> []) rs) (Inr (concat (map fst rs))))"

text \<open>
  The optimizing solver is an argument, too: the largest value of a term under assertions, if there is one.  An
  unbounded term fails an assertion.
\<close>

type_synonym maximizer = "zterm list \<Rightarrow> zterm \<Rightarrow> int option"

text \<open>What is assumed of the optimizing solver: its answer is a value of the term, and no value is larger.\<close>

definition sound_maximizer :: "maximizer \<Rightarrow> bool" where
  "sound_maximizer mx \<longleftrightarrow>
     (\<forall>ts t n. mx ts t = Some n \<longrightarrow>
        (\<exists>I. (\<forall>u\<in>set ts. truth (zeval I u)) \<and> num (zeval I t) = of_int n)
        \<and> (\<forall>I. (\<forall>u\<in>set ts. truth (zeval I u)) \<longrightarrow> num (zeval I t) \<le> of_int n))"

definition max_value :: "maximizer \<Rightarrow> (ident \<Rightarrow> ty) \<Rightarrow> expr \<Rightarrow> expr list \<Rightarrow> expr res" where
  "max_value maximize vt goal facts =
     bind_res (map_res (assertion vt) facts) (\<lambda>ts.
     bind_res (to_z3 vt goal) (\<lambda>t.
       case maximize ts t of Some n \<Rightarrow> Inr (Number n 0) | None \<Rightarrow> Inl AssertionError))"

section \<open>Satisfied expressions\<close>

definition holds :: "(ident \<Rightarrow> ty) \<Rightarrow> interp \<Rightarrow> expr \<Rightarrow> bool" where
  "holds vt I e \<longleftrightarrow> (\<exists>t. assertion vt e = Inr t \<and> truth (zeval I t))"

lemma holds_assertion: "assertion vt e = Inr t \<Longrightarrow> holds vt I e \<longleftrightarrow> truth (zeval I t)"
  by (simp add: holds_def)

lemma assertions_hold:
  "map_res (assertion vt) es = Inr ts \<Longrightarrow> list_all (holds vt I) es \<longleftrightarrow> (\<forall>t\<in>set ts. truth (zeval I t))"
  by (induction es arbitrary: ts) (auto simp: bind_res_eq_Inr holds_assertion)

lemma prove_Inr:
  "prove solve vt goal facts = Inr r \<longleftrightarrow>
     (\<exists>ts. map_res (assertion vt) (goal # facts) = Inr ts \<and> solve ts = r)"
  by (auto simp: prove_def bind_res_eq_Inr simp del: map_res_Cons)

lemma prove_unsat:
  assumes "sound_solver solve" "prove solve vt goal facts = Inr UNSAT" "list_all (holds vt I) facts"
  shows "\<not> holds vt I goal"
  using assms assertions_hold [of vt "goal # facts" _ I]
  unfolding prove_Inr sound_solver_def by (metis list.pred_inject(2))

lemma prove_sat:
  assumes "sound_solver solve" "prove solve vt goal facts = Inr SAT"
  shows "\<exists>I. holds vt I goal \<and> list_all (holds vt I) facts"
  using assms assertions_hold [of vt "goal # facts"]
  unfolding prove_Inr sound_solver_def by (metis list.pred_inject(2))

lemma to_z3_conn:
  assumes "map_res (to_z3 vt) ts = Inr zs" "list_all is_bool zs"
  shows "op = And \<or> op = AndThen \<Longrightarrow> to_z3 vt (Ass op ts) = Inr (ZAnd zs)"
    and "op = Or \<or> op = OrElse \<Longrightarrow> to_z3 vt (Ass op ts) = Inr (ZOr zs)"
  using assms by (auto simp: to_z3.simps z3_ass_def z3_conn_def)

lemma assertions_are_bool:
  "map_res (assertion vt) es = Inr zs \<Longrightarrow> map_res (to_z3 vt) es = Inr zs \<and> list_all is_bool zs"
  by (induction es arbitrary: zs) (auto simp: bind_res_eq_Inr assertion_def split: if_splits)

lemma all_hold_assertions: "list_all (holds vt I) es \<Longrightarrow> \<exists>zs. map_res (assertion vt) es = Inr zs"
  by (induction es) (auto simp: holds_def)

text \<open>Conjunctions and disjunctions of boolean expressions hold as expected.\<close>

lemma holds_conj:
  assumes "list_all (holds vt I) es" "op = And \<or> op = AndThen"
  shows "holds vt I (Ass op es)"
proof -
  from all_hold_assertions [OF assms(1)] obtain zs where zs: "map_res (assertion vt) es = Inr zs" by blast
  then have "assertion vt (Ass op es) = Inr (ZAnd zs)"
    using assertions_are_bool [OF zs] assms(2) by (auto simp: assertion_def to_z3_conn is_bool_def)
  then show ?thesis using assms(1) assertions_hold [OF zs] by (simp add: holds_def list_all_iff)
qed

lemma holds_disj:
  assumes "list_all (holds vt I) es" "es \<noteq> []" "op = Or \<or> op = OrElse"
  shows "holds vt I (Ass op es)"
proof -
  from all_hold_assertions [OF assms(1)] obtain zs where zs: "map_res (assertion vt) es = Inr zs" by blast
  then have "assertion vt (Ass op es) = Inr (ZOr zs)"
    using assertions_are_bool [OF zs] assms(3) by (auto simp: assertion_def to_z3_conn is_bool_def)
  moreover from zs assms(2) have "zs \<noteq> []" by (cases es) (auto simp: bind_res_eq_Inr)
  ultimately show ?thesis
    using assms(1) assertions_hold [OF zs] by (cases zs) (simp_all add: holds_def)
qed

text \<open>
  If the tracked assertions have a model, so has the goal: the second run cannot contradict the first one,
  except for a disjunction without terms.
\<close>

lemma tracked_goal_holds:
  assumes "list_all (holds vt I) (tracked_goal goal)" "goal \<noteq> Ass Or []" "goal \<noteq> Ass OrElse []"
  shows "holds vt I goal"
proof (cases "\<exists>op ts. goal = Ass op ts \<and> (op = Or \<or> op = OrElse)")
  case True
  then obtain op ts where g: "goal = Ass op ts" "op = Or \<or> op = OrElse" by blast
  have "holds vt I t" if "t \<in> set ts" for t
  proof -
    have "list_all (holds vt I) (case t of Ass op' us \<Rightarrow> if op' = And \<or> op' = AndThen then us else [t] | _ \<Rightarrow> [t])"
      using assms(1) g that by (auto simp: tracked_goal_def list_all_iff)
    then show ?thesis by (auto simp: holds_conj split: expr.splits if_splits)
  qed
  then show ?thesis using g assms(2,3) by (auto intro!: holds_disj simp: list_all_iff)
next
  case False
  then have "tracked_goal goal = [goal]" by (auto simp: tracked_goal_def split: expr.splits)
  then show ?thesis using assms(1) by simp
qed

end
