(* ===== verification/Message_Model.thy ===== *)
theory Message_Model
  imports Type_Decl Message_Checks Message_Paths Expr_Proof
begin

text \<open>
  Messages with the types of their fields (\<open>Message\<close> in \<open>rflx/model/message.py\<close>): the expressions for
  positions and sizes of fields, and the constraints on them that proofs about messages rest on.
\<close>

section \<open>Messages\<close>

datatype byte_order = HIGH_ORDER_FIRST | LOW_ORDER_FIRST

text \<open>
  The dictionaries of parameters and fields keep the order of their keys; the fields are sorted
  topologically.  The last two tables hold the qualified enumeration literals and the names of types.
\<close>

record msg =
  ms_identifier :: ident
  ms_structure :: "link list"
  ms_parameters :: "(field \<times> type_decl) list"
  ms_fields :: "(field \<times> type_decl) list"
  ms_checksums :: "(ident \<times> expr list) list"
  ms_byte_order :: "(field \<times> byte_order) list"
  ms_literals :: "(ident \<times> enum_decl) list"
  ms_type_names :: "(ident \<times> type_decl) list"

definition all_types_of :: "msg \<Rightarrow> (field \<times> type_decl) list" where
  "all_types_of m = ms_parameters m @ ms_fields m"

definition field_names :: "msg \<Rightarrow> field list" where
  "field_names m = map fst (ms_fields m)"

text \<open>The messages of declarations, as far as types refer to them.\<close>

definition message_package :: "msg \<Rightarrow> ident" where
  "message_package m = package_of (ms_identifier m)"

fun is_scalar :: "type_decl \<Rightarrow> bool" where
  "is_scalar (IntegerDecl d) = True"
| "is_scalar (EnumDecl d) = True"
| "is_scalar _ = False"

fun element_size :: "type_decl \<Rightarrow> expr option" where
  "element_size (SequenceDecl i t) = Some (Attribute Size (Variable (id_name (decl_identifier t))))"
| "element_size OpaqueDecl = Some (Number 8 0)"
| "element_size _ = None"

lemma is_scalar_iff: "is_scalar t \<longleftrightarrow> scalar_size t \<noteq> None"
  by (cases t) auto

section \<open>Names known to a message\<close>

text \<open>\<open>_dependencies\<close>: the types of the fields with the types they depend on, each once.\<close>

definition type_dependencies :: "(field \<times> type_decl) list \<Rightarrow> type_decl list" where
  "type_dependencies ts = rev (remdups (rev (concat (map (\<lambda>(f, t). dependencies t) ts))))"

definition unqualified_literals :: "type_decl list \<Rightarrow> ident \<Rightarrow> (ident \<times> enum_decl) list" where
  "unqualified_literals ts package =
     fold (\<lambda>t m. case t of
        EnumDecl d \<Rightarrow>
          if id_eq (package_of (enum_identifier d)) package
          then fold (\<lambda>(l, v). id_set l d) (enum_literals d) m else m
      | _ \<Rightarrow> m) ts []"

definition qualified_literals :: "type_decl list \<Rightarrow> (ident \<times> enum_decl) list" where
  "qualified_literals ts =
     fold (\<lambda>t m. case t of
        EnumDecl d \<Rightarrow>
          fold (\<lambda>(l, v). id_set
            (if id_eq (package_of (enum_identifier d)) BUILTINS_PACKAGE then l
             else id_join (package_of (enum_identifier d)) l) d) (enum_literals d) m
      | _ \<Rightarrow> m) ts []"

section \<open>Constraints\<close>

definition eq_number :: "expr \<Rightarrow> int \<Rightarrow> expr" where
  "eq_number e n = Relation Equal e (Number n 0)"

abbreviation Message_Var :: expr where
  "Message_Var \<equiv> Variable ''Message''"

definition size_of :: "field \<Rightarrow> expr" where
  "size_of f = Attribute Size (Variable f)"

definition first_of :: "field \<Rightarrow> expr" where
  "first_of f = Attribute First (Variable f)"

definition last_of :: "field \<Rightarrow> expr" where
  "last_of f = Attribute Last (Variable f)"

definition position_constraints :: "expr list" where
  "position_constraints =
     [eq_number (MathBin Mod (first_of ''Message'') (Number 8 0)) 1,
      eq_number (MathBin Mod (size_of ''Message'') (Number 8 0)) 0]"

fun scalar_constraints :: "type_decl \<Rightarrow> ident \<Rightarrow> bool \<Rightarrow> bool \<Rightarrow> expr list" where
  "scalar_constraints (IntegerDecl d) name proof_mode same_package = integer_constraints d name"
| "scalar_constraints (EnumDecl d) name proof_mode same_package =
     enumeration_constraints d name proof_mode same_package"
| "scalar_constraints t name proof_mode same_package = []"

definition BOOLEAN_DECL :: type_decl where
  "BOOLEAN_DECL = EnumDecl \<lparr>enum_identifier = id_join BUILTINS_PACKAGE ''Boolean'',
     enum_literals = [(''False'', 0), (''True'', 1)], enum_size = 1, always_valid = False\<rparr>"

definition field_constraints :: "(field \<times> type_decl) list \<Rightarrow> (ident \<times> enum_decl) list \<Rightarrow> expr list" where
  "field_constraints ts literals =
     concat (map (\<lambda>(f, t). scalar_constraints t f True False)
       (filter (\<lambda>(f, t). is_scalar t \<and> t \<noteq> BOOLEAN_DECL \<and> id_lookup literals f = None
          \<and> f \<noteq> ''Message'' \<and> f \<noteq> ''Final'') ts))"

definition type_size_constraints :: "(ident \<times> type_decl) list \<Rightarrow> expr list" where
  "type_size_constraints names =
     concat (map (\<lambda>(l, t). case scalar_size t of None \<Rightarrow> [] | Some n \<Rightarrow> [eq_number (Attribute Size (Variable l)) n]) names)"

definition constraints_of ::
    "(field \<times> type_decl) list \<Rightarrow> (ident \<times> enum_decl) list \<Rightarrow> (ident \<times> type_decl) list \<Rightarrow> expr list" where
  "constraints_of ts literals names =
     position_constraints @ field_constraints ts literals @ type_size_constraints names"

definition message_constraints :: "msg \<Rightarrow> expr list" where
  "message_constraints m =
     constraints_of (all_types_of m) (ms_literals m) (ms_type_names m)"

text \<open>The sizes of fields that are compared with aggregates.\<close>

definition aggregate_constraint :: "(field \<times> type_decl) list \<Rightarrow> expr \<Rightarrow> ident \<Rightarrow> expr list res" where
  "aggregate_constraint ts agg f =
     (case id_lookup ts f of
        None \<Rightarrow> Inl (KeyError f)
      | Some t \<Rightarrow>
          (case (element_size t, agg_elements agg) of
             (Some s, Some es) \<Rightarrow>
               Inr (Relation Equal (Ass Mul [Number (int (length es)) 0, s]) (size_of f)
                 # (case t of
                      SequenceDecl i u \<Rightarrow>
                        (if is_scalar u then
                           scalar_constraints u (id_name (decl_identifier u)) True True
                         else [])
                    | _ \<Rightarrow> []))
           | _ \<Rightarrow> Inr []))"

definition is_equation :: "expr \<Rightarrow> bool" where
  "is_equation e = (case e of Relation op l r \<Rightarrow> op = Equal \<or> op = NotEqual | _ \<Rightarrow> False)"

definition compared_aggregates :: "(field \<times> type_decl) list \<Rightarrow> expr \<Rightarrow> expr list res" where
  "compared_aggregates ts r =
     (case r of
        Relation op (Variable f) b \<Rightarrow>
          (if agg_elements b \<noteq> None then aggregate_constraint ts b f else Inr [])
      | Relation op a (Variable f) \<Rightarrow>
          (if agg_elements a \<noteq> None then aggregate_constraint ts a f else Inr [])
      | _ \<Rightarrow> Inr [])"

definition aggregate_constraints :: "(field \<times> type_decl) list \<Rightarrow> expr \<Rightarrow> expr list res" where
  "aggregate_constraints ts e =
     bind_res (findall is_equation e) (\<lambda>rs.
     bind_res (map_res (compared_aggregates ts) rs) (\<lambda>css. Inr (concat css)))"

section \<open>Substitution of known values\<close>

text \<open>A dictionary with expressions as keys: the position of a key is that of its first occurrence.\<close>

fun put_expr :: "expr \<Rightarrow> expr \<Rightarrow> (expr \<times> expr) list \<Rightarrow> (expr \<times> expr) list res" where
  "put_expr k v [] = Inr [(k, v)]"
| "put_expr k v ((k', v') # d) =
     bind_res (key_eq k' k) (\<lambda>b.
       if b then Inr ((k', v) # d) else bind_res (put_expr k v d) (\<lambda>d'. Inr ((k', v') # d')))"

fun put_equations :: "expr list \<Rightarrow> (expr \<times> expr) list \<Rightarrow> (expr \<times> expr) list res" where
  "put_equations [] d = Inr d"
| "put_equations (f # fs) d =
     (case f of
        Relation Equal l r \<Rightarrow> bind_res (put_expr l r d) (put_equations fs)
      | _ \<Rightarrow> put_equations fs d)"

definition to_mapping :: "expr list \<Rightarrow> (expr \<times> expr) list res" where
  "to_mapping fs = put_equations fs []"

definition substitute_facts :: "expr list \<Rightarrow> expr \<Rightarrow> expr res" where
  "substitute_facts fs e = bind_res (to_mapping fs) (\<lambda>d. substituted (Suc (weight e)) (substitution d) e)"

section \<open>Sizes of fields\<close>

definition field_size_opt :: "msg \<Rightarrow> field \<Rightarrow> expr option res" where
  "field_size_opt m f =
     (if f = FINAL then Inr (Some (Number 0 0))
      else
        case id_lookup (ms_fields m) f of
          None \<Rightarrow> Inl AssertionError
        | Some t \<Rightarrow>
            (case scalar_size t of
               Some n \<Rightarrow> Inr (Some (Number n 0))
             | None \<Rightarrow>
                 bind_res
                   (map_res (\<lambda>l. bind_res (substitute_facts (message_constraints m) (link_size l)) simplified)
                      (incoming (ms_structure m) f))
                   (\<lambda>sizes.
                      case sizes of
                        [] \<Rightarrow> Inl IndexError
                      | s # ss \<Rightarrow>
                          Inr (if number_value s \<noteq> None \<and> list_all (\<lambda>s'. number_value s' = number_value s) ss
                               then Some s else None))))"

definition field_size :: "msg \<Rightarrow> field \<Rightarrow> expr res" where
  "field_size m f =
     bind_res (field_size_opt m f) (\<lambda>s. case s of
       Some n \<Rightarrow> Inr n | None \<Rightarrow> Inl (RecordFluxError ''unable to calculate size of field''))"

section \<open>Positions of the target of a link\<close>

definition target_first :: "link \<Rightarrow> expr" where
  "target_first l =
     (if source l = INITIAL then first_of ''Message''
      else if link_first l \<noteq> UndefinedExpr then link_first l
      else Ass Add [last_of (source l), Number 1 0])"

definition target_size :: "msg \<Rightarrow> link \<Rightarrow> expr res" where
  "target_size m l = (if link_size l \<noteq> UndefinedExpr then Inr (link_size l) else field_size m (target l))"

definition target_size_opt :: "msg \<Rightarrow> link \<Rightarrow> expr option res" where
  "target_size_opt m l =
     (if link_size l \<noteq> UndefinedExpr then Inr (Some (link_size l)) else field_size_opt m (target l))"

definition last_expr :: "link \<Rightarrow> expr \<Rightarrow> expr" where
  "last_expr l s = MathBin Sub (Ass Add [target_first l, s]) (Number 1 0)"

definition target_last :: "msg \<Rightarrow> link \<Rightarrow> expr res" where
  "target_last m l = bind_res (target_size m l) (\<lambda>s. Inr (last_expr l s))"

definition target_last_opt :: "msg \<Rightarrow> link \<Rightarrow> expr option res" where
  "target_last_opt m l = bind_res (target_size_opt m l) (\<lambda>s. Inr (map_option (last_expr l) s))"

section \<open>Constraints of links\<close>

text \<open>
  \<open>__contains__\<close>: the operands of a binary expression are only compared, while the terms of an associative one
  are searched.
\<close>

fun contains_expr :: "expr \<Rightarrow> expr \<Rightarrow> bool res" where
  "contains_expr x (Ass op ts) =
     bind_res (expr_eq x (Ass op ts)) (\<lambda>b. if b then Inr True else any_res (contains_expr x) ts)"
| "contains_expr x (MathBin op l r) = any_res (expr_eq x) [MathBin op l r, l, r]"
| "contains_expr x (Relation op l r) = any_res (expr_eq x) [Relation op l r, l, r]"
| "contains_expr x e = expr_eq x e"

definition refers_to_message_size :: "expr option \<Rightarrow> bool res" where
  "refers_to_message_size s =
     (case s of
        None \<Rightarrow> Inr False
      | Some e \<Rightarrow> any_res (\<lambda>x. contains_expr x e) [size_of ''Message'', last_of ''Message''])"

definition message_end_constraints :: "field \<Rightarrow> expr list" where
  "message_end_constraints name =
     [Relation GreaterEqual (first_of ''Message'') (Number 0 0),
      Relation GreaterEqual (last_of ''Message'') (last_of name),
      Relation GreaterEqual (last_of ''Message'') (first_of ''Message''),
      Relation Equal (size_of ''Message'')
        (Ass Add [MathBin Sub (last_of ''Message'') (first_of ''Message''), Number 1 0])]"

definition link_size_constraints :: "msg \<Rightarrow> link \<Rightarrow> expr list res" where
  "link_size_constraints m l =
     bind_res (target_size_opt m l) (\<lambda>size.
     bind_res (refers_to_message_size size) (\<lambda>open_ended.
       let sizes = (case size of None \<Rightarrow> []
              | Some s \<Rightarrow> if open_ended then []
                  else [Relation Equal (size_of (target l)) s,
                        Relation Equal (last_of (target l)) (last_expr l s)]) in
       Inr (Relation Equal (first_of (target l)) (target_first l)
         # sizes @ message_end_constraints (target l))))"

definition expression_list :: "expr \<Rightarrow> expr list" where
  "expression_list e = (case e of Ass op ts \<Rightarrow> if op = And \<or> op = AndThen then ts else [e] | _ \<Rightarrow> [e])"

definition link_constraints :: "msg \<Rightarrow> link \<Rightarrow> expr list res" where
  "link_constraints m l =
     bind_res (link_size_constraints m l) (\<lambda>ss.
     bind_res (aggregate_constraints (all_types_of m) (condition l)) (\<lambda>as.
       Inr (ss @ expression_list (condition l) @ as)))"

definition path_constraints :: "msg \<Rightarrow> link list \<Rightarrow> expr list res" where
  "path_constraints m p = bind_res (map_res (link_constraints m) p) (\<lambda>css. Inr (concat css))"

section \<open>Positions relative to earlier fields\<close>

text \<open>
  \<open>link_first\<close> and \<open>field_first\<close>: the position of a field is that of an earlier field plus a distance.  The
  recursion follows the only incoming link; the fuel is larger than the number of links that can be followed
  without a cycle.
\<close>

definition affixed_name :: "field \<Rightarrow> ident" where
  "affixed_name f = ''F_'' @ f"

fun compute_first :: "nat \<Rightarrow> msg \<Rightarrow> link \<Rightarrow> (field \<times> expr) res" where
  "compute_first 0 m l = Inl OutOfFuel"
| "compute_first (Suc n) m l =
     (if source l = INITIAL then Inr (INITIAL, Number 0 0)
      else
        bind_res
          (case incoming (ms_structure m) (source l) of
             [k] \<Rightarrow> compute_first n m k
           | _ \<Rightarrow> Inr (source l, Number 0 0))
          (\<lambda>(root, dist).
             if link_first l \<noteq> UndefinedExpr then Inr (root, dist)
             else
               bind_res (field_size_opt m (source l)) (\<lambda>size.
                 case size of
                   None \<Rightarrow> Inr (source l, Attribute Size (Variable (affixed_name (source l))))
                 | Some s \<Rightarrow> bind_res (simplified (Ass Add [dist, s])) (\<lambda>d. Inr (root, d)))))"

definition first_fuel :: "msg \<Rightarrow> nat" where
  "first_fuel m = Suc (Suc (length (ms_structure m)))"

definition link_first_of :: "msg \<Rightarrow> link \<Rightarrow> (field \<times> expr) res" where
  "link_first_of m l = compute_first (first_fuel m) m l"

definition field_first :: "msg \<Rightarrow> field \<Rightarrow> (field \<times> expr) res" where
  "field_first m f =
     (case incoming (ms_structure m) f of [k] \<Rightarrow> link_first_of m k | _ \<Rightarrow> Inr (f, Number 0 0))"

end
