(* ===== verification/Message_Validate.thy ===== *)
theory Message_Validate
  imports Message_Model Expr_Check
begin

text \<open>
  The checks of a message that need no proofs (\<open>_validate\<close>, \<open>_normalize\<close> and the \<open>_verify_*\<close> methods of
  \<open>Message\<close> in \<open>rflx/model/message.py\<close>).
\<close>

section \<open>Errors\<close>

datatype message_error =
    MalformedIdentifier
  | ParameterTypeError type_error
  | AlwaysValidParameter field
  | MissingType field
  | FirstOnInitialLink
  | LiteralConflict
  | StructureError structure_error
  | VariableInExponent
  | MessageInSizeAspect
  | InvalidMessageSize
  | CyclicStructure
  | UnusedParameter field
  | LiteralUse expr
  | TypeNameUse expr
  | UndefinedVariable ident
  | ExpressionType type_error
  | EmptyMessage
  | InvalidSizeAttribute
  | InvalidFirst field
  | SizeOfFinal
  | SizeOfFixedField field
  | MissingSize field
  | UnknownChecksum ident
  | UnsupportedChecksum ident
  | UnknownChecksumField ident
  | InvalidChecksumRange ident
  | UncheckedChecksum ident
  | UndefinedChecksum ident
  | AlwaysTrue
  | MightBeAlwaysTrue
  | ConflictingConditions field
  | NotCongruent field
  | NegativeSize field
  | NegativeStart field
  | NotAligned field
  | NotMultiple field
  | DidYouMean
  | SizeNotInBytes
  | NoSatisfiableCondition field

text \<open>Warnings and hints do not keep a message from being accepted.\<close>

definition severe :: "message_error \<Rightarrow> bool" where
  "severe e = (e \<noteq> MightBeAlwaysTrue \<and> e \<noteq> DidYouMean)"

definition message_error_if :: "bool \<Rightarrow> message_error \<Rightarrow> message_error list" where
  "message_error_if b e = (if b then [e] else [])"

lemma message_error_if_Nil [simp]: "message_error_if b e = [] \<longleftrightarrow> \<not> b"
  by (simp add: message_error_if_def)

section \<open>Types, names and the initial link\<close>

definition parameters_of :: "(field \<times> type_decl) list \<Rightarrow> link list \<Rightarrow> (field \<times> type_decl) list" where
  "parameters_of ts s = filter (\<lambda>(f, t). f \<notin> structure_fields s \<union> {INITIAL, FINAL}) ts"

definition parameter_error :: "field \<times> type_decl \<Rightarrow> message_error list" where
  "parameter_error ft =
     (case snd ft of
        EnumDecl d \<Rightarrow> message_error_if (always_valid d) (AlwaysValidParameter (fst ft))
      | t \<Rightarrow> if is_scalar t then []
          else map ParameterTypeError (check_type_instance (decl_type t) [EnumerationC, AnyIntegerC]))"

definition type_errors_of :: "(field \<times> type_decl) list \<Rightarrow> link list \<Rightarrow> message_error list" where
  "type_errors_of ts s =
     concat (map parameter_error (parameters_of ts s))
     @ map MissingType (filter (\<lambda>f. f \<notin> fst ` set ts \<union> {INITIAL, FINAL}) (field_list s))"

definition initial_link_errors :: "link list \<Rightarrow> message_error list" where
  "initial_link_errors s =
     map (\<lambda>l. FirstOnInitialLink) (filter (\<lambda>l. link_first l \<noteq> UndefinedExpr) (outgoing s INITIAL))"

definition name_errors :: "(field \<times> type_decl) list \<Rightarrow> (ident \<times> enum_decl) list \<Rightarrow> message_error list" where
  "name_errors ts literals =
     message_error_if (list_ex (\<lambda>f. list_ex (\<lambda>(l, d). id_eq f l) literals) (INITIAL # FINAL # map fst ts))
       LiteralConflict"

section \<open>Aspects of links\<close>

definition is_pow :: "expr \<Rightarrow> bool" where
  "is_pow e = (case e of MathBin op l r \<Rightarrow> op = Pow | _ \<Rightarrow> False)"

definition is_variable :: "expr \<Rightarrow> bool" where
  "is_variable e = (case e of Variable i \<Rightarrow> True | _ \<Rightarrow> False)"

definition exponent :: "expr \<Rightarrow> expr" where
  "exponent e = (case e of MathBin op l r \<Rightarrow> r | _ \<Rightarrow> e)"

definition exponent_errors :: "expr \<Rightarrow> message_error list res" where
  "exponent_errors e =
     bind_res (findall is_pow e) (\<lambda>ps.
     bind_res (map_res (\<lambda>p. findall is_variable (exponent p)) ps) (\<lambda>vss.
       Inr (concat (map (\<lambda>vs. message_error_if (vs \<noteq> []) VariableInExponent) vss))))"

definition has_implicit_size :: "link \<Rightarrow> bool res" where
  "has_implicit_size l = bind_res (findall message_bound (link_size l)) (\<lambda>r. Inr (r \<noteq> []))"

definition implicit_sizes :: "link \<Rightarrow> expr list" where
  "implicit_sizes l =
     (if source l \<noteq> INITIAL then
        [Ass Add [last_of ''Message'', Neg (last_of (source l))],
         MathBin Sub (last_of ''Message'') (last_of (source l))]
      else [size_of ''Message'', MathBin Sub (last_of ''Message'') (last_of INITIAL)])"

definition implicit_size_errors :: "link list \<Rightarrow> link \<Rightarrow> message_error list res" where
  "implicit_size_errors s l =
     bind_res (has_implicit_size l) (\<lambda>b.
       if \<not> b then Inr []
       else if list_ex (\<lambda>k. target k \<noteq> FINAL) (outgoing s (target l)) then Inr [MessageInSizeAspect]
       else bind_res (mem_expr (link_size l) (implicit_sizes l)) (\<lambda>ok.
         Inr (message_error_if (\<not> ok) InvalidMessageSize)))"

definition link_aspect_errors :: "link list \<Rightarrow> message_error list res" where
  "link_aspect_errors s =
     bind_res (map_res (\<lambda>l.
       bind_res (map_res exponent_errors [condition l, link_first l, link_size l]) (\<lambda>ess.
       bind_res (implicit_size_errors s l) (\<lambda>es. Inr (concat ess @ es)))) s) (\<lambda>ess. Inr (concat ess))"

section \<open>Normalization\<close>

definition canonical_name :: "ident list \<Rightarrow> ident \<Rightarrow> ident option" where
  "canonical_name is i = find (\<lambda>j. id_eq j i) is"

definition literal_names :: "(ident \<times> enum_decl) list \<Rightarrow> (ident \<times> enum_decl) list \<Rightarrow> ident \<Rightarrow> (ident \<times> ident) list" where
  "literal_names unqualified qualified package =
     map (\<lambda>(l, d). (l, l)) qualified @ map (\<lambda>(l, d). (l, id_join package l)) unqualified"

text \<open>\<open>normalize_identifiers\<close>: variables that stand for literals or types are replaced.\<close>

definition normalize_name ::
    "ident list \<Rightarrow> (ident \<times> ident) list \<Rightarrow> ident list \<Rightarrow> expr \<Rightarrow> expr" where
  "normalize_name fs literals names e =
     (let as_type = (\<lambda>i. case canonical_name names i of Some n \<Rightarrow> TypeName n | None \<Rightarrow> e);
          as_literal = (\<lambda>i k. case id_lookup literals i of Some l \<Rightarrow> Literal l | None \<Rightarrow> k) in
      case e of
        Variable i \<Rightarrow>
          (case canonical_name fs i of Some f \<Rightarrow> Variable f | None \<Rightarrow> as_literal i (as_type i))
      | Literal i \<Rightarrow> as_literal i e
      | TypeName i \<Rightarrow> as_type i
      | _ \<Rightarrow> e)"

definition substitute_all :: "(expr \<Rightarrow> expr) \<Rightarrow> expr \<Rightarrow> expr res" where
  "substitute_all f e = substituted (Suc (weight e)) (\<lambda>x. Inr (f x)) e"

definition substitute_link :: "(expr \<Rightarrow> expr res) \<Rightarrow> link \<Rightarrow> link res" where
  "substitute_link f l =
     bind_res (f (condition l)) (\<lambda>c. bind_res (f (link_size l)) (\<lambda>s. bind_res (f (link_first l)) (\<lambda>b.
       Inr (l\<lparr>condition := c, link_size := s, link_first := b\<rparr>))))"

fun needs_size :: "type_decl \<Rightarrow> bool" where
  "needs_size (SequenceDecl i t) = True"
| "needs_size OpaqueDecl = True"
| "needs_size _ = False"

text \<open>A field at the end of the message without a size takes the rest of the message.\<close>

definition add_implicit_size :: "(field \<times> type_decl) list \<Rightarrow> link list \<Rightarrow> link \<Rightarrow> link" where
  "add_implicit_size ts s l =
     (if link_size l = UndefinedExpr
         \<and> (case id_lookup ts (target l) of Some t \<Rightarrow> needs_size t | None \<Rightarrow> False)
         \<and> list_all (\<lambda>k. target k = FINAL) (outgoing s (target l))
      then l\<lparr>link_size :=
             if source l = INITIAL then size_of ''Message''
             else MathBin Sub (last_of ''Message'') (last_of (source l))\<rparr>
      else l)"

definition normalize_structure ::
    "(expr \<Rightarrow> expr) \<Rightarrow> (field \<times> type_decl) list \<Rightarrow> link list \<Rightarrow> link list res" where
  "normalize_structure nf ts s =
     bind_res (map_res (substitute_link (substitute_all nf)) s) (\<lambda>s'. Inr (map (add_implicit_size ts s) s'))"

section \<open>Types of expressions\<close>

text \<open>
  \<open>typed_expression\<close> sets the types of variables, literals and type names; here it raises the exceptions that it
  raises, and the types are those of \<open>message_types_of\<close>.
\<close>

definition typed_expression :: "(ident \<times> enum_decl) list \<Rightarrow> (ident \<times> type_decl) list \<Rightarrow> expr \<Rightarrow> expr res" where
  "typed_expression literals names e =
     (case e of
        Variable i \<Rightarrow> assert_res (id_lookup literals i = None \<and> id_lookup names i = None) (Inr e)
      | TypeName i \<Rightarrow> (if id_lookup names i = None then Inl (KeyError i) else Inr e)
      | _ \<Rightarrow> Inr e)"

definition set_types :: "(ident \<times> enum_decl) list \<Rightarrow> (ident \<times> type_decl) list \<Rightarrow> link \<Rightarrow> link res" where
  "set_types literals names =
     substitute_link (\<lambda>e. substituted (Suc (weight e)) (typed_expression literals names) e)"

definition message_variable_type :: "(field \<times> type_decl) list \<Rightarrow> ident \<Rightarrow> ty" where
  "message_variable_type ts i =
     (if id_eq i ''Message'' then OPAQUE
      else case id_lookup ts i of None \<Rightarrow> Undefined | Some t \<Rightarrow> decl_type t)"

definition message_literal_type :: "(ident \<times> enum_decl) list \<Rightarrow> ident \<Rightarrow> ty" where
  "message_literal_type literals i =
     (case id_lookup literals i of
        Some d \<Rightarrow> enumeration_type d
      | None \<Rightarrow> if id_eq i ''True'' \<or> id_eq i ''False'' then BOOLEAN else Undefined)"

definition message_tenv :: "(ident \<times> enum_decl) list \<Rightarrow> (ident \<times> type_decl) list \<Rightarrow> (field \<times> type_decl) list \<Rightarrow> tenv" where
  "message_tenv literals names ts =
     \<lparr>te_variable = message_variable_type ts,
      te_literal = message_literal_type literals,
      te_type_name = (\<lambda>i. case id_lookup names i of None \<Rightarrow> Undefined | Some t \<Rightarrow> decl_type t),
      te_call = (\<lambda>i. (Undefined, [])), te_conversion = (\<lambda>i. (Undefined, [])), te_aggregate = (\<lambda>i. Undefined),
      te_delta = (\<lambda>i. Undefined), te_combinations = (\<lambda>i. []), te_refinements = (\<lambda>i. []), te_literals = (\<lambda>i. [])\<rparr>"

end
