(* ===== verification/Message_Verify.thy ===== *)
theory Message_Verify
  imports Message_Validate
begin

text \<open>
  The verification of messages (\<open>_verify\<close> and the methods it calls in \<open>rflx/model/message.py\<close>): the checks
  of names, types and aspects, the determination of valid paths and the proof goals.
\<close>

section \<open>Paths\<close>

definition path_fuel :: "msg \<Rightarrow> nat" where
  "path_fuel m = Suc (Suc (length (ms_structure m)))"

definition msg_paths :: "msg \<Rightarrow> field \<Rightarrow> link list list res" where
  "msg_paths m f = paths (path_fuel m) (ms_structure m) f"

definition msg_path_condition :: "msg \<Rightarrow> field \<Rightarrow> expr res" where
  "msg_path_condition m f = path_condition (path_fuel m) (ms_structure m) f"

definition msg_typing :: "msg \<Rightarrow> ident \<Rightarrow> ty" where
  "msg_typing m = message_variable_type (all_types_of m)"

definition link_expressions :: "link \<Rightarrow> expr list" where
  "link_expressions l = [condition l, link_size l, link_first l]"

definition expressions_of :: "msg \<Rightarrow> expr list" where
  "expressions_of m = concat (map link_expressions (ms_structure m))"

section \<open>Names\<close>

definition variable_name :: "expr \<Rightarrow> ident" where
  "variable_name e = (case e of Variable i \<Rightarrow> i | _ \<Rightarrow> [])"

definition verify_parameters :: "msg \<Rightarrow> message_error list res" where
  "verify_parameters m =
     bind_res (map_res (findall is_variable) (expressions_of m)) (\<lambda>vss.
       Inr (map (\<lambda>(p, t). UnusedParameter p)
         (filter (\<lambda>(p, t). \<not> list_ex (\<lambda>v. id_eq p (variable_name v)) (concat vss)) (ms_parameters m))))"

definition is_ass :: "expr \<Rightarrow> bool" where
  "is_ass e = (case e of Ass op ts \<Rightarrow> True | _ \<Rightarrow> False)"

definition is_literal_expr :: "expr \<Rightarrow> bool" where
  "is_literal_expr e = (case e of Literal i \<Rightarrow> True | _ \<Rightarrow> False)"

definition literal_uses :: "expr \<Rightarrow> expr list res" where
  "literal_uses e =
     bind_res (findall is_ass e) (\<lambda>as.
       Inr ((if is_literal_expr e \<and> \<not> is_TRUE e then [e] else [])
         @ filter (\<lambda>t. is_literal_expr t \<and> \<not> is_TRUE t \<and> \<not> is_FALSE t) (concat (map ass_terms as))))"

definition verify_use_of_literals :: "msg \<Rightarrow> message_error list res" where
  "verify_use_of_literals m =
     bind_res (map_res literal_uses (expressions_of m)) (\<lambda>ess. Inr (map LiteralUse (concat ess)))"

definition is_type_name :: "expr \<Rightarrow> bool" where
  "is_type_name e = (case e of TypeName i \<Rightarrow> True | _ \<Rightarrow> False)"

definition is_relation :: "expr \<Rightarrow> bool" where
  "is_relation e = (case e of Relation op l r \<Rightarrow> True | _ \<Rightarrow> False)"

definition operands :: "expr \<Rightarrow> expr list" where
  "operands e = (case e of Relation op l r \<Rightarrow> [l, r] | _ \<Rightarrow> [])"

definition type_name_uses :: "expr \<Rightarrow> expr list res" where
  "type_name_uses e =
     bind_res (findall is_ass e) (\<lambda>as. bind_res (findall is_relation e) (\<lambda>rs.
       Inr (filter is_type_name (e # concat (map ass_terms as) @ concat (map operands rs)))))"

definition verify_use_of_type_names :: "msg \<Rightarrow> message_error list res" where
  "verify_use_of_type_names m =
     bind_res (map_res type_name_uses (expressions_of m)) (\<lambda>ess. Inr (map TypeNameUse (concat ess)))"

definition verify_message_types :: "msg \<Rightarrow> message_error list res" where
  "verify_message_types m =
     bind_res (map_res variables (filter (\<lambda>e. e \<noteq> UndefinedExpr) (expressions_of m))) (\<lambda>iss.
       Inr (map UndefinedVariable (filter (\<lambda>i. msg_typing m i = Undefined) (concat iss))))"

section \<open>Aspects of links\<close>

definition invalid_size_attribute :: "msg \<Rightarrow> expr \<Rightarrow> bool" where
  "invalid_size_attribute m e =
     (case e of
        Attribute Size p \<Rightarrow>
          \<not> (case p of
               Variable i \<Rightarrow> i = ''Message'' \<or> id_lookup (ms_fields m) i \<noteq> None
             | TypeName i \<Rightarrow> id_lookup (ms_type_names m) i \<noteq> None
             | _ \<Rightarrow> False)
      | _ \<Rightarrow> False)"

definition verify_attributes :: "msg \<Rightarrow> expr \<Rightarrow> message_error list res" where
  "verify_attributes m e =
     bind_res (findall is_attribute e) (\<lambda>as.
       Inr (map (\<lambda>a. InvalidSizeAttribute) (filter (invalid_size_attribute m) as)))"

definition verify_link_first :: "link \<Rightarrow> message_error list res" where
  "verify_link_first l =
     bind_res (mem_expr (link_first l) [UndefinedExpr, first_of (source l)]) (\<lambda>ok.
       Inr (message_error_if (\<not> ok) (InvalidFirst (target l))))"

definition verify_link_size :: "msg \<Rightarrow> link \<Rightarrow> message_error list res" where
  "verify_link_size m l =
     (if target l = FINAL then Inr (message_error_if (link_size l \<noteq> UndefinedExpr) SizeOfFinal)
      else
        case id_lookup (all_types_of m) (target l) of
          None \<Rightarrow> Inr []
        | Some t \<Rightarrow>
            if needs_size t then Inr (message_error_if (link_size l = UndefinedExpr) (MissingSize (target l)))
            else if link_size l \<noteq> UndefinedExpr
            then assert_res (is_scalar t) (Inr [SizeOfFixedField (target l)])
            else Inr [])"

definition verify_link :: "msg \<Rightarrow> link \<Rightarrow> message_error list res" where
  "verify_link m l =
     bind_res (verify_attributes m (condition l)) (\<lambda>as.
     bind_res (verify_link_first l) (\<lambda>fs.
     bind_res (verify_link_size m l) (\<lambda>ss.
       Inr (message_error_if (source l = INITIAL \<and> target l = FINAL) EmptyMessage @ as @ fs @ ss))))"

section \<open>Valid paths and the types of expressions\<close>

definition determine_valid_paths :: "solver \<Rightarrow> msg \<Rightarrow> link list list res" where
  "determine_valid_paths solve m =
     bind_res (map_res (msg_paths m) (field_names m @ [FINAL])) (\<lambda>pss.
     bind_res (map_res (\<lambda>p. bind_res (path_constraints m p) (\<lambda>cs. Inr (p, cs @ message_constraints m))) (concat pss))
       (\<lambda>pcs.
     bind_res (map_res (\<lambda>(p, cs). bind_res (prove solve (msg_typing m) TRUE cs) (\<lambda>r. Inr (p, r))) pcs) (\<lambda>prs.
       Inr (map fst (filter (\<lambda>(p, r). r = SAT) prs)))))"

text \<open>
  Along a path the conditions are checked with the types of the parameters and of the fields that precede
  them.
\<close>

definition checked_against :: "tenv \<Rightarrow> ty \<Rightarrow> expr \<Rightarrow> message_error list res" where
  "checked_against te t e = bind_res (check_expr te [t] e) (\<lambda>es. Inr (map ExpressionType es))"

definition check_link_types :: "tenv \<Rightarrow> link \<Rightarrow> message_error list res" where
  "check_link_types te l =
     bind_res (checked_against te BOOLEAN (condition l)) (\<lambda>cs.
     bind_res
       (map_res (\<lambda>e. if e = UndefinedExpr then Inr [] else checked_against te BASE_INTEGER e) [link_size l, link_first l])
       (\<lambda>ess. Inr (cs @ concat ess)))"

primrec check_path_types ::
    "msg \<Rightarrow> (field \<times> type_decl) list \<Rightarrow> link list \<Rightarrow> message_error list res" where
  "check_path_types m ts [] = Inr []"
| "check_path_types m ts (l # p) =
     (let ts' = (case id_lookup (all_types_of m) (source l) of Some t \<Rightarrow> ts @ [(source l, t)] | None \<Rightarrow> ts) in
      bind_res (check_link_types (message_tenv (ms_literals m) (ms_type_names m) ts') l) (\<lambda>es.
      bind_res (check_path_types m ts' p) (\<lambda>es'. Inr (es @ es'))))"

definition verify_expression_types :: "msg \<Rightarrow> link list list \<Rightarrow> message_error list res" where
  "verify_expression_types m valid =
     bind_res (msg_paths m FINAL) (\<lambda>ps.
     bind_res (map_res (check_path_types m (ms_parameters m)) (filter (\<lambda>p. p \<in> set valid) ps)) (\<lambda>ess.
       Inr (concat ess)))"

section \<open>Checksums\<close>

definition valid_lower :: "expr \<Rightarrow> bool" where
  "valid_lower e =
     (case e of
        Attribute First p \<Rightarrow> True
      | Ass Add [Attribute Last p, Number n b] \<Rightarrow> n = 1
      | _ \<Rightarrow> False)"

definition valid_upper :: "expr \<Rightarrow> bool" where
  "valid_upper e =
     (case e of
        Attribute Last p \<Rightarrow> True
      | MathBin Sub (Attribute First p) (Number n b) \<Rightarrow> n = 1
      | _ \<Rightarrow> False)"

definition supported_checksum :: "expr \<Rightarrow> bool" where
  "supported_checksum e =
     (case e of
        Variable i \<Rightarrow> True
      | Attribute Size p \<Rightarrow> True
      | ValueRange l u \<Rightarrow> valid_lower l \<and> valid_upper u
      | _ \<Rightarrow> False)"

definition range_end :: "field \<Rightarrow> ident \<Rightarrow> field" where
  "range_end f i = (if id_eq i ''message'' then f else i)"

definition checksum_range_errors :: "msg \<Rightarrow> ident \<Rightarrow> expr \<Rightarrow> message_error list res" where
  "checksum_range_errors m name e =
     (case e of
        ValueRange l u \<Rightarrow>
          bind_res (findall is_variable l) (\<lambda>ls. bind_res (findall is_variable u) (\<lambda>us.
            case (ls, us) of
              (x # xs, y # ys) \<Rightarrow>
                (if id_eq (variable_name x) (variable_name y) then Inr []
                 else
                   bind_res (msg_paths m (range_end FINAL (variable_name y))) (\<lambda>ps.
                     Inr (map (\<lambda>p. InvalidChecksumRange name)
                       (filter (\<lambda>p. \<not> list_ex (\<lambda>k. source k = range_end INITIAL (variable_name x)) p) ps))))
            | _ \<Rightarrow> Inl IndexError))
      | _ \<Rightarrow> Inr [])"

definition checksum_expression_errors :: "msg \<Rightarrow> ident \<Rightarrow> expr \<Rightarrow> message_error list res" where
  "checksum_expression_errors m name e =
     bind_res (findall is_variable e) (\<lambda>vs.
     bind_res (checksum_range_errors m name e) (\<lambda>rs.
       Inr (message_error_if (\<not> supported_checksum e) (UnsupportedChecksum name)
         @ map (\<lambda>v. UnknownChecksumField name) (filter (\<lambda>v. id_lookup (ms_fields m) (variable_name v) = None) vs)
         @ rs)))"

definition is_valid_checksum :: "expr \<Rightarrow> bool" where
  "is_valid_checksum e = (case e of Attribute ValidChecksum p \<Rightarrow> True | _ \<Rightarrow> False)"

definition checked_checksum :: "expr \<Rightarrow> ident list" where
  "checked_checksum e = (case e of Attribute a (Variable i) \<Rightarrow> [i] | _ \<Rightarrow> [])"

definition id_member :: "ident \<Rightarrow> ident list \<Rightarrow> bool" where
  "id_member i is = list_ex (id_eq i) is"

definition verify_checksums :: "msg \<Rightarrow> message_error list res" where
  "verify_checksums m =
     bind_res (map_res (\<lambda>(name, es).
       bind_res (map_res (checksum_expression_errors m name) es) (\<lambda>ess.
         Inr (message_error_if (id_lookup (ms_fields m) name = None) (UnknownChecksum name) @ concat ess)))
       (ms_checksums m)) (\<lambda>ess.
     bind_res (msg_path_condition m FINAL) (\<lambda>c.
     bind_res (findall is_valid_checksum c) (\<lambda>vs.
       let checked = concat (map checked_checksum vs); defined = map fst (ms_checksums m) in
       Inr (concat ess
         @ map UncheckedChecksum (filter (\<lambda>n. \<not> id_member n checked) defined)
         @ map UndefinedChecksum (filter (\<lambda>n. \<not> id_member n defined) checked)))))"

end
