(* ===== verification/Message_Proofs.thy ===== *)
theory Message_Proofs
  imports Message_Verify
begin

text \<open>
  The proofs about messages (the \<open>_prove_*\<close> methods of \<open>Message\<close> in \<open>rflx/model/message.py\<close>) and the
  construction of a message as a whole, with what the proofs guarantee: a message that was accepted can be
  parsed in one way only, its fields have no negative sizes, and it consists of whole bytes.
\<close>

section \<open>Proof goals\<close>

type_synonym message_job = "message_error proof_job"

text \<open>The two forms of goals: those that must not be satisfiable and those that must be.\<close>

definition refute :: "expr \<Rightarrow> expr list \<Rightarrow> message_error list \<Rightarrow> message_job" where
  "refute goal facts errors = add_proof goal facts [] errors errors False"

definition satisfy :: "expr \<Rightarrow> expr list \<Rightarrow> message_error list \<Rightarrow> message_error list \<Rightarrow> message_job" where
  "satisfy goal facts unsat unknown = add_proof goal facts unsat unknown [] True"

definition concat_res :: "'a list res list \<Rightarrow> 'a list res" where
  "concat_res ms = bind_res (seq_res ms) (\<lambda>xss. Inr (concat xss))"

definition static_condition :: "msg \<Rightarrow> link \<Rightarrow> message_job list res" where
  "static_condition m l =
     (if is_TRUE (condition l) then Inr []
      else
        bind_res (msg_path_condition m (source l)) (\<lambda>c.
        bind_res (aggregate_constraints (all_types_of m) (condition l)) (\<lambda>as.
          let goal = Relation Equal (condition l) FALSE in
          Inr [satisfy goal (goal # c # message_constraints m @ as) [AlwaysTrue] [MightBeAlwaysTrue]])))"

definition prove_static_conditions :: "msg \<Rightarrow> message_job list res" where
  "prove_static_conditions m = concat_res (map (static_condition m) (ms_structure m))"

text \<open>All pairs of elements at different positions, in order.\<close>

fun pairs :: "'a list \<Rightarrow> ('a \<times> 'a) list" where
  "pairs [] = []"
| "pairs (x # xs) = map (Pair x) xs @ pairs xs"

definition conflict :: "link \<Rightarrow> link \<Rightarrow> expr" where
  "conflict k l = Ass And [condition k, condition l]"

definition conflicting_links :: "msg \<Rightarrow> field \<Rightarrow> link list list \<Rightarrow> link \<times> link \<Rightarrow> message_job list res" where
  "conflicting_links m f ps kl =
     concat_res (map (\<lambda>p.
       bind_res (aggregate_constraints (all_types_of m) (conflict (fst kl) (snd kl))) (\<lambda>as.
       bind_res (path_constraints m p) (\<lambda>cs.
         Inr [refute (conflict (fst kl) (snd kl)) (message_constraints m @ as @ cs) [ConflictingConditions f]]))) ps)"

definition prove_conflicting_conditions :: "msg \<Rightarrow> message_job list res" where
  "prove_conflicting_conditions m =
     concat_res (map (\<lambda>f.
       bind_res (msg_paths m f) (\<lambda>ps.
         concat_res (map (conflicting_links m f ps) (pairs (outgoing (ms_structure m) f))))) (INITIAL # field_names m))"

definition overlay :: "msg \<Rightarrow> field \<Rightarrow> link list \<Rightarrow> message_job list res" where
  "overlay m f p =
     (case (p, link_first (last p)) of
        (k # ks, Attribute First x) \<Rightarrow>
          bind_res (path_constraints m p) (\<lambda>cs.
          bind_res (target_last m (last p)) (\<lambda>e.
            Inr [satisfy (Relation Equal e (Attribute Last x)) cs [NotCongruent f] [NotCongruent f]]))
      | _ \<Rightarrow> Inr [])"

definition prove_overlays :: "msg \<Rightarrow> message_job list res" where
  "prove_overlays m =
     concat_res (map (\<lambda>f. bind_res (msg_paths m f) (\<lambda>ps. concat_res (map (overlay m f) ps))) (INITIAL # field_names m))"

definition opaque_position :: "msg \<Rightarrow> field \<Rightarrow> expr list \<Rightarrow> link \<Rightarrow> expr \<Rightarrow> message_job list res" where
  "opaque_position m f facts l sz =
     bind_res (simplified (Ass Add [target_first l, Number (-1) 0])) (\<lambda>offset.
       let aligned = Relation NotEqual (MathBin Mod offset (Number 8 0)) (Number 0 0);
           multiple = NotE (Relation Equal (MathBin Mod sz (Number 8 0)) (Number 0 0)) in
       bind_res (aggregate_constraints (all_types_of m) aligned) (\<lambda>as.
       bind_res (aggregate_constraints (all_types_of m) multiple) (\<lambda>bs.
         Inr [refute aligned (facts @ message_constraints m @ as) [NotAligned f],
              refute multiple (facts @ message_constraints m @ bs) [NotMultiple f, DidYouMean]])))"

definition position_facts :: "msg \<Rightarrow> link list \<Rightarrow> expr \<Rightarrow> expr list res" where
  "position_facts m p sz =
     bind_res (path_constraints m p) (\<lambda>cs.
     bind_res (aggregate_constraints (all_types_of m) (Relation Less sz (Number 0 0))) (\<lambda>as.
     bind_res (aggregate_constraints (all_types_of m)
         (Relation GreaterEqual (target_first (last p)) (first_of ''Message''))) (\<lambda>bs.
       Inr (cs @ message_constraints m @ as @ bs))))"

definition field_position :: "msg \<Rightarrow> field \<Rightarrow> link list \<Rightarrow> message_job list res" where
  "field_position m f p =
     (let l = last p in
      bind_res (target_size m l) (\<lambda>sz.
      bind_res (position_facts m p sz) (\<lambda>facts.
      bind_res
        (if id_lookup (all_types_of m) f = Some OpaqueDecl then opaque_position m f facts l sz else Inr [])
        (\<lambda>os.
          Inr (refute (Relation Less sz (Number 0 0)) facts [NegativeSize f]
            # satisfy (Relation GreaterEqual (target_first l) (first_of ''Message'')) facts [NegativeStart f] [NegativeStart f]
            # os)))))"

definition prove_field_positions :: "msg \<Rightarrow> link list list \<Rightarrow> message_job list res" where
  "prove_field_positions m valid =
     concat_res (map (\<lambda>f.
       bind_res (msg_paths m f) (\<lambda>ps. concat_res (map (field_position m f) (filter (\<lambda>p. p \<in> set valid) ps))))
       (field_names m @ [FINAL]))"

definition sum_of_sizes :: "link list \<Rightarrow> expr" where
  "sum_of_sizes p =
     Ass Add (map (\<lambda>l. size_of (target l)) (filter (\<lambda>l. target l \<noteq> FINAL \<and> link_first l = UndefinedExpr) p))"

definition byte_sized_fields :: "msg \<Rightarrow> expr list" where
  "byte_sized_fields m =
     map (\<lambda>(f, t). eq_number (MathBin Mod (size_of f) (Number 8 0)) 0)
       (filter (\<lambda>(f, t). needs_size t) (all_types_of m))"

definition message_size_goal :: "msg \<Rightarrow> link list \<Rightarrow> message_job list res" where
  "message_size_goal m p =
     bind_res (path_constraints m p) (\<lambda>cs.
       Inr [refute (Relation NotEqual (MathBin Mod (sum_of_sizes p) (Number 8 0)) (Number 0 0))
              (cs @ message_constraints m @ byte_sized_fields m) [SizeNotInBytes]])"

definition prove_message_size :: "msg \<Rightarrow> message_job list res" where
  "prove_message_size m =
     bind_res (msg_paths m FINAL) (\<lambda>ps.
       concat_res (map (message_size_goal m) (map butlast (filter (\<lambda>p. p \<noteq> []) ps))))"

section \<open>Conditions at outgoing links\<close>

definition proper_prefix :: "'a list \<Rightarrow> 'a list \<Rightarrow> bool" where
  "proper_prefix p q = (length p < length q \<and> take (length p) q = p)"

text \<open>
  The loop over the paths to a field stops at a path that goes on with a valid one; otherwise the paths that
  were tried, and are not continued, are reported.
\<close>

primrec dead_ends ::
    "solver \<Rightarrow> msg \<Rightarrow> link list list \<Rightarrow> link list list \<Rightarrow> link list list \<Rightarrow> (link list list \<times> bool) res" where
  "dead_ends solve m valid unreachable [] = Inr ([], True)"
| "dead_ends solve m valid unreachable (p # ps) =
     (if list_ex (\<lambda>q. proper_prefix q p) unreachable then dead_ends solve m valid unreachable ps
      else if list_ex (proper_prefix p) valid then Inr ([], False)
      else
        bind_res (path_constraints m p) (\<lambda>cs.
          let out = outgoing (ms_structure m) (target (last p));
              goal = (if out = [] then TRUE else Ass Or (map condition out)) in
          bind_res (aggregate_constraints (all_types_of m) goal) (\<lambda>as.
          bind_res (prove solve (msg_typing m) goal (cs @ as @ message_constraints m)) (\<lambda>r.
          assert_res (r \<noteq> SAT)
            (bind_res (dead_ends solve m valid (p # unreachable) ps) (\<lambda>(qs, all). Inr (p # qs, all)))))))"

primrec outgoing_errors ::
    "solver \<Rightarrow> msg \<Rightarrow> link list list \<Rightarrow> link list list \<Rightarrow> field list \<Rightarrow> message_error list res" where
  "outgoing_errors solve m valid unreachable [] = Inr []"
| "outgoing_errors solve m valid unreachable (f # fs) =
     bind_res (msg_paths m f) (\<lambda>ps.
     bind_res (dead_ends solve m valid unreachable ps) (\<lambda>(qs, all).
     bind_res (outgoing_errors solve m valid (qs @ unreachable) fs) (\<lambda>es.
       Inr ((if all then map (\<lambda>q. NoSatisfiableCondition f) qs else []) @ es))))"

section \<open>Verification\<close>

text \<open>The outcome is a list of errors, some of them severe, unless an exception was raised.\<close>

type_synonym 'a verdict = "(message_error list + 'a) res"

definition stage :: "message_error list res \<Rightarrow> 'a verdict \<Rightarrow> 'a verdict" where
  "stage m k = bind_res m (\<lambda>es. if list_ex severe es then Inr (Inl es) else k)"

lemma stage_accepted: "stage m k = Inr (Inr x) \<longleftrightarrow> (\<exists>es. m = Inr es \<and> \<not> list_ex severe es \<and> k = Inr (Inr x))"
  by (auto simp: stage_def bind_res_eq_Inr split: if_splits)

definition name_and_link_errors :: "msg \<Rightarrow> message_error list res" where
  "name_and_link_errors m =
     concat_res ([verify_parameters m, verify_use_of_literals m, verify_use_of_type_names m, verify_message_types m]
       @ map (verify_link m) (ms_structure m))"

definition proof_jobs :: "msg \<Rightarrow> link list list \<Rightarrow> message_job list res" where
  "proof_jobs m valid =
     concat_res [prove_static_conditions m, prove_conflicting_conditions m, prove_overlays m,
       prove_field_positions m valid, prove_message_size m]"

definition proof_errors :: "solver \<Rightarrow> msg \<Rightarrow> link list list \<Rightarrow> message_error list res" where
  "proof_errors solve m valid =
     bind_res (proof_jobs m valid) (\<lambda>js.
     bind_res (check_proofs solve (msg_typing m) js) (\<lambda>es.
     bind_res (outgoing_errors solve m valid [] (field_names m)) (\<lambda>os.
       Inr (es @ os))))"

definition verify_message :: "solver \<Rightarrow> msg \<Rightarrow> msg verdict" where
  "verify_message solve m =
     stage (name_and_link_errors m)
       (bind_res (determine_valid_paths solve m) (\<lambda>valid.
          stage (concat_res [verify_expression_types m valid, verify_checksums m])
            (stage (proof_errors solve m valid) (Inr (Inr m)))))"

section \<open>The construction of a message\<close>

text \<open>
  The constructor, for a sorted structure in which fields are spelled as in the table of their types.  A message
  without links is the null message.
\<close>

definition byte_orders ::
    "byte_order option + (field \<times> byte_order) list \<Rightarrow> bool \<Rightarrow> field list \<Rightarrow> (field \<times> byte_order) list res" where
  "byte_orders bo unreachable fs =
     (case bo of
        Inl None \<Rightarrow> Inr (map (\<lambda>f. (f, HIGH_ORDER_FIRST)) fs)
      | Inl (Some b) \<Rightarrow> Inr (map (\<lambda>f. (f, b)) fs)
      | Inr d \<Rightarrow>
          if d = [] then Inr (map (\<lambda>f. (f, HIGH_ORDER_FIRST)) fs)
          else assert_res (set fs \<subseteq> fst ` set d \<and> (unreachable \<or> fst ` set d \<subseteq> set fs)) (Inr d))"

text \<open>
  A message with the only link from the initial to the final field is taken for a null message, whatever types
  are given; a dictionary of byte orders is then compared with an attribute that has not been set.
\<close>

definition null_message ::
    "ident \<Rightarrow> (field \<times> type_decl) list \<Rightarrow> (ident \<times> expr list) list
     \<Rightarrow> byte_order option + (field \<times> byte_order) list \<Rightarrow> msg verdict" where
  "null_message i ts cks bo =
     (case bo of
        Inr (b # bs) \<Rightarrow> Inl AttributeError
      | _ \<Rightarrow>
          Inr (Inr \<lparr>ms_identifier = i, ms_structure = [plain_link INITIAL FINAL], ms_parameters = [], ms_fields = [],
            ms_checksums = cks, ms_byte_order = [], ms_literals = qualified_literals (type_dependencies ts),
            ms_type_names = qualified_type_names (type_dependencies ts)\<rparr>))"

definition split_types ::
    "field list \<Rightarrow> (field \<times> type_decl) list \<Rightarrow> ((field \<times> type_decl) list \<times> (field \<times> type_decl) list) res" where
  "split_types fs ts =
     bind_res (map_res (\<lambda>f. case map_of ts f of None \<Rightarrow> Inl (KeyError f) | Some t \<Rightarrow> Inr (f, t)) fs) (\<lambda>fts.
       Inr (filter (\<lambda>(f, t). f \<notin> set fs) ts, fts))"

text \<open>What becomes of the arguments once the types, names and the initial link are in order.\<close>

definition assemble_message ::
    "ident \<Rightarrow> link list \<Rightarrow> (field \<times> type_decl) list \<Rightarrow> (ident \<times> expr list) list
     \<Rightarrow> byte_order option + (field \<times> byte_order) list \<Rightarrow> (message_error list \<times> msg) res" where
  "assemble_message i s ts cks bo =
     (let ds = type_dependencies ts; literals = qualified_literals ds; names = qualified_type_names ds;
          unqualified = unqualified_literals ds (package_of i);
          nf = normalize_name (map fst ts) (literal_names unqualified literals (package_of i)) (map fst names) in
      bind_res (validate_structure s) (\<lambda>(unreachable, ses).
      bind_res (link_aspect_errors s) (\<lambda>les.
      bind_res (normalize_structure nf ts s) (\<lambda>s'.
      bind_res (map_res (\<lambda>(n, es). bind_res (map_res (substitute_all nf) es) (\<lambda>es'. Inr (n, es'))) cks) (\<lambda>cks'.
      bind_res (compute_topological_sorting unreachable s') (\<lambda>(cycles, fs).
      bind_res (split_types (case fs of None \<Rightarrow> [] | Some fs \<Rightarrow> fs) ts) (\<lambda>(ps, fts).
      bind_res (map_res (set_types literals names) s') (\<lambda>s''.
      bind_res (byte_orders bo unreachable (map fst fts)) (\<lambda>bos.
        Inr (map StructureError ses @ les @ map (\<lambda>c. CyclicStructure) cycles,
             \<lparr>ms_identifier = i, ms_structure = s'', ms_parameters = (if fs = None then [] else ps), ms_fields = fts,
              ms_checksums = cks', ms_byte_order = bos, ms_literals = literals, ms_type_names = names\<rparr>))))))))))"

definition make_message ::
    "solver \<Rightarrow> bool \<Rightarrow> ident \<Rightarrow> link list \<Rightarrow> (field \<times> type_decl) list \<Rightarrow> (ident \<times> expr list) list
     \<Rightarrow> byte_order option + (field \<times> byte_order) list \<Rightarrow> msg verdict" where
  "make_message solve skip_verification i s ts cks bo =
     assert_res (s = [] \<longrightarrow> ts = [])
       (stage (Inr (if check_identifier i = [] then [] else [MalformedIdentifier]))
         (if s = [] \<or> s = [plain_link INITIAL FINAL] then null_message i ts cks bo
          else
            stage
              (Inr (type_errors_of ts s @ initial_link_errors s
                 @ name_errors ts (unqualified_literals (type_dependencies ts) (package_of i))))
              (bind_res (assemble_message i s ts cks bo) (\<lambda>(es, m).
                 stage (Inr es) (if skip_verification then Inr (Inr m) else verify_message solve m)))))"

end
