(* ===== verification/Candidate_Solver.thy ===== *)
theory Candidate_Solver
  imports Expr_Proof
begin

text \<open>
  A small solver that meets the specification of \<open>Expr_Proof\<close>: it tries given interpretations and refutes
  assertions by propagating equations between names and numbers.  It serves to apply the theorems on proofs to
  concrete messages.
\<close>

fun flatten :: "zterm \<Rightarrow> zterm list" where
  "flatten (ZAnd ts) = concat (map flatten ts)"
| "flatten t = [t]"

fun equation :: "zterm \<Rightarrow> (string \<times> int) list" where
  "equation (ZRel Equal (IntConst s) (ZInt n)) = [(s, n)]"
| "equation t = []"

fun known_int :: "(string \<times> int) list \<Rightarrow> zterm \<Rightarrow> int option" where
  "known_int env (ZInt n) = Some n"
| "known_int env (IntConst s) = map_of env s"
| "known_int env (ZSum ts) =
     fold (\<lambda>t a. case (a, known_int env t) of (Some m, Some n) \<Rightarrow> Some (m + n) | _ \<Rightarrow> None) ts (Some 0)"
| "known_int env (ZSub a b) =
     (case (known_int env a, known_int env b) of (Some m, Some n) \<Rightarrow> Some (m - n) | _ \<Rightarrow> None)"
| "known_int env (ZMod a b) =
     (case (known_int env a, known_int env b) of
        (Some m, Some n) \<Rightarrow> if n = 0 then None else Some (m mod \<bar>n\<bar>)
      | _ \<Rightarrow> None)"
| "known_int env t = None"

text \<open>The truth of a term as far as it can be decided with the known numbers.\<close>

fun known_truth :: "(string \<times> int) list \<Rightarrow> zterm \<Rightarrow> bool option" where
  "known_truth env (ZBool b) = Some b"
| "known_truth env (ZNot t) = map_option Not (known_truth env t)"
| "known_truth env (ZAnd ts) =
     (if list_all (\<lambda>t. known_truth env t = Some True) ts then Some True
      else if list_ex (\<lambda>t. known_truth env t = Some False) ts then Some False else None)"
| "known_truth env (ZOr ts) =
     (if list_ex (\<lambda>t. known_truth env t = Some True) ts then Some True
      else if list_all (\<lambda>t. known_truth env t = Some False) ts then Some False else None)"
| "known_truth env (ZRel op a b) =
     (if is_bool a then
        (case (known_truth env a, known_truth env b) of
           (Some x, Some y) \<Rightarrow> Some ((x = y) = (op = Equal))
         | _ \<Rightarrow> None)
      else
        (case (known_int env a, known_int env b) of
           (Some m, Some n) \<Rightarrow> Some (compare_with op m n)
         | _ \<Rightarrow> None))"
| "known_truth env t = None"

definition refutable :: "zterm list \<Rightarrow> bool" where
  "refutable ts =
     (let us = concat (map flatten ts); env = concat (map equation us)
      in list_ex (\<lambda>t. known_truth env t = Some False) us)"

text \<open>An interpretation given by a table of numbers.\<close>

definition table_interp :: "(string \<times> int) list \<Rightarrow> interp" where
  "table_interp d =
     \<lparr>in_int = (\<lambda>s. case map_of d s of Some n \<Rightarrow> n | None \<Rightarrow> 0), in_bool = (\<lambda>s. False), in_div0 = (\<lambda>m. 0),
      in_mod0 = (\<lambda>m. 0), in_quotient0 = (\<lambda>x. 0), in_power = (\<lambda>x y. 0)\<rparr>"

definition candidate_solver :: "(string \<times> int) list list \<Rightarrow> solver" where
  "candidate_solver ds ts =
     (if list_ex (\<lambda>d. list_all (\<lambda>t. known_truth d t = Some True) ts) ds then SAT
      else if refutable ts then UNSAT else UNKNOWN)"

lemma flatten_sound: "truth (zeval I t) \<Longrightarrow> u \<in> set (flatten t) \<Longrightarrow> truth (zeval I u)"
  by (induction t rule: flatten.induct) (auto simp: list_all_iff)

lemma equation_sound: "truth (zeval I t) \<Longrightarrow> (s, n) \<in> set (equation t) \<Longrightarrow> in_int I s = n"
  by (induction t rule: equation.induct) (auto simp: is_bool_def)

lemma compare_with_of_int: "compare_with op (of_int m :: rat) (of_int n) = compare_with op m n"
  by (cases op) auto

lemma known_int_sound:
  assumes "\<And>s n. map_of env s = Some n \<Longrightarrow> in_int I s = n" "known_int env t = Some n"
  shows "num (zeval I t) = of_int n"
  using assms
proof (induction env t arbitrary: n rule: known_int.induct)
  case (3 env ts)
  have "fold (\<lambda>t a. case (a, known_int env t) of (Some m, Some n) \<Rightarrow> Some (m + n) | _ \<Rightarrow> None) us a = Some k
      \<Longrightarrow> set us \<subseteq> set ts \<Longrightarrow>
      \<exists>m. a = Some m \<and> of_int k = (of_int m :: rat) + sum_list (map (\<lambda>t. num (zeval I t)) us)" for us a k
  proof (induction us arbitrary: a)
    case (Cons u us)
    from Cons.IH Cons.prems obtain m where m: "(case (a, known_int env u) of (Some m, Some n) \<Rightarrow> Some (m + n) | _ \<Rightarrow> None) = Some m"
        "of_int k = (of_int m :: rat) + sum_list (map (\<lambda>t. num (zeval I t)) us)"
      by fastforce
    from m(1) obtain i j where "a = Some i" "known_int env u = Some j" "m = i + j"
      by (auto split: option.splits)
    then show ?case using 3(1) [of u j] 3(2) Cons.prems(2) m(2) by simp
  qed simp
  then show ?case using 3(3) by fastforce
qed (auto simp: int_remainder_def split: option.splits if_splits)

lemma known_truth_sound:
  assumes "\<And>s n. map_of env s = Some n \<Longrightarrow> in_int I s = n" "known_truth env t = Some b"
  shows "truth (zeval I t) = b"
  using assms
proof (induction env t arbitrary: b rule: known_truth.induct)
  case (2 env t)
  then show ?case by auto
next
  case (3 env ts)
  have "truth (zeval I t) = v" if "t \<in> set ts" "known_truth env t = Some v" for t v
    using 3(1) [OF that(1) 3(3)] that(2) by blast
  then show ?case using 3(4) by (simp add: list_all_iff list_ex_iff split: if_splits) blast+
next
  case (4 env ts)
  have "truth (zeval I t) = v" if "t \<in> set ts" "known_truth env t = Some v" for t v
    using 4(1) [OF that(1) 4(3)] that(2) by blast
  then show ?case using 4(4) by (simp add: list_all_iff list_ex_iff split: if_splits) blast+
next
  case (5 env op x y)
  show ?case
  proof (cases "is_bool x")
    case True
    with 5(4) obtain u v where "known_truth env x = Some u" "known_truth env y = Some v" "b = ((u = v) = (op = Equal))"
      by (auto split: option.splits)
    then show ?thesis using 5(1) [OF True 5(3)] 5(2) [OF True 5(3)] True by simp
  next
    case False
    with 5(4) obtain m n where "known_int env x = Some m" "known_int env y = Some n" "b = compare_with op m n"
      by (auto split: option.splits)
    then show ?thesis using known_int_sound [OF 5(3)] False by (simp add: compare_with_of_int)
  qed
qed simp_all

lemma refutable_sound:
  assumes "refutable ts"
  shows "\<exists>t\<in>set ts. \<not> truth (zeval I t)"
proof (rule ccontr)
  assume "\<not> ?thesis"
  then have t: "truth (zeval I u)" if "u \<in> set (concat (map flatten ts))" for u
    using that flatten_sound by auto
  define env where "env = concat (map equation (concat (map flatten ts)))"
  have env: "in_int I s = n" if "map_of env s = Some n" for s n
  proof -
    from map_of_SomeD [OF that] obtain u where "u \<in> set (concat (map flatten ts))" "(s, n) \<in> set (equation u)"
      unfolding env_def by auto
    then show ?thesis using t equation_sound by blast
  qed
  from assms obtain u where u: "u \<in> set (concat (map flatten ts))" "known_truth env u = Some False"
    by (auto simp: refutable_def env_def Let_def list_ex_iff)
  then show False using t [OF u(1)] known_truth_sound [of env I u False] env by blast
qed

lemma candidate_sat:
  assumes "list_all (\<lambda>t. known_truth d t = Some True) ts"
  shows "\<forall>t\<in>set ts. truth (zeval (table_interp d) t)"
  using assms known_truth_sound [of d "table_interp d" _ True] by (auto simp: list_all_iff table_interp_def)

lemma candidate_solver_sound: "sound_solver (candidate_solver ds)"
  unfolding sound_solver_def candidate_solver_def
  by (auto simp: list_ex_iff split: if_splits dest: candidate_sat refutable_sound)

section \<open>A maximizer for small messages\<close>

text \<open>
  It finds the value of a name that equations determine, and confirms with one of the given interpretations that
  the assertions have a model.
\<close>

definition determined :: "zterm list \<Rightarrow> zterm \<Rightarrow> int option" where
  "determined ts t =
     (let us = concat (map flatten ts); env = concat (map equation us);
          vs = List.map_filter (\<lambda>u. case u of
                 ZRel op a b \<Rightarrow> if op = Equal \<and> a = t \<and> \<not> is_bool a then known_int env b else None
               | _ \<Rightarrow> None) us in
      (case vs of v # _ \<Rightarrow> Some v | [] \<Rightarrow> None))"

definition candidate_maximizer :: "(string \<times> int) list list \<Rightarrow> maximizer" where
  "candidate_maximizer ds ts t =
     (if list_ex (\<lambda>d. list_all (\<lambda>t. known_truth d t = Some True) ts) ds then determined ts t else None)"

lemma map_filter_first: "List.map_filter f xs = y # ys \<Longrightarrow> \<exists>x\<in>set xs. f x = Some y"
  by (induction xs) (auto simp: map_filter_simps split: option.splits)

lemma equations_known:
  assumes "\<forall>t\<in>set ts. truth (zeval I t)" "map_of (concat (map equation (concat (map flatten ts)))) s = Some n"
  shows "in_int I s = n"
proof -
  from map_of_SomeD [OF assms(2)] obtain t u where "t \<in> set ts" "u \<in> set (flatten t)" "(s, n) \<in> set (equation u)"
    by auto
  then show ?thesis using assms(1) flatten_sound equation_sound by blast
qed

lemma determined_sound:
  assumes "\<forall>t\<in>set ts. truth (zeval I t)" "determined ts t = Some n"
  shows "num (zeval I t) = of_int n"
proof -
  let ?us = "concat (map flatten ts)"
  obtain u where "u \<in> set ?us"
      "(case u of ZRel op a b \<Rightarrow>
          if op = Equal \<and> a = t \<and> \<not> is_bool a then known_int (concat (map equation ?us)) b else None
        | _ \<Rightarrow> None) = Some n"
    using assms(2) unfolding determined_def Let_def by (auto split: list.splits dest!: map_filter_first)
  then obtain b where b: "ZRel Equal t b \<in> set ?us" "\<not> is_bool t" "known_int (concat (map equation ?us)) b = Some n"
    by (auto split: zterm.splits if_splits)
  then obtain x where "x \<in> set ts" "ZRel Equal t b \<in> set (flatten x)" by auto
  with assms(1) have "truth (zeval I (ZRel Equal t b))" by (blast intro: flatten_sound)
  moreover have "num (zeval I b) = of_int n"
    by (rule known_int_sound [OF _ b(3)]) (rule equations_known [OF assms(1)])
  ultimately show ?thesis using b(2) by simp
qed

lemma candidate_maximizer_sound: "sound_maximizer (candidate_maximizer ds)"
proof -
  have "(\<exists>I. (\<forall>u\<in>set ts. truth (zeval I u)) \<and> num (zeval I t) = of_int n)
      \<and> (\<forall>I. (\<forall>u\<in>set ts. truth (zeval I u)) \<longrightarrow> num (zeval I t) \<le> of_int n)"
    if "candidate_maximizer ds ts t = Some n" for ts t n
  proof -
    from that obtain d where d: "list_all (\<lambda>t. known_truth d t = Some True) ts" "determined ts t = Some n"
      by (auto simp: candidate_maximizer_def list_ex_iff split: if_splits)
    show ?thesis using candidate_sat [OF d(1)] determined_sound [OF _ d(2)] by auto
  qed
  then show ?thesis by (simp add: sound_maximizer_def)
qed

end
