(* ===== verification/Message_Guarantees.thy ===== *)
theory Message_Guarantees
  imports Message_Proofs Candidate_Solver
begin

text \<open>
  What the proofs about messages guarantee.  A message that was accepted with a correct solver can be continued
  in at most one way after every path, its fields have no negative sizes on valid paths, and its size is a number
  of whole bytes.
\<close>

section \<open>Jobs without errors\<close>

lemma concat_res_mem:
  assumes "concat_res ms = Inr xs" "M \<in> set ms"
  shows "\<exists>ys. M = Inr ys \<and> set ys \<subseteq> set xs"
  using assms(1) seq_res_Inr_iff [of ms] assms(2)
  by (fastforce simp: concat_res_def bind_res_eq_Inr list_all2_conv_all_nth in_set_conv_nth)

lemma concat_res_map:
  "concat_res (map f xs) = Inr ys \<Longrightarrow> x \<in> set xs \<Longrightarrow> \<exists>zs. f x = Inr zs \<and> set zs \<subseteq> set ys"
  by (rule concat_res_mem) auto

lemma map_res_mem: "map_res f xs = Inr ys \<Longrightarrow> x \<in> set xs \<Longrightarrow> \<exists>y\<in>set ys. f x = Inr y"
  by (induction xs arbitrary: ys) (auto simp: bind_res_eq_Inr)

lemma checked_job:
  assumes "check_proofs solve vt js = Inr es" "\<not> list_ex severe es" "j \<in> set js"
  shows "\<exists>r. prove solve vt (job_goal j) (job_facts j) = Inr r \<and> \<not> list_ex severe (job_result j r)"
proof -
  from assms(1) obtain rs where rs: "map_res (check_proof solve vt) js = Inr rs" "es = concat (map fst rs)"
    by (auto simp: check_proofs_def bind_res_eq_Inr assert_res_def split: if_splits)
  with assms(3) obtain x where x: "x \<in> set rs" "check_proof solve vt j = Inr x"
    using map_res_mem by meson
  then obtain r where r: "prove solve vt (job_goal j) (job_facts j) = Inr r" "fst x = job_result j r"
    by (auto simp: check_proof_def bind_res_eq_Inr assert_res_def split: if_splits)
  have "set (fst x) \<subseteq> set es" using x rs(2) by auto
  then show ?thesis using r assms(2) by (auto simp: list_ex_iff)
qed

lemma refuted:
  assumes "check_proofs solve vt js = Inr es" "\<not> list_ex severe es" "refute goal facts errors \<in> set js"
    "list_ex severe errors"
  shows "prove solve vt goal facts = Inr UNSAT"
  using checked_job [OF assms(1-3)] assms(4)
  by (auto simp: refute_def add_proof_def split: proof_result.splits) (metis proof_result.exhaust)

section \<open>Accepted messages\<close>

lemma verified_jobs:
  assumes "verify_message solve m = Inr (Inr m')"
  obtains valid js es where "determine_valid_paths solve m = Inr valid" "proof_jobs m valid = Inr js"
    "check_proofs solve (msg_typing m) js = Inr es" "\<not> list_ex severe es"
  using assms that
  by (auto simp: verify_message_def stage_accepted bind_res_eq_Inr proof_errors_def)

lemma job_groups:
  assumes "proof_jobs m valid = Inr js"
  shows "\<exists>xs. prove_conflicting_conditions m = Inr xs \<and> set xs \<subseteq> set js"
    "\<exists>xs. prove_field_positions m valid = Inr xs \<and> set xs \<subseteq> set js"
    "\<exists>xs. prove_message_size m = Inr xs \<and> set xs \<subseteq> set js"
  by (rule concat_res_mem [OF assms [unfolded proof_jobs_def]]; simp)+

lemma pairs_mem: "x \<in> set xs \<Longrightarrow> y \<in> set xs \<Longrightarrow> x \<noteq> y \<Longrightarrow> (x, y) \<in> set (pairs xs) \<or> (y, x) \<in> set (pairs xs)"
  by (induction xs) auto

section \<open>At most one continuation\<close>

lemma conflict_job:
  assumes "prove_conflicting_conditions m = Inr xs" "f \<in> set (field_names m)"
    "msg_paths m f = Inr ps" "p \<in> set ps" "path_constraints m p = Inr cs"
    "(k, l) \<in> set (pairs (outgoing (ms_structure m) f))"
  shows "\<exists>as. aggregate_constraints (all_types_of m) (conflict k l) = Inr as
    \<and> refute (conflict k l) (message_constraints m @ as @ cs) [ConflictingConditions f] \<in> set xs"
proof -
  from concat_res_map [OF assms(1) [unfolded prove_conflicting_conditions_def], of f] assms(2,3)
  obtain zs where zs: "concat_res (map (conflicting_links m f ps) (pairs (outgoing (ms_structure m) f))) = Inr zs"
      "set zs \<subseteq> set xs"
    by auto
  from concat_res_map [OF zs(1) assms(6)] obtain us where us: "conflicting_links m f ps (k, l) = Inr us"
      "set us \<subseteq> set zs"
    by auto
  from concat_res_map [OF us(1) [unfolded conflicting_links_def] assms(4)] assms(5) obtain as where
    "aggregate_constraints (all_types_of m) (conflict k l) = Inr as"
    "refute (conflict k l) (message_constraints m @ as @ cs) [ConflictingConditions f] \<in> set us"
    by (auto simp: bind_res_eq_Inr)
  then show ?thesis using us(2) zs(2) by blast
qed

lemma aggregate_constraints_conflict:
  assumes "aggregate_constraints ts (conflict k l) = Inr as"
  obtains bs ds where "aggregate_constraints ts (condition k) = Inr bs" "aggregate_constraints ts (condition l) = Inr ds"
    "as = bs @ ds"
proof -
  from assms obtain es rs css where e: "seq_res [findall is_equation (condition k), findall is_equation (condition l)] = Inr es"
      "rs = concat es" "map_res (compared_aggregates ts) rs = Inr css" "as = concat css"
    by (auto simp: aggregate_constraints_def conflict_def bind_res_eq_Inr is_equation_def)
  from e(1) obtain x y where xy: "findall is_equation (condition k) = Inr x" "findall is_equation (condition l) = Inr y"
      "es = [x, y]"
    by (auto simp: bind_res_eq_Inr)
  with e(2,3) obtain c d where "map_res (compared_aggregates ts) x = Inr c" "map_res (compared_aggregates ts) y = Inr d"
      "css = c @ d"
    by (auto simp: map_res_Inr_iff list_all2_append1)
  with xy e(4) that show ?thesis by (auto simp: aggregate_constraints_def)
qed

text \<open>What is known when a path has been followed: the constraints of its links and of the message.\<close>

definition consistent :: "msg \<Rightarrow> interp \<Rightarrow> link list \<Rightarrow> bool" where
  "consistent m I p \<longleftrightarrow>
     (\<exists>cs. path_constraints m p = Inr cs \<and> list_all (holds (msg_typing m) I) (cs @ message_constraints m))"

text \<open>A link can be followed if its condition holds, with the sizes of the fields it compares with aggregates.\<close>

definition enabled :: "msg \<Rightarrow> interp \<Rightarrow> link \<Rightarrow> bool" where
  "enabled m I l \<longleftrightarrow>
     holds (msg_typing m) I (condition l)
     \<and> (\<exists>as. aggregate_constraints (all_types_of m) (condition l) = Inr as \<and> list_all (holds (msg_typing m) I) as)"

section \<open>Sizes\<close>

lemma holds_relation:
  assumes "assertion vt (Relation op x y) = Inr t" "op \<in> {Less, LessEqual, GreaterEqual, Greater}"
  obtains a b where "to_z3 vt x = Inr a" "to_z3 vt y = Inr b" "is_arith a" "is_arith b" "t = ZRel op a b"
  using assms by (auto simp: assertion_def bind_res_eq_Inr to_z3.simps z3_relation_def split: if_splits)

lemma prove_goal: "prove solve vt goal facts = Inr r \<Longrightarrow> \<exists>t. assertion vt goal = Inr t"
  by (auto simp: prove_def bind_res_eq_Inr)

text \<open>A comparison of numbers and its opposite.\<close>

lemma not_less_holds:
  assumes "assertion vt (Relation Less x y) = Inr t" "\<not> holds vt I (Relation Less x y)"
  shows "holds vt I (Relation GreaterEqual x y)"
proof -
  obtain a b where ab: "to_z3 vt x = Inr a" "to_z3 vt y = Inr b" "is_arith a" "is_arith b" "t = ZRel Less a b"
    by (rule holds_relation [OF assms(1)]) simp_all
  then have "assertion vt (Relation GreaterEqual x y) = Inr (ZRel GreaterEqual a b)"
    by (simp add: assertion_def to_z3.simps z3_relation_def is_bool_def)
  then show ?thesis
    using assms ab arith_not_bool by (auto simp: holds_def)
qed

lemma not_unequal_holds:
  assumes "assertion vt (Relation NotEqual x y) = Inr t" "\<not> holds vt I (Relation NotEqual x y)"
  shows "holds vt I (Relation Equal x y)"
proof -
  obtain a b where ab: "to_z3 vt x = Inr a" "to_z3 vt y = Inr b" "z3_relation NotEqual a b = Inr (ZRel NotEqual a b)"
      "t = ZRel NotEqual a b" "z3_relation Equal a b = Inr (ZRel Equal a b)"
    using assms(1) by (auto simp: assertion_def bind_res_eq_Inr to_z3.simps z3_relation_def split: if_splits)
  then have "assertion vt (Relation Equal x y) = Inr (ZRel Equal a b)"
    by (simp add: assertion_def to_z3.simps is_bool_def)
  then show ?thesis
    using assms ab by (auto simp: holds_def split: if_splits)
qed

lemma position_job:
  assumes "prove_field_positions m valid = Inr xs" "f \<in> set (field_names m) \<union> {FINAL}" "msg_paths m f = Inr ps"
    "p \<in> set ps" "p \<in> set valid" "target_size m (last p) = Inr sz" "position_facts m p sz = Inr facts"
  shows "refute (Relation Less sz (Number 0 0)) facts [NegativeSize f] \<in> set xs"
proof -
  have f: "f \<in> set (field_names m @ [FINAL])" using assms(2) by auto
  from concat_res_map [OF assms(1) [unfolded prove_field_positions_def] f] assms(3) obtain zs where
    zs: "concat_res (map (field_position m f) (filter (\<lambda>p. p \<in> set valid) ps)) = Inr zs" "set zs \<subseteq> set xs"
    by auto
  from concat_res_map [OF zs(1), of p] assms(4,5) obtain us where
    us: "field_position m f p = Inr us" "set us \<subseteq> set zs"
    by auto
  with assms(6,7) zs(2) show ?thesis by (auto simp: field_position_def Let_def bind_res_eq_Inr)
qed

lemma size_job:
  assumes "prove_message_size m = Inr xs" "msg_paths m FINAL = Inr ps" "p \<in> set ps" "p \<noteq> []"
    "path_constraints m (butlast p) = Inr cs"
  shows "refute (Relation NotEqual (MathBin Mod (sum_of_sizes (butlast p)) (Number 8 0)) (Number 0 0))
    (cs @ message_constraints m @ byte_sized_fields m) [SizeNotInBytes] \<in> set xs"
proof -
  have b: "butlast p \<in> set (map butlast (filter (\<lambda>p. p \<noteq> []) ps))" using assms(3,4) by auto
  from assms(1,2) have "concat_res (map (message_size_goal m) (map butlast (filter (\<lambda>p. p \<noteq> []) ps))) = Inr xs"
    by (simp add: prove_message_size_def)
  from concat_res_map [OF this b] assms(5) show ?thesis by (auto simp: message_size_goal_def)
qed

section \<open>An accepted message\<close>

text \<open>A message of one byte with two tags, and a solver that knows the values of its fields.\<close>

definition byte_decl :: type_decl where
  "byte_decl = IntegerDecl \<lparr>int_identifier = ''P::Byte'', int_first = 0, int_last = 255, int_size = 8\<rparr>"

definition tag_is :: "int \<Rightarrow> expr" where
  "tag_is n = Relation Equal (Variable ''A'') (Number n 0)"

definition tagged_links :: "link list" where
  "tagged_links =
     [plain_link INITIAL ''A'', (plain_link ''A'' FINAL)\<lparr>condition := tag_is 1\<rparr>,
      (plain_link ''A'' FINAL)\<lparr>condition := tag_is 2\<rparr>]"

definition tagged :: msg where
  "tagged =
     \<lparr>ms_identifier = ''P::M'', ms_structure = tagged_links, ms_parameters = [],
      ms_fields = [(''A'', byte_decl)], ms_checksums = [], ms_byte_order = [(''A'', HIGH_ORDER_FIRST)],
      ms_literals = [], ms_type_names = [(''P::Byte'', byte_decl)]\<rparr>"

definition attribute_name :: "string \<Rightarrow> string \<Rightarrow> string" where
  "attribute_name f a = f @ CHR 0x27 # a"

definition tagged_values :: "int \<Rightarrow> (string \<times> int) list" where
  "tagged_values n =
     (''A'', n)
     # map (\<lambda>(f, a, v). (attribute_name f a, v))
         [(''A'', ''First'', 1), (''A'', ''Size'', 8), (''A'', ''Last'', 8), (''Final'', ''First'', 9),
          (''Final'', ''Size'', 0), (''Final'', ''Last'', 8), (''Message'', ''Last'', 8),
          (''Message'', ''First'', 1), (''Message'', ''Size'', 8), (''P::Byte'', ''Size'', 8)]"

definition tagged_solver :: solver where
  "tagged_solver = candidate_solver [tagged_values 1, tagged_values 2]"

lemma tagged_solver_sound: "sound_solver tagged_solver"
  by (simp add: tagged_solver_def candidate_solver_sound)

lemma tagged_accepted: "verify_message tagged_solver tagged = Inr (Inr tagged)"
  by code_simp

text \<open>Facts that a table of numbers decides hold.\<close>

definition decided :: "(ident \<Rightarrow> ty) \<Rightarrow> (string \<times> int) list \<Rightarrow> expr list res \<Rightarrow> bool" where
  "decided vt d r =
     (case bind_res r (map_res (assertion vt)) of
        Inr ts \<Rightarrow> list_all (\<lambda>t. known_truth d t = Some True) ts
      | Inl e \<Rightarrow> False)"

lemma decided_holds: "decided vt d r \<Longrightarrow> \<exists>fs. r = Inr fs \<and> list_all (holds vt (table_interp d)) fs"
  by (auto simp: decided_def bind_res_eq_Inr assertions_hold dest!: candidate_sat split: sum.splits)

lemma table_consistent:
  "decided (msg_typing m) d (bind_res (path_constraints m p) (\<lambda>cs. Inr (cs @ message_constraints m)))
    \<Longrightarrow> consistent m (table_interp d) p"
  by (auto simp: consistent_def bind_res_eq_Inr dest!: decided_holds)

lemma table_enabled:
  "decided (msg_typing m) d
     (bind_res (aggregate_constraints (all_types_of m) (condition l)) (\<lambda>as. Inr (condition l # as)))
    \<Longrightarrow> enabled m (table_interp d) l"
  by (auto simp: enabled_def bind_res_eq_Inr dest!: decided_holds)

section \<open>What is guaranteed\<close>

text \<open>
  C1. In a message that was accepted with a correct solver at most one link can be followed after every path to a
  field, whatever the values and sizes of the fields on the path are: if one link can be followed, no other can, so
  that the message can be parsed in one way only.
\<close>

theorem at_most_one_continuation:
  assumes "verify_message solve m = Inr (Inr m')" "sound_solver solve"
    and "f \<in> set (field_names m)" "msg_paths m f = Inr ps" "p \<in> set ps" "consistent m I p"
    and "k \<in> set (outgoing (ms_structure m) f)" "l \<in> set (outgoing (ms_structure m) f)"
    and "enabled m I k" "l \<noteq> k"
  shows "\<not> enabled m I l"
proof
  assume "enabled m I l"
  obtain valid js es where js: "proof_jobs m valid = Inr js" "check_proofs solve (msg_typing m) js = Inr es"
      "\<not> list_ex severe es"
    by (rule verified_jobs [OF assms(1)])
  obtain xs where xs: "prove_conflicting_conditions m = Inr xs" "set xs \<subseteq> set js"
    using job_groups(1) [OF js(1)] by blast
  obtain cs where cs: "path_constraints m p = Inr cs" "list_all (holds (msg_typing m) I) (cs @ message_constraints m)"
    using assms(6) by (auto simp: consistent_def)
  have False if kl: "(a, b) \<in> set (pairs (outgoing (ms_structure m) f))" "enabled m I a" "enabled m I b" for a b
  proof -
    obtain as where as: "aggregate_constraints (all_types_of m) (conflict a b) = Inr as"
        "refute (conflict a b) (message_constraints m @ as @ cs) [ConflictingConditions f] \<in> set js"
      using conflict_job [OF xs(1) assms(3-5) cs(1) kl(1)] xs(2) by blast
    have "list_all (holds (msg_typing m) I) as"
      by (rule aggregate_constraints_conflict [OF as(1)]) (use kl(2,3) in \<open>auto simp: enabled_def\<close>)
    then have "\<not> holds (msg_typing m) I (conflict a b)"
      using prove_unsat [OF assms(2) refuted [OF js(2,3) as(2)]] cs(2) by (simp add: severe_def)
    moreover have "holds (msg_typing m) I (conflict a b)"
      unfolding conflict_def using kl(2,3) by (intro holds_conj) (simp_all add: enabled_def)
    ultimately show False by simp
  qed
  then show False using pairs_mem [OF assms(8,7,10)] assms(9) \<open>enabled m I l\<close> by blast
qed

theorem at_most_one_continuation_witness:
  "\<not> enabled tagged (table_interp (tagged_values 1)) (tagged_links ! 2)"
proof (rule at_most_one_continuation [OF tagged_accepted tagged_solver_sound,
    where f = "''A''" and ps = "[[tagged_links ! 0]]" and p = "[tagged_links ! 0]" and k = "tagged_links ! 1"])
  show "msg_paths tagged ''A'' = Inr [[tagged_links ! 0]]" by code_simp
  show "consistent tagged (table_interp (tagged_values 1)) [tagged_links ! 0]"
    by (rule table_consistent) code_simp
  show "enabled tagged (table_interp (tagged_values 1)) (tagged_links ! 1)"
    by (rule table_enabled) code_simp
qed (simp_all add: tagged_def tagged_links_def field_names_def plain_link_def tag_is_def outgoing_def INITIAL_def)

text \<open>
  C2. In a message that was accepted with a correct solver no field has a negative size on a valid path, as far as
  the facts that the proof uses hold: those of the path, of the message and of the aggregates in its size.
\<close>

theorem field_size_not_negative:
  assumes "verify_message solve m = Inr (Inr m')" "sound_solver solve"
    and "determine_valid_paths solve m = Inr valid" "f \<in> set (field_names m) \<union> {FINAL}"
    and "msg_paths m f = Inr ps" "p \<in> set ps" "p \<in> set valid"
    and "target_size m (last p) = Inr sz" "position_facts m p sz = Inr facts"
    and "list_all (holds (msg_typing m) I) facts"
  shows "holds (msg_typing m) I (Relation GreaterEqual sz (Number 0 0))"
proof -
  obtain js es where js: "proof_jobs m valid = Inr js" "check_proofs solve (msg_typing m) js = Inr es"
      "\<not> list_ex severe es"
    by (rule verified_jobs [OF assms(1)]) (use assms(3) in auto)
  then have "refute (Relation Less sz (Number 0 0)) facts [NegativeSize f] \<in> set js"
    using job_groups(2) [OF js(1)] position_job [OF _ assms(4-9)] by blast
  then have u: "prove solve (msg_typing m) (Relation Less sz (Number 0 0)) facts = Inr UNSAT"
    by (rule refuted [OF js(2,3)]) (simp add: severe_def)
  obtain t where "assertion (msg_typing m) (Relation Less sz (Number 0 0)) = Inr t"
    using prove_goal [OF u] by blast
  then show ?thesis by (rule not_less_holds [OF _ prove_unsat [OF assms(2) u assms(10)]])
qed

theorem field_size_not_negative_witness:
  "holds (msg_typing tagged) (table_interp (tagged_values 1)) (Relation GreaterEqual (Number 8 0) (Number 0 0))"
proof -
  have "decided (msg_typing tagged) (tagged_values 1) (position_facts tagged [tagged_links ! 0] (Number 8 0))"
    by code_simp
  then obtain facts where facts: "position_facts tagged [tagged_links ! 0] (Number 8 0) = Inr facts"
      "list_all (holds (msg_typing tagged) (table_interp (tagged_values 1))) facts"
    by (auto dest!: decided_holds)
  have valid: "determine_valid_paths tagged_solver tagged =
      Inr [[tagged_links ! 0], take 2 tagged_links, [tagged_links ! 0, tagged_links ! 2]]"
    by code_simp
  have ps: "msg_paths tagged ''A'' = Inr [[tagged_links ! 0]]" by code_simp
  have size: "target_size tagged (last [tagged_links ! 0]) = Inr (Number 8 0)" by code_simp
  show ?thesis
    by (rule field_size_not_negative [OF tagged_accepted tagged_solver_sound valid _ ps _ _ size facts])
      (simp_all add: field_names_def tagged_def)
qed




end
