(* ===== verification/Message_Positions.thy ===== *)
theory Message_Positions
  imports Message_Model
begin

text \<open>
  The positions computed by \<open>link_first\<close> and \<open>field_first\<close>: on every path they are the positions that follow from
  the sizes of the fields.
\<close>

section \<open>Simplified distances\<close>

lemma add_numbers: "simplified (Ass Add [Number k b, Number n c]) = mk_number (k + n)"
  by (simp add: simplified_def eval_nat_numeral finish_ass_def is_TRUE_def is_FALSE_def
      is_bool_op_def Let_def)

lemma name_size: "mk_name (Attribute Size (Variable i)) = Inr (Attribute Size (Variable i))"
  by (simp add: mk_name_def expr_str.simps)

lemma add_to_size:
  "simplified (Ass Add [Attribute Size (Variable i), Number n c]) =
     (if n = 0 then Inr (Attribute Size (Variable i))
      else bind_res (mk_number n) (\<lambda>x. Inr (Ass Add [Attribute Size (Variable i), x])))"
  apply (simp add: simplified_def eval_nat_numeral finish_ass_def is_TRUE_def is_FALSE_def
      is_bool_op_def name_size assemble_def is_Add_def ass_terms_def expr_eq.simps mk_number_def)
  done

lemma add_to_sum:
  "simplified (Ass Add [Ass Add [Attribute Size (Variable i), Number k b], Number n c]) =
     (if k = 0 then
        (if n = 0 then Inr (Attribute Size (Variable i))
         else bind_res (mk_number n) (\<lambda>x. Inr (Ass Add [Attribute Size (Variable i), x])))
      else
        bind_res (mk_number k) (\<lambda>y.
        if n + k = 0 then Inr (Attribute Size (Variable i))
        else bind_res (mk_number (n + k)) (\<lambda>x. Inr (Ass Add [Attribute Size (Variable i), x]))))"
  apply (simp add: simplified_def eval_nat_numeral finish_ass_def is_TRUE_def is_FALSE_def
      is_bool_op_def name_size assemble_def is_Add_def ass_terms_def expr_eq.simps mk_number_def is_subclass_def Let_def)
  done

section \<open>Distances\<close>

definition plain_distance :: "expr \<Rightarrow> bool" where
  "plain_distance e \<longleftrightarrow>
     (\<exists>n b. e = Number n b) \<or> (\<exists>i. e = Attribute Size (Variable i))
     \<or> (\<exists>i n b. e = Ass Add [Attribute Size (Variable i), Number n b])"

lemma plain_distance_simps [simp]:
  "plain_distance (Number n b)" "plain_distance (Attribute Size (Variable i))"
  "plain_distance (Ass Add [Attribute Size (Variable i), Number n b])"
  by (simp_all add: plain_distance_def)

lemma plain_distance_cases [elim]:
  assumes "plain_distance d"
  obtains n b where "d = Number n b" | i where "d = Attribute Size (Variable i)"
    | i n b where "d = Ass Add [Attribute Size (Variable i), Number n b]"
  using assms by (auto simp: plain_distance_def)

text \<open>The value of a distance, in which the names of fields are affixed, for given sizes of the fields.\<close>

fun distance :: "(field \<Rightarrow> int) \<Rightarrow> expr \<Rightarrow> int" where
  "distance sz (Number n b) = n"
| "distance sz (Attribute Size (Variable i)) = sz (drop 2 i)"
| "distance sz (Ass Add ts) = sum_list (map (distance sz) ts)"
| "distance sz e = 0"

lemma distance_add:
  assumes "plain_distance d" "simplified (Ass Add [d, Number n b]) = Inr e"
  shows "plain_distance e \<and> distance sz e = distance sz d + n"
  using assms(1)
  by (rule plain_distance_cases)
    (use assms(2) in \<open>auto simp: add_numbers add_to_size add_to_sum mk_number_def split: if_splits\<close>)

text \<open>The position of the target of the last link of a path, given in reverse, for given sizes of the fields.\<close>

fun path_first :: "(field \<Rightarrow> int) \<Rightarrow> link list \<Rightarrow> int" where
  "path_first sz (l # k # p) =
     path_first sz (k # p) + (if link_first l \<noteq> UndefinedExpr then 0 else sz (source l))"
| "path_first sz p = 0"

definition fixed_sizes :: "msg \<Rightarrow> (field \<Rightarrow> int) \<Rightarrow> bool" where
  "fixed_sizes m sz \<longleftrightarrow> (\<forall>l\<in>set (ms_structure m). \<forall>n b. field_size_opt m (source l) = Inr (Some (Number n b)) \<longrightarrow> sz (source l) = n)"

text \<open>A field on a path, with the part of the path up to it.\<close>

definition reached_by :: "field \<Rightarrow> link list \<Rightarrow> bool" where
  "reached_by f q \<longleftrightarrow> (if q = [] then f = INITIAL else target (last q) = f)"

lemma common_size:
  assumes "(case sizes of [] \<Rightarrow> Inl IndexError
    | s # ss \<Rightarrow> Inr (if number_value s \<noteq> None \<and> Q s ss then Some s else None)) = Inr (Some s')"
  shows "\<exists>n b. s' = Number n b"
proof (cases sizes)
  case (Cons s ss)
  with assms show ?thesis by (simp add: number_value_Some split: if_splits) blast
qed (use assms in simp)

lemma field_size_number:
  assumes "field_size_opt m f = Inr (Some s)"
  shows "\<exists>n b. s = Number n b"
proof (cases "f = FINAL")
  case False
  then obtain t where t: "id_lookup (ms_fields m) f = Some t"
    using assms by (auto simp: field_size_opt_def split: option.splits)
  show ?thesis
  proof (cases "scalar_size t")
    case None
    with assms False t obtain sizes where "(case sizes of [] \<Rightarrow> Inl IndexError
        | s # ss \<Rightarrow> Inr (if number_value s \<noteq> None \<and> list_all (\<lambda>s'. number_value s' = number_value s) ss
            then Some s else None)) = Inr (Some s)"
      unfolding field_size_opt_def bind_res_eq_Inr by (simp add: bind_res_eq_Inr del: not_None_eq) blast
    then show ?thesis by (rule common_size)
  qed (use assms False t in \<open>auto simp: field_size_opt_def\<close>)
qed (use assms in \<open>auto simp: field_size_opt_def\<close>)

definition positioned :: "(field \<Rightarrow> int) \<Rightarrow> link list \<Rightarrow> field \<Rightarrow> expr \<Rightarrow> bool" where
  "positioned sz p anchor d \<longleftrightarrow>
     plain_distance d
     \<and> (\<exists>q r. p = q @ r \<and> reached_by anchor q \<and> path_first sz (rev p) = path_first sz (rev q) + distance sz d)"

lemma path_first_snoc:
  "p \<noteq> [] \<Longrightarrow> path_first sz (rev (p @ [l])) =
     path_first sz (rev p) + (if link_first l \<noteq> UndefinedExpr then 0 else sz (source l))"
  by (cases p rule: rev_cases) simp_all

lemma positioned_step:
  assumes "positioned sz p anchor d" "p \<noteq> []" "plain_distance d'"
    "distance sz d' = distance sz d + (if link_first l \<noteq> UndefinedExpr then 0 else sz (source l))"
  shows "positioned sz (p @ [l]) anchor d'"
proof -
  from assms(1) obtain q r where "p = q @ r" "reached_by anchor q"
      "path_first sz (rev p) = path_first sz (rev q) + distance sz d"
    by (auto simp: positioned_def)
  then have "p @ [l] = q @ (r @ [l])" "reached_by anchor q"
      "path_first sz (rev (p @ [l])) = path_first sz (rev q) + distance sz d'"
    using path_first_snoc [OF assms(2), of sz l] assms(4) by simp_all
  then show ?thesis using assms(3) unfolding positioned_def by blast
qed

lemma positioned_here: "p \<noteq> [] \<Longrightarrow> target (last p) = f \<Longrightarrow> positioned sz p f (Number 0 0)"
  unfolding positioned_def reached_by_def by (intro conjI exI [of _ p] exI [of _ "[]"]) simp_all

lemma compute_first_positioned:
  assumes wl: "well_linked (ms_structure m)" and fixed: "fixed_sizes m sz"
  shows "is_path (ms_structure m) (target l) (p @ [l]) \<Longrightarrow> compute_first n m l = Inr (anchor, d)
    \<Longrightarrow> positioned sz (p @ [l]) anchor d"
proof (induction n arbitrary: l p anchor d)
  case (Suc n)
  have initial: "source l = INITIAL" if "is_path (ms_structure m) (target l) [l]"
    using that by (simp add: is_path_def)
  have l: "l \<in> set (ms_structure m)" using Suc.prems(1) by (simp add: is_path_snoc)
  show ?case
  proof (cases p rule: rev_cases)
    case Nil
    with Suc.prems(1) initial have "source l = INITIAL" by simp
    then show ?thesis
      using Suc.prems(2) Nil by (auto simp: positioned_def reached_by_def)
  next
    case (snoc p' k)
    then have "p \<noteq> []" by simp
    then have path: "is_path (ms_structure m) (source l) p"
      using Suc.prems(1) is_path_snoc [of "ms_structure m" "target l" p l] by simp
    then have k: "k \<in> set (ms_structure m)" "target k = source l"
      unfolding snoc is_path_snoc by simp_all
    then have not_initial: "source l \<noteq> INITIAL" using wl by (metis well_linked_def imageI)
    define before where
      "before = (case incoming (ms_structure m) (source l) of [k] \<Rightarrow> compute_first n m k | _ \<Rightarrow> Inr (source l, Number 0 0))"
    from Suc.prems(2) not_initial obtain rt ds where before: "before = Inr (rt, ds)"
      and rest: "(if link_first l \<noteq> UndefinedExpr then Inr (rt, ds)
         else bind_res (field_size_opt m (source l)) (\<lambda>size. case size of
             None \<Rightarrow> Inr (source l, Attribute Size (Variable (affixed_name (source l))))
           | Some s \<Rightarrow> bind_res (simplified (Ass Add [ds, s])) (\<lambda>d. Inr (rt, d)))) = Inr (anchor, d)"
      unfolding before_def by (auto simp: bind_res_eq_Inr)
    have here: "positioned sz p (source l) (Number 0 0)"
      using k(2) \<open>p \<noteq> []\<close> unfolding snoc by (intro positioned_here) simp_all
    have pos: "positioned sz p rt ds"
    proof (cases "incoming (ms_structure m) (source l) = [k]")
      case True
      then show ?thesis
        using Suc.IH [of k p' rt ds] path before k(2) unfolding snoc before_def by simp
    next
      case False
      moreover have "k \<in> set (incoming (ms_structure m) (source l))" using k by simp
      ultimately have "\<nexists>k'. incoming (ms_structure m) (source l) = [k']"
        by (metis list.set(1,2) singletonD)
      then have "before = Inr (source l, Number 0 0)"
        unfolding before_def by (auto split: list.splits)
      then show ?thesis using before here by simp
    qed
    then have plain: "plain_distance ds" by (simp add: positioned_def)
    show ?thesis
    proof (cases "link_first l \<noteq> UndefinedExpr")
      case True
      then have "rt = anchor" "ds = d" using rest by simp_all
      then show ?thesis using positioned_step [OF pos \<open>p \<noteq> []\<close>, of d l] plain True by simp
    next
      case False
      with rest obtain size where size: "field_size_opt m (source l) = Inr size"
          "(case size of None \<Rightarrow> Inr (source l, Attribute Size (Variable (affixed_name (source l))))
           | Some s \<Rightarrow> bind_res (simplified (Ass Add [ds, s])) (\<lambda>d. Inr (rt, d))) = Inr (anchor, d)"
        by (auto simp: bind_res_eq_Inr)
      show ?thesis
      proof (cases size)
        case None
        then have "anchor = source l" "d = Attribute Size (Variable (affixed_name (source l)))"
          using size(2) by auto
        then show ?thesis
          using positioned_step [OF here \<open>p \<noteq> []\<close>, of d l] False
          by (auto simp: plain_distance_def affixed_name_def)
      next
        case (Some s)
        then obtain v b where s: "s = Number v b" using field_size_number size(1) by blast
        with size Some have d: "simplified (Ass Add [ds, Number v b]) = Inr d" "anchor = rt"
          by (auto simp: bind_res_eq_Inr)
        have "sz (source l) = v" using fixed l size(1) Some s by (auto simp: fixed_sizes_def)
        then show ?thesis
          using distance_add [OF plain d(1), of sz] positioned_step [OF pos \<open>p \<noteq> []\<close>, of d l] False d(2)
          by simp
      qed
    qed
  qed
qed simp

section \<open>The recursion returns\<close>

lemma compute_first_step:
  assumes "ranked r (ms_structure m)"
  shows "l \<in> set (ms_structure m) \<Longrightarrow> r (target l) \<le> n \<Longrightarrow> compute_first (Suc n) m l = compute_first n m l"
proof (induction n arbitrary: l)
  case 0
  then show ?case using assms by (auto simp: ranked_def)
next
  case (Suc n)
  have "compute_first (Suc n) m k = compute_first n m k" if "incoming (ms_structure m) (source l) = [k]" for k
  proof (rule Suc.IH)
    from that have "k \<in> set (incoming (ms_structure m) (source l))" by simp
    then have k: "k \<in> set (ms_structure m)" "target k = source l" by simp_all
    then show "k \<in> set (ms_structure m)" "r (target k) \<le> n"
      using assms Suc.prems by (auto simp: ranked_def)
  qed
  then show ?case
    by (subst compute_first.simps, subst (2) compute_first.simps) (simp split: list.split del: compute_first.simps)
qed

lemma first_fuel_enough:
  assumes "well_linked (ms_structure m)" "topological_sorting False (ms_structure m) = Inr (Some fs)"
    and "l \<in> set (ms_structure m)"
  shows "first_fuel m \<le> n \<Longrightarrow> compute_first n m l = link_first_of m l"
proof (induction n)
  case (Suc n)
  obtain r where r: "ranked r (ms_structure m)" "\<And>f. r f \<le> Suc (length (ms_structure m))"
    using sorted_ranked [OF assms(1,2)] by metis
  show ?case
  proof (cases "first_fuel m \<le> n")
    case True
    then have "r (target l) \<le> n" using r(2) [of "target l"] by (simp add: first_fuel_def)
    then show ?thesis using compute_first_step [OF r(1) assms(3)] Suc.IH True by simp
  next
    case False
    then show ?thesis using Suc.prems by (simp add: link_first_of_def le_Suc_eq)
  qed
qed (simp add: first_fuel_def)

section \<open>Positions of fields\<close>

text \<open>
  C18. In a structure that was sorted, the position that is computed for the target of a link is right on every path that
  ends with the link, whatever sizes the fields have as long as they agree with the known ones: the field named as
  the anchor is reached by a part of the path, and the distance is the number of bits that follow it on the path.
  More fuel does not change the result.
\<close>

theorem link_first_correct:
  assumes "well_linked (ms_structure m)" "topological_sorting False (ms_structure m) = Inr (Some fs)"
    and "fixed_sizes m sz" "is_path (ms_structure m) (target l) (p @ [l])"
    and "link_first_of m l = Inr (anchor, d)" "first_fuel m \<le> n"
  shows "compute_first n m l = Inr (anchor, d)
    \<and> (\<exists>q r. p @ [l] = q @ r \<and> reached_by anchor q
         \<and> path_first sz (rev (p @ [l])) = path_first sz (rev q) + distance sz d)"
proof
  have "l \<in> set (ms_structure m)" using assms(4) by (simp add: is_path_snoc)
  then show "compute_first n m l = Inr (anchor, d)"
    using first_fuel_enough [OF assms(1,2) _ assms(6)] assms(5) by simp
  show "\<exists>q r. p @ [l] = q @ r \<and> reached_by anchor q
      \<and> path_first sz (rev (p @ [l])) = path_first sz (rev q) + distance sz d"
    using compute_first_positioned [OF assms(1,3,4) assms(5) [unfolded link_first_of_def]]
    by (simp add: positioned_def)
qed

text \<open>A message with a field of variable size between two fields of one byte.\<close>

definition octet :: type_decl where
  "octet = IntegerDecl \<lparr>int_identifier = ''P::Octet'', int_first = 0, int_last = 255, int_size = 8\<rparr>"

definition framed_links :: "link list" where
  "framed_links =
     [plain_link INITIAL ''A'',
      (plain_link ''A'' ''B'')\<lparr>link_size := Ass Mul [Variable ''A'', Number 8 0]\<rparr>,
      plain_link ''B'' ''C'', plain_link ''C'' FINAL]"

definition framed :: msg where
  "framed =
     \<lparr>ms_identifier = ''P::M'', ms_structure = framed_links, ms_parameters = [],
      ms_fields = [(''A'', octet), (''B'', OpaqueDecl), (''C'', octet)], ms_checksums = [],
      ms_byte_order = [(''A'', HIGH_ORDER_FIRST), (''B'', HIGH_ORDER_FIRST), (''C'', HIGH_ORDER_FIRST)],
      ms_literals = [], ms_type_names = [(''P::Octet'', octet)]\<rparr>"

definition frame_size :: "field \<Rightarrow> int" where
  "frame_size f = (if f = ''B'' then 40 else 8)"

theorem link_first_correct_witness:
  "compute_first 9 framed (framed_links ! 3) = Inr (''B'', Ass Add [Attribute Size (Variable ''F_B''), Number 8 0])
    \<and> (\<exists>q r. take 3 framed_links @ [framed_links ! 3] = q @ r \<and> reached_by ''B'' q
         \<and> path_first frame_size (rev (take 3 framed_links @ [framed_links ! 3]))
             = path_first frame_size (rev q)
               + distance frame_size (Ass Add [Attribute Size (Variable ''F_B''), Number 8 0]))"
proof (rule link_first_correct)
  show "well_linked (ms_structure framed)"
    by (simp add: framed_def framed_links_def well_linked_def plain_link_def INITIAL_def FINAL_def)
  show "topological_sorting False (ms_structure framed) = Inr (Some [''A'', ''B'', ''C''])" by code_simp
  show "link_first_of framed (framed_links ! 3)
      = Inr (''B'', Ass Add [Attribute Size (Variable ''F_B''), Number 8 0])"
    by code_simp
  have "map (\<lambda>l. (source l, field_size_opt framed (source l))) framed_links =
      [(INITIAL, Inl AssertionError), (''A'', Inr (Some (Number 8 0))), (''B'', Inr None), (''C'', Inr (Some (Number 8 0)))]"
    by code_simp
  then show "fixed_sizes framed frame_size"
    by (auto simp: fixed_sizes_def framed_def framed_links_def frame_size_def INITIAL_def)
  show "is_path (ms_structure framed) (target (framed_links ! 3)) (take 3 framed_links @ [framed_links ! 3])"
    by (simp add: is_path_def framed_def framed_links_def plain_link_def)
  show "first_fuel framed \<le> 9" by (simp add: first_fuel_def framed_def framed_links_def)
qed

end
