(* ===== verification/Message_Attributes.thy ===== *)
theory Message_Attributes
  imports Message_Guarantees
begin

text \<open>
  What a message tells other parts of the tool (\<open>rflx/model/message.py\<close>): whether its fields can be empty,
  its static type, whether its size is fixed, implicit or definite, and the largest size of the message and of its fields.
\<close>

section \<open>Empty fields\<close>

definition path_property_facts :: "msg \<Rightarrow> expr \<Rightarrow> link list \<Rightarrow> expr list res" where
  "path_property_facts m prop p =
     bind_res (aggregate_constraints (all_types_of m) prop) (\<lambda>as.
     bind_res (map_res (\<lambda>l. bind_res (expr_eq (condition l) TRUE) (\<lambda>b. Inr (if b then [] else [condition l]))) p) (\<lambda>cs.
       Inr (message_constraints m @ as @ concat cs
         @ concat (map (\<lambda>l. if link_size l \<noteq> UndefinedExpr
                            then [Relation Equal (size_of (target l)) (link_size l)] else []) p))))"

definition prove_path_property :: "solver \<Rightarrow> msg \<Rightarrow> expr \<Rightarrow> link list \<Rightarrow> proof_result res" where
  "prove_path_property solve m prop p =
     bind_res (path_property_facts m prop p) (\<lambda>fs. prove solve (msg_typing m) prop fs)"

definition empty_field :: "field \<Rightarrow> expr" where
  "empty_field f = Relation Equal (size_of f) (Number 0 0)"

definition is_possibly_empty :: "solver \<Rightarrow> msg \<Rightarrow> field \<Rightarrow> bool res" where
  "is_possibly_empty solve m f =
     (case id_lookup (all_types_of m) f of
        None \<Rightarrow> Inl (KeyError f)
      | Some t \<Rightarrow>
          if is_scalar t then Inr False
          else
            bind_res (msg_paths m FINAL) (\<lambda>ps.
              any_res (\<lambda>p. bind_res (prove_path_property solve m (empty_field f) p) (\<lambda>r. Inr (r = SAT)))
                (filter (\<lambda>p. list_ex (\<lambda>l. target l = f) p) ps)))"

section \<open>Static type\<close>

definition is_null_msg :: "msg \<Rightarrow> bool" where
  "is_null_msg m = (ms_structure m = [plain_link INITIAL FINAL] \<and> all_types_of m = [])"

definition field_combinations :: "msg \<Rightarrow> string list list res" where
  "field_combinations m =
     (if is_null_msg m then Inr []
      else
        bind_res (msg_paths m FINAL) (\<lambda>ps.
          Inr (remdups
            (map (\<lambda>p. map fst (ms_parameters m) @ filter (\<lambda>f. f \<noteq> FINAL) (map target p)) ps))))"

definition message_type :: "msg \<Rightarrow> ty" where
  "message_type m =
     Message (ms_identifier m) (map (\<lambda>(f, t). (f, decl_type t)) (ms_parameters m))
       (map (\<lambda>(f, t). (f, decl_type t)) (ms_fields m))"

section \<open>Fixed, implicit and definite sizes\<close>

definition msg_has_implicit_size :: "msg \<Rightarrow> bool res" where
  "msg_has_implicit_size m = any_res has_implicit_size (ms_structure m)"

definition has_fixed_size :: "msg \<Rightarrow> bool res" where
  "has_fixed_size m =
     bind_res (msg_paths m FINAL) (\<lambda>ps.
       if length ps > 1 then Inr False
       else
         bind_res (map_res (\<lambda>l. variables (link_size l)) (ms_structure m)) (\<lambda>vss.
           Inr (list_all (\<lambda>v. id_lookup (ms_type_names m) v \<noteq> None) (concat vss))))"

definition is_aggregate_expr :: "expr \<Rightarrow> bool" where
  "is_aggregate_expr e = (class_of e = C_Aggregate \<or> class_of e = C_String)"

definition compares_field :: "field list \<Rightarrow> expr \<Rightarrow> bool res" where
  "compares_field fs r =
     (case r of
        Relation op a b \<Rightarrow>
          any_res (\<lambda>f. bind_res (expr_eq a (Variable f)) (\<lambda>x. if x then Inr True else expr_eq b (Variable f))) fs
      | _ \<Rightarrow> Inr False)"

definition has_aggregate_dependent_condition :: "msg \<Rightarrow> field option \<Rightarrow> bool res" where
  "has_aggregate_dependent_condition m f =
     (let links = (case f of Some g \<Rightarrow> outgoing (ms_structure m) g | None \<Rightarrow> ms_structure m);
          fs = (case f of Some g \<Rightarrow> [g] | None \<Rightarrow> field_names m) in
      any_res (\<lambda>l.
        bind_res (findall is_equation (condition l)) (\<lambda>rs.
          any_res (\<lambda>r.
            bind_res (findall is_aggregate_expr r) (\<lambda>as. if as = [] then Inr False else compares_field fs r)) rs)) links)"

definition is_position :: "expr \<Rightarrow> bool" where
  "is_position e = (case e of Attribute a p \<Rightarrow> a = First \<or> a = Last | _ \<Rightarrow> False)"

text \<open>The attributes are only searched in expressions that have a variable.\<close>

definition position_free :: "expr \<Rightarrow> bool res" where
  "position_free e =
     bind_res (variables e) (\<lambda>vs.
       if vs = [] then Inr True else bind_res (findall is_position e) (\<lambda>r. Inr (r = [])))"

definition all_res :: "('a \<Rightarrow> bool res) \<Rightarrow> 'a list \<Rightarrow> bool res" where
  "all_res f xs = bind_res (any_res (\<lambda>x. bind_res (f x) (\<lambda>b. Inr (\<not> b))) xs) (\<lambda>b. Inr (\<not> b))"

definition and_res :: "bool res \<Rightarrow> bool res \<Rightarrow> bool res" where
  "and_res a b = bind_res a (\<lambda>x. if x then b else Inr False)"

fun is_sequence_type :: "type_decl \<Rightarrow> bool" where
  "is_sequence_type (SequenceDecl i t) = True"
| "is_sequence_type t = False"

definition is_definite :: "msg \<Rightarrow> bool res" where
  "is_definite m =
     bind_res (msg_paths m FINAL) (\<lambda>ps.
     and_res (Inr (length ps \<le> 1))
       (and_res (bind_res (msg_has_implicit_size m) (\<lambda>b. Inr (\<not> b)))
         (and_res (all_res (\<lambda>l. position_free (condition l)) (ms_structure m))
           (and_res (all_res (\<lambda>l. position_free (link_size l)) (ms_structure m))
             (Inr (ms_parameters m = [] \<and> \<not> list_ex (\<lambda>(f, t). is_sequence_type t) (all_types_of m)))))))"

section \<open>Largest sizes\<close>

definition total_size :: "link list \<Rightarrow> expr" where
  "total_size p =
     Ass Add (map (\<lambda>l. size_of (target l)) (filter (\<lambda>l. target l \<noteq> FINAL \<and> link_first l = UndefinedExpr) p))"

definition max_path_value :: "maximizer \<Rightarrow> msg \<Rightarrow> expr \<Rightarrow> link list \<Rightarrow> expr res" where
  "max_path_value mx m goal p =
     bind_res (path_constraints m p) (\<lambda>cs.
       max_value mx (msg_typing m) goal
         (Relation Equal (size_of ''Message'') (total_size p) # cs @ message_constraints m))"

definition larger :: "expr \<Rightarrow> expr \<Rightarrow> expr" where
  "larger a b = (case (a, b) of (Number x i, Number y j) \<Rightarrow> if y > x then b else a | _ \<Rightarrow> a)"

fun max_over_paths :: "maximizer \<Rightarrow> msg \<Rightarrow> expr \<Rightarrow> link list list \<Rightarrow> expr res" where
  "max_over_paths mx m acc [] = Inr acc"
| "max_over_paths mx m acc (p # ps) =
     bind_res (max_path_value mx m (size_of ''Message'') p) (\<lambda>n. max_over_paths mx m (larger acc n) ps)"

definition max_size :: "maximizer \<Rightarrow> msg \<Rightarrow> expr res" where
  "max_size mx m =
     (if is_null_msg m then Inr (Number 0 0)
      else
        bind_res (msg_has_implicit_size m) (\<lambda>b.
          if b then Inl (RecordFluxError ''unable to calculate maximum size of message with implicit size'')
          else bind_res (msg_paths m FINAL) (max_over_paths mx m (Number 0 0))))"

fun max_over_links ::
    "maximizer \<Rightarrow> msg \<Rightarrow> link list \<Rightarrow> (field \<times> expr) list \<Rightarrow> link list \<Rightarrow> (field \<times> expr) list res" where
  "max_over_links mx m p d [] = Inr d"
| "max_over_links mx m p d (l # ls) =
     (case id_lookup d (target l) of
        None \<Rightarrow> Inl (KeyError (target l))
      | Some a \<Rightarrow>
          bind_res (max_path_value mx m (size_of (target l)) p) (\<lambda>n.
            max_over_links mx m p (id_set (target l) (larger a n) d) ls))"

fun max_fields_over_paths ::
    "maximizer \<Rightarrow> msg \<Rightarrow> (field \<times> expr) list \<Rightarrow> link list list \<Rightarrow> (field \<times> expr) list res" where
  "max_fields_over_paths mx m d [] = Inr d"
| "max_fields_over_paths mx m d (p # ps) =
     bind_res (max_over_links mx m p d (butlast p)) (\<lambda>d'. max_fields_over_paths mx m d' ps)"

definition max_field_sizes :: "maximizer \<Rightarrow> msg \<Rightarrow> (field \<times> expr) list res" where
  "max_field_sizes mx m =
     (if is_null_msg m then Inr []
      else
        bind_res (msg_has_implicit_size m) (\<lambda>b.
          if b then Inl (RecordFluxError ''unable to calculate maximum field sizes of message with implicit size'')
          else
            bind_res (msg_paths m FINAL)
              (max_fields_over_paths mx m (map (\<lambda>f. (f, Number 0 0)) (field_names m)))))"

section \<open>The maximum\<close>

text \<open>A message that takes a path, with a size that is the sum of the sizes of its fields.\<close>

definition complete :: "msg \<Rightarrow> interp \<Rightarrow> link list \<Rightarrow> bool" where
  "complete m I p \<longleftrightarrow>
     consistent m I p \<and> holds (msg_typing m) I (Relation Equal (size_of ''Message'') (total_size p))"

definition size_in :: "interp \<Rightarrow> field \<Rightarrow> int" where
  "size_in I f = in_int I (attribute_name f ''Size'')"

lemma size_term: "to_z3 vt (size_of f) = Inr (IntConst (attribute_name f ''Size''))"
  by (simp add: size_of_def attribute_name_def to_z3.simps named_prefix_def expr_str.simps)

lemma path_maximum:
  assumes "sound_maximizer mx" "max_path_value mx m (size_of f) p = Inr e"
  shows "\<exists>n. e = Number n 0 \<and> (\<forall>I. complete m I p \<longrightarrow> size_in I f \<le> n) \<and> (\<exists>I. complete m I p \<and> size_in I f = n)"
proof -
  let ?vt = "msg_typing m" and ?s = "Relation Equal (size_of ''Message'') (total_size p)"
  from assms(2) obtain cs ts n where cs: "path_constraints m p = Inr cs"
      and ts: "map_res (assertion ?vt) (?s # cs @ message_constraints m) = Inr ts"
      and n: "mx ts (IntConst (attribute_name f ''Size'')) = Some n" and e: "e = Number n 0"
    by (auto simp: max_path_value_def max_value_def bind_res_eq_Inr size_term split: option.splits simp del: map_res_Cons)
  have c: "complete m I p \<longleftrightarrow> (\<forall>t\<in>set ts. truth (zeval I t))" for I
    using assertions_hold [OF ts, of I] cs by (auto simp: complete_def consistent_def)
  obtain J where J: "\<forall>t\<in>set ts. truth (zeval J t)" "size_in J f = n"
    and ub: "\<And>I. \<forall>t\<in>set ts. truth (zeval I t) \<Longrightarrow> size_in I f \<le> n"
    using assms(1) n unfolding sound_maximizer_def size_in_def by fastforce
  show ?thesis
  proof (intro exI conjI allI impI)
    show "e = Number n 0" by (rule e)
    show "size_in I f \<le> n" if "complete m I p" for I
      using that ub unfolding c by blast
    show "complete m J p" "size_in J f = n"
      using J unfolding c by auto
  qed
qed

section \<open>Sizes of messages\<close>

lemma larger_Number [simp]: "larger (Number x 0) (Number y 0) = Number (max x y) 0"
  by (simp add: larger_def)

text \<open>The largest value over some paths is attained, or it is the initial value.\<close>

definition largest :: "msg \<Rightarrow> (field \<times> link list) set \<Rightarrow> int \<Rightarrow> int \<Rightarrow> bool" where
  "largest m P a n \<longleftrightarrow>
     a \<le> n \<and> (\<forall>(f, p)\<in>P. \<forall>I. complete m I p \<longrightarrow> size_in I f \<le> n)
     \<and> (n = a \<or> (\<exists>(f, p)\<in>P. \<exists>I. complete m I p \<and> size_in I f = n))"

lemma largest_empty [simp]: "largest m {} a n \<longleftrightarrow> n = a"
  by (auto simp: largest_def)

lemma largest_path:
  assumes "\<forall>I. complete m I p \<longrightarrow> size_in I f \<le> k" "\<exists>I. complete m I p \<and> size_in I f = k" "largest m P (max a k) n"
  shows "largest m (insert (f, p) P) a n"
proof -
  have "(n = a \<or> (\<exists>I. complete m I p \<and> size_in I f = n)) \<or> (\<exists>(f, p)\<in>P. \<exists>I. complete m I p \<and> size_in I f = n)"
    using assms(2,3) by (auto simp: largest_def max_def split: if_splits)
  then show ?thesis using assms(1,3) unfolding largest_def by (auto intro: order_trans)
qed

lemma largest_trans:
  assumes "largest m P a k" "largest m Q k n"
  shows "largest m (P \<union> Q) a n"
  using assms unfolding largest_def by (auto 0 3 intro: order_trans)

lemma max_over_paths_largest:
  assumes "sound_maximizer mx"
  shows "max_over_paths mx m (Number a 0) ps = Inr e
    \<Longrightarrow> \<exists>n. e = Number n 0 \<and> largest m (Pair ''Message'' ` set ps) a n"
proof (induction ps arbitrary: a)
  case (Cons p ps)
  then obtain v where v: "max_path_value mx m (size_of ''Message'') p = Inr v"
      and e: "max_over_paths mx m (larger (Number a 0) v) ps = Inr e"
    by (auto simp: bind_res_eq_Inr)
  from path_maximum [OF assms v] obtain k where k: "v = Number k 0"
      "\<forall>I. complete m I p \<longrightarrow> size_in I ''Message'' \<le> k" "\<exists>I. complete m I p \<and> size_in I ''Message'' = k"
    by blast
  then show ?case using Cons.IH [of "max a k"] e largest_path [OF k(2,3)] by auto
qed simp

definition numbers :: "(field \<times> expr) list \<Rightarrow> bool" where
  "numbers d \<longleftrightarrow> (\<forall>f e. id_lookup d f = Some e \<longrightarrow> (\<exists>n. e = Number n 0))"

definition link_pairs :: "field \<Rightarrow> link list \<Rightarrow> link list \<Rightarrow> (field \<times> link list) set" where
  "link_pairs f p ls = (\<lambda>l. (target l, p)) ` {l \<in> set ls. id_eq (target l) f}"

lemma max_over_links_largest:
  assumes "sound_maximizer mx"
  shows "max_over_links mx m p d ls = Inr d' \<Longrightarrow> numbers d \<Longrightarrow>
    numbers d' \<and> (\<forall>f a. id_lookup d f = Some (Number a 0) \<longrightarrow>
      (\<exists>n. id_lookup d' f = Some (Number n 0) \<and> largest m (link_pairs f p ls) a n))"
proof (induction ls arbitrary: d)
  case Nil
  then show ?case by (simp add: link_pairs_def)
next
  case (Cons l ls)
  then obtain b v where b: "id_lookup d (target l) = Some (Number b 0)"
      and v: "max_path_value mx m (size_of (target l)) p = Inr v"
      and d': "max_over_links mx m p (id_set (target l) (larger (Number b 0) v) d) ls = Inr d'"
    by (fastforce simp: bind_res_eq_Inr numbers_def split: option.splits)
  from path_maximum [OF assms v] obtain k where k: "v = Number k 0"
      "\<forall>I. complete m I p \<longrightarrow> size_in I (target l) \<le> k" "\<exists>I. complete m I p \<and> size_in I (target l) = k"
    by blast
  let ?d = "id_set (target l) (Number (max b k) 0) d"
  have "numbers ?d" using Cons.prems(2) by (auto simp: numbers_def lookup_id_set)
  with Cons.IH [of ?d] d' k(1)
  have IH: "numbers d'" "\<And>f a. id_lookup ?d f = Some (Number a 0) \<Longrightarrow>
      \<exists>n. id_lookup d' f = Some (Number n 0) \<and> largest m (link_pairs f p ls) a n"
    by auto
  have "\<exists>n. id_lookup d' f = Some (Number n 0) \<and> largest m (link_pairs f p (l # ls)) a n"
    if a: "id_lookup d f = Some (Number a 0)" for f a
  proof (cases "id_eq (target l) f")
    case True
    then have "id_lookup d (target l) = id_lookup d f" by (simp add: id_lookup_def id_eq_def)
    then have "a = b" using a b by simp
    moreover have "link_pairs f p (l # ls) = insert (target l, p) (link_pairs f p ls)"
      using True by (auto simp: link_pairs_def)
    ultimately show ?thesis
      using IH(2) [of f "max b k"] True largest_path [OF k(2,3)] by (auto simp: lookup_id_set)
  next
    case False
    then have "link_pairs f p (l # ls) = link_pairs f p ls" by (auto simp: link_pairs_def)
    then show ?thesis using IH(2) [of f a] a False by (simp add: lookup_id_set)
  qed
  then show ?case using IH(1) by blast
qed

definition field_paths :: "field \<Rightarrow> link list list \<Rightarrow> (field \<times> link list) set" where
  "field_paths f ps = (\<Union>p\<in>set ps. link_pairs f p (butlast p))"

lemma max_fields_over_paths_largest:
  assumes "sound_maximizer mx"
  shows "max_fields_over_paths mx m d ps = Inr d' \<Longrightarrow> numbers d \<Longrightarrow> id_lookup d f = Some (Number a 0) \<Longrightarrow>
    \<exists>n. id_lookup d' f = Some (Number n 0) \<and> largest m (field_paths f ps) a n"
proof (induction ps arbitrary: d a)
  case Nil
  then show ?case by (simp add: field_paths_def)
next
  case (Cons p ps)
  then obtain e where e: "max_over_links mx m p d (butlast p) = Inr e" "max_fields_over_paths mx m e ps = Inr d'"
    by (auto simp: bind_res_eq_Inr)
  from max_over_links_largest [OF assms e(1) Cons.prems(2)] Cons.prems(3)
  obtain k where k: "numbers e" "id_lookup e f = Some (Number k 0)" "largest m (link_pairs f p (butlast p)) a k"
    by blast
  from Cons.IH [OF e(2) k(1,2)] k(3) show ?case
    by (auto simp: field_paths_def dest: largest_trans)
qed

text \<open>
  C13. The largest size of a message is exact: it is the size of a message that takes one of the paths (or zero), and no
  message that takes a path is larger, if the optimizing solver finds maxima.
\<close>

theorem max_size_exact:
  assumes "sound_maximizer mx" "max_size mx m = Inr e" "\<not> is_null_msg m" "msg_paths m FINAL = Inr ps"
  shows "\<exists>n. e = Number n 0 \<and> 0 \<le> n \<and> (\<forall>p\<in>set ps. \<forall>I. complete m I p \<longrightarrow> size_in I ''Message'' \<le> n)
    \<and> (n = 0 \<or> (\<exists>p\<in>set ps. \<exists>I. complete m I p \<and> size_in I ''Message'' = n))"
proof -
  have "max_over_paths mx m (Number 0 0) ps = Inr e"
    using assms(2-4) by (auto simp: max_size_def bind_res_eq_Inr split: if_splits)
  from max_over_paths_largest [OF assms(1) this] show ?thesis
    by (auto simp: largest_def)
qed

theorem max_field_size_exact:
  assumes "sound_maximizer mx" "max_field_sizes mx m = Inr d" "\<not> is_null_msg m" "msg_paths m FINAL = Inr ps"
    and "f \<in> set (field_names m)"
  shows "\<exists>n. id_lookup d f = Some (Number n 0) \<and> largest m (field_paths f ps) 0 n"
proof -
  let ?d = "map (\<lambda>f. (f, Number 0 0)) (field_names m)"
  have d: "max_fields_over_paths mx m ?d ps = Inr d"
    using assms(2-4) by (auto simp: max_field_sizes_def bind_res_eq_Inr split: if_splits)
  have z: "id_lookup (map (\<lambda>f. (f, Number 0 0)) fs) g = (if lower g \<in> lower ` set fs then Some (Number 0 0) else None)" for fs g
    by (induction fs) (auto simp: id_lookup_def)
  have "numbers ?d" by (auto simp: numbers_def z)
  moreover have "id_lookup ?d f = Some (Number 0 0)" using assms(5) by (simp add: z)
  ultimately show ?thesis using max_fields_over_paths_largest [OF assms(1) d] by blast
qed

section \<open>A field that can be empty\<close>

lemma possibly_empty_sound:
  assumes "sound_solver solve" "is_possibly_empty solve m f = Inr True" "msg_paths m FINAL = Inr ps"
  shows "\<exists>p\<in>set ps. f \<in> target ` set p
    \<and> (\<exists>fs I. path_property_facts m (empty_field f) p = Inr fs \<and> list_all (holds (msg_typing m) I) (empty_field f # fs))"
proof -
  obtain p where p: "p \<in> set ps" "list_ex (\<lambda>l. target l = f) p"
      and "prove_path_property solve m (empty_field f) p = Inr SAT"
    using assms(2,3)
    by (auto simp: is_possibly_empty_def bind_res_eq_Inr split: option.splits if_splits dest!: any_res_True)
  then obtain fs where "path_property_facts m (empty_field f) p = Inr fs" "prove solve (msg_typing m) (empty_field f) fs = Inr SAT"
    by (auto simp: prove_path_property_def bind_res_eq_Inr)
  with prove_sat [OF assms(1)] p show ?thesis by (fastforce simp: list_ex_iff)
qed

section \<open>A small message\<close>

definition tagged_maximizer :: maximizer where
  "tagged_maximizer = candidate_maximizer [tagged_values 1, tagged_values 2]"

theorem max_size_exact_witness:
  "max_size tagged_maximizer tagged = Inr (Number 8 0)
   \<and> (\<exists>p I. complete tagged I p \<and> size_in I ''Message'' = 8)"
proof -
  have s: "sound_maximizer tagged_maximizer"
    by (simp add: tagged_maximizer_def candidate_maximizer_sound)
  have v: "max_size tagged_maximizer tagged = Inr (Number 8 0)"
    by code_simp
  have n: "\<not> is_null_msg tagged"
    by code_simp
  have p: "msg_paths tagged FINAL = Inr [[tagged_links ! 0, tagged_links ! 1], [tagged_links ! 0, tagged_links ! 2]]"
    by code_simp
  show ?thesis using max_size_exact [OF s v n p] v by auto
qed

lemma tagged_attributes:
  "is_definite tagged = Inr False" "has_fixed_size tagged = Inr False"
  "max_field_sizes tagged_maximizer tagged = Inr [(''A'', Number 8 0)]"
  "field_combinations tagged = Inr [[''A'']]"
  by code_simp+

end
