(* ===== verification/Machine_Typing.thy ===== *)
theory Machine_Typing
  imports Machine_Checks Statement_Check
begin

text \<open>
  The type checks of state machines (\<open>_typify_variable\<close>, \<open>_validate_declarations\<close>, \<open>_validate_actions\<close>,
  \<open>_validate_transitions\<close> and \<open>error_on_unsupported_expression\<close> in \<open>rflx/model/state_machine.py\<close>): the types
  of names, the checks of declarations, actions and transitions, and the translation of accepted machines.
\<close>

section \<open>The types known to a state machine\<close>

record refinement =
  rf_pdu :: type_decl
  rf_field :: ident
  rf_sdu :: type_decl

text \<open>
  The types the machine depends on, their literals and names, the refinements, the combinations of
  fields of the messages and the messages that are definite.
\<close>

record machine_types =
  mt_package :: ident
  mt_types :: "(ident \<times> type_decl) list"
  mt_literals :: "(ident \<times> enum_decl) list"
  mt_names :: "(ident \<times> type_decl) list"
  mt_refinements :: "refinement list"
  mt_combinations :: "ident \<Rightarrow> string list list"
  mt_definite :: "ident \<Rightarrow> bool"

definition type_table :: "type_decl list \<Rightarrow> (ident \<times> type_decl) list" where
  "type_table ts = fold (\<lambda>t. id_set (decl_identifier t) t) ts []"

definition make_machine_types ::
    "ident \<Rightarrow> type_decl list \<Rightarrow> refinement list \<Rightarrow> (ident \<Rightarrow> string list list) \<Rightarrow> (ident \<Rightarrow> bool) \<Rightarrow> machine_types" where
  "make_machine_types package ts rs cs df =
     \<lparr>mt_package = package, mt_types = type_table ts, mt_literals = literal_table (map snd (type_table ts)) package,
      mt_names = qualified_type_names (map snd (type_table ts)), mt_refinements = rs, mt_combinations = cs,
      mt_definite = df\<rparr>"

definition resolve :: "machine_types \<Rightarrow> ident \<Rightarrow> type_decl option" where
  "resolve mt i = id_lookup (mt_types mt) (internal_type_identifier i (Some (mt_package mt)))"

definition type_or_undefined :: "type_decl option \<Rightarrow> ty" where
  "type_or_undefined t = (case t of None \<Rightarrow> Undefined | Some d \<Rightarrow> decl_type d)"

section \<open>The types of names\<close>

type_synonym declarations = "(ident \<times> decl) list"

definition variable_type :: "declarations \<Rightarrow> ident \<Rightarrow> ty" where
  "variable_type ds i = (case id_lookup ds i of None \<Rightarrow> Undefined | Some d \<Rightarrow> declared_type d)"

definition argument_types :: "declarations \<Rightarrow> ident \<Rightarrow> ty list" where
  "argument_types ds i =
     (case id_lookup ds i of
        Some (FunctionDeclaration j ps r t) \<Rightarrow> map (\<lambda>(p, pt, u). u) ps
      | _ \<Rightarrow> [])"

text \<open>The literals \<open>expr.TRUE\<close> and \<open>expr.FALSE\<close> have the type Boolean from the beginning.\<close>

definition literal_type :: "machine_types \<Rightarrow> ident \<Rightarrow> ty" where
  "literal_type mt i =
     (case id_lookup (mt_literals mt) i of
        Some d \<Rightarrow> enumeration_type d
      | None \<Rightarrow> if id_eq i ''True'' \<or> id_eq i ''False'' then BOOLEAN else Undefined)"

definition conversion_types :: "machine_types \<Rightarrow> ident \<Rightarrow> ty \<times> ty list" where
  "conversion_types mt i =
     (case id_lookup (mt_types mt) i of
        Some d \<Rightarrow>
          (decl_type d,
           map (\<lambda>r. decl_type (rf_pdu r))
             (filter (\<lambda>r. id_eq (decl_identifier (rf_sdu r)) i) (mt_refinements mt)))
      | None \<Rightarrow> (Undefined, []))"

definition message_refinements :: "machine_types \<Rightarrow> ident \<Rightarrow> (ident \<times> ty) list" where
  "message_refinements mt i =
     map (\<lambda>r. (rf_field r, decl_type (rf_sdu r)))
       (filter (\<lambda>r. id_eq (decl_identifier (rf_pdu r)) i) (mt_refinements mt))"

definition enumeration_literals :: "machine_types \<Rightarrow> ident \<Rightarrow> ident list" where
  "enumeration_literals mt i =
     (case id_lookup (mt_types mt) i of Some (EnumDecl d) \<Rightarrow> map fst (enum_literals d) | _ \<Rightarrow> [])"

definition tenv_of :: "machine_types \<Rightarrow> declarations \<Rightarrow> tenv" where
  "tenv_of mt ds =
     \<lparr>te_variable = variable_type ds,
      te_literal = literal_type mt,
      te_type_name = (\<lambda>i. type_or_undefined (id_lookup (mt_names mt) i)),
      te_call = (\<lambda>i. (variable_type ds i, argument_types ds i)),
      te_conversion = conversion_types mt,
      te_aggregate = (\<lambda>i. type_or_undefined (resolve mt i)),
      te_delta = variable_type ds,
      te_combinations = mt_combinations mt,
      te_refinements = message_refinements mt,
      te_literals = enumeration_literals mt\<rparr>"

text \<open>
  \<open>_typify_variable\<close> gives the types above to the names of an expression; here it only raises the
  exceptions that it raises.
\<close>

definition typify_variable :: "machine_types \<Rightarrow> declarations \<Rightarrow> expr \<Rightarrow> expr res" where
  "typify_variable mt ds e =
     (case e of
        Variable i \<Rightarrow> assert_res (id_lookup (mt_literals mt) i = None) (Inr e)
      | TypeName i \<Rightarrow> (if id_lookup (mt_names mt) i = None then Inl (KeyError i) else Inr e)
      | Call i es \<Rightarrow>
          (case id_lookup ds i of
             None \<Rightarrow> Inr e
           | Some (FunctionDeclaration j ps r t) \<Rightarrow> Inr e
           | Some _ \<Rightarrow> Inl AssertionError)
      | _ \<Rightarrow> Inr e)"

definition typify :: "machine_types \<Rightarrow> declarations \<Rightarrow> expr list \<Rightarrow> unit res" where
  "typify mt ds es =
     bind_res (map_res (\<lambda>e. substituted (Suc (weight e)) (typify_variable mt ds) e) es) (\<lambda>_. Inr ())"

section \<open>Comparisons of opaque fields\<close>

definition opaque_field :: "tenv \<Rightarrow> expr \<Rightarrow> bool" where
  "opaque_field te e = (class_of e = C_Selected \<and> ty_eq (typing_of te e) OPAQUE)"

fun opaque_comparisons :: "tenv \<Rightarrow> expr \<Rightarrow> nat" where
  "opaque_comparisons te (NotE e) = opaque_comparisons te e"
| "opaque_comparisons te (Ass op ts) = sum_list (map (opaque_comparisons te) ts)"
| "opaque_comparisons te (Neg e) = opaque_comparisons te e"
| "opaque_comparisons te (MathBin op l r) = opaque_comparisons te l + opaque_comparisons te r"
| "opaque_comparisons te (Attribute a p) = opaque_comparisons te p"
| "opaque_comparisons te (Selected p f) = opaque_comparisons te p"
| "opaque_comparisons te (Call i es) = sum_list (map (opaque_comparisons te) es)"
| "opaque_comparisons te (expr.Aggregate es) = sum_list (map (opaque_comparisons te) es)"
| "opaque_comparisons te (Relation op l r) =
     (if op = Equal \<or> op = NotEqual then length (filter (opaque_field te) [l, r]) else 0)
     + opaque_comparisons te l + opaque_comparisons te r"
| "opaque_comparisons te (IfExpr ces el) =
     sum_list (map (\<lambda>(c, x). opaque_comparisons te c + opaque_comparisons te x) ces)
     + (case el of None \<Rightarrow> 0 | Some x \<Rightarrow> opaque_comparisons te x)"
| "opaque_comparisons te (Quantified q i it p) =
     opaque_comparisons te it + opaque_comparisons (bind_variable i (iterated_type (typing_of te it)) te) p"
| "opaque_comparisons te (ValueRange a b) = opaque_comparisons te a + opaque_comparisons te b"
| "opaque_comparisons te (Conversion i e) = opaque_comparisons te e"
| "opaque_comparisons te (Comprehension i sq sel c) =
     (let te' = bind_variable i (iterated_type (typing_of te sq)) te in
      opaque_comparisons te sq + opaque_comparisons te' sel + opaque_comparisons te' c)"
| "opaque_comparisons te (MessageAggregate delta i fs) = sum_list (map (\<lambda>(f, e). opaque_comparisons te e) fs)"
| "opaque_comparisons te (CaseExpr e cs) =
     opaque_comparisons te e + sum_list (map (\<lambda>(c, x). opaque_comparisons te x) cs)"
| "opaque_comparisons te _ = 0"

section \<open>Validation of declarations\<close>

datatype typing_error =
    Checked statement_error
  | ShadowedDeclaration ident
  | UndefinedType ident
  | OpaqueVariable ident
  | IndefiniteParameter ident
  | InvalidParameterType ident
  | IndefiniteReturn ident
  | InvalidReturnType ident
  | OpaqueComparison

definition indefinite :: "machine_types \<Rightarrow> type_decl \<Rightarrow> bool" where
  "indefinite mt t = (case t of MessageDecl m u \<Rightarrow> \<not> mt_definite mt (decl_identifier t) | _ \<Rightarrow> False)"

definition scalar_or_message :: "type_decl \<Rightarrow> bool" where
  "scalar_or_message t = (scalar_size t \<noteq> None \<or> (case t of MessageDecl m u \<Rightarrow> True | _ \<Rightarrow> False))"

definition validate_function_parameter :: "machine_types \<Rightarrow> type_decl \<Rightarrow> typing_error list" where
  "validate_function_parameter mt t =
     (if indefinite mt t then [IndefiniteParameter (decl_identifier t)] else [])
     @ (if \<not> scalar_or_message t \<and> \<not> id_eq (decl_identifier t) (decl_identifier OpaqueDecl)
        then [InvalidParameterType (decl_identifier t)] else [])"

definition validate_function_return :: "machine_types \<Rightarrow> type_decl \<Rightarrow> typing_error list" where
  "validate_function_return mt t =
     (if indefinite mt t then [IndefiniteReturn (decl_identifier t)] else [])
     @ (if \<not> scalar_or_message t then [InvalidReturnType (decl_identifier t)] else [])"

definition validate_parameter ::
    "machine_types \<Rightarrow> ident \<times> ident \<times> ty \<Rightarrow> (ident \<times> ident \<times> ty) \<times> typing_error list" where
  "validate_parameter mt p =
     (case p of (i, ti, u) \<Rightarrow>
        (case resolve mt ti of
           Some t \<Rightarrow> ((i, ti, decl_type t), validate_function_parameter mt t)
         | None \<Rightarrow> ((i, ti, Any), [UndefinedType ti])))"

fun set_type :: "ty \<Rightarrow> decl \<Rightarrow> decl" where
  "set_type t (VariableDeclaration i ti e u) = VariableDeclaration i ti e t"
| "set_type t (RenamingDeclaration i ti e u) = RenamingDeclaration i ti e t"
| "set_type t (FunctionDeclaration i ps r u) = FunctionDeclaration i ps r t"
| "set_type t d = d"

text \<open>The name of the type; a channel has none.  That of a function is its return type.\<close>

fun type_identifier :: "decl \<Rightarrow> ident option" where
  "type_identifier (VariableDeclaration i ti e u) = Some ti"
| "type_identifier (RenamingDeclaration i ti e u) = Some ti"
| "type_identifier (FunctionDeclaration i ps r u) = Some r"
| "type_identifier (ChannelDeclaration i rd wr) = None"

fun declaration_expressions :: "decl \<Rightarrow> expr list" where
  "declaration_expressions (VariableDeclaration i ti (Some e) u) = [e]"
| "declaration_expressions (RenamingDeclaration i ti e u) = [e]"
| "declaration_expressions d = []"

fun finish_declaration :: "machine_types \<Rightarrow> decl \<Rightarrow> decl \<times> typing_error list" where
  "finish_declaration mt (VariableDeclaration i ti e u) =
     (VariableDeclaration i ti e u, if ty_eq u OPAQUE then [OpaqueVariable i] else [])"
| "finish_declaration mt (FunctionDeclaration i ps r u) =
     (let qs = map (validate_parameter mt) ps in
      (FunctionDeclaration i (map fst qs) r u,
       concat (map snd qs) @ (case resolve mt r of Some t \<Rightarrow> validate_function_return mt t | None \<Rightarrow> [])))"
| "finish_declaration mt d = (d, [])"

definition validate_declaration ::
    "machine_types \<Rightarrow> declarations \<Rightarrow> decl \<Rightarrow> (decl \<times> typing_error list) res" where
  "validate_declaration mt visible d =
     (case type_identifier d of
        None \<Rightarrow> Inr (d, [])
      | Some ti \<Rightarrow>
          bind_res
            (case resolve mt ti of
               Some t \<Rightarrow>
                 bind_res (typify mt visible (declaration_expressions d)) (\<lambda>u.
                 bind_res (check_declaration (tenv_of mt visible) (decl_type t) d) (\<lambda>(d', es).
                   Inr (d', map Checked es)))
             | None \<Rightarrow> Inr (set_type Any d, [UndefinedType ti]))
            (\<lambda>(d', es). Inr (fst (finish_declaration mt d'), es @ snd (finish_declaration mt d'))))"

primrec validate_declarations ::
    "machine_types \<Rightarrow> declarations \<Rightarrow> declarations \<Rightarrow> (declarations \<times> typing_error list) res" where
  "validate_declarations mt visible [] = Inr ([], [])"
| "validate_declarations mt visible (kd # ds) =
     bind_res (validate_declaration mt visible (snd kd)) (\<lambda>(d', es).
     bind_res (validate_declarations mt (id_set (fst kd) d' visible) ds) (\<lambda>(ds', es').
       Inr ((fst kd, d') # ds',
         (if id_lookup visible (fst kd) \<noteq> None then [ShadowedDeclaration (fst kd)] else []) @ es @ es')))"

section \<open>Validation of actions and transitions\<close>

fun assigned_expressions :: "statement \<Rightarrow> expr list" where
  "assigned_expressions (VariableAssignment i e t) = [e]"
| "assigned_expressions (MessageFieldAssignment m f e t) = [e]"
| "assigned_expressions s = stmt_parameters s"

definition comparison_errors :: "tenv \<Rightarrow> expr list \<Rightarrow> typing_error list" where
  "comparison_errors te es = replicate (sum_list (map (opaque_comparisons te) es)) OpaqueComparison"

definition validate_action ::
    "machine_types \<Rightarrow> declarations \<Rightarrow> statement \<Rightarrow> (statement \<times> typing_error list) res" where
  "validate_action mt ds a =
     bind_res (typify mt ds (statement_expressions a)) (\<lambda>u.
     bind_res (check_statement (tenv_of mt ds) (variable_type ds (stmt_identifier a)) a) (\<lambda>(a', es).
       Inr (a', map Checked es @ comparison_errors (tenv_of mt ds) (assigned_expressions a))))"

definition validate_transition ::
    "machine_types \<Rightarrow> declarations \<Rightarrow> machine_transition \<Rightarrow> typing_error list res" where
  "validate_transition mt ds t =
     bind_res (typify mt ds [tr_condition t]) (\<lambda>u.
     bind_res (check_expr (tenv_of mt ds) [BOOLEAN] (tr_condition t)) (\<lambda>es.
       Inr (map Checked (type_errors es) @ comparison_errors (tenv_of mt ds) [tr_condition t])))"

definition state_scope :: "declarations \<Rightarrow> state \<Rightarrow> declarations" where
  "state_scope globals s = merge_dicts globals (st_declarations s)"

definition validate_state ::
    "machine_types \<Rightarrow> declarations \<Rightarrow> state \<Rightarrow> (state \<times> typing_error list) res" where
  "validate_state mt globals s =
     bind_res (validate_declarations mt globals (st_declarations s)) (\<lambda>(ds, es).
       let scope = merge_dicts globals ds in
       bind_res (map_res (validate_action mt scope) (st_actions s)) (\<lambda>as.
       bind_res (map_res (validate_transition mt scope) (st_transitions s)) (\<lambda>ts.
         Inr (s\<lparr>st_declarations := ds, st_actions := map fst as\<rparr>, es @ concat (map snd as) @ concat ts))))"

definition validate_types ::
    "machine_types \<Rightarrow> machine \<Rightarrow> (declarations \<times> state list \<times> typing_error list) res" where
  "validate_types mt m =
     bind_res (validate_declarations mt [] (global_declarations m)) (\<lambda>(gs, es).
     bind_res (map_res (validate_state mt gs) (mc_states m)) (\<lambda>ss.
       Inr (gs, map fst ss, es @ concat (map snd ss))))"

section \<open>The types of accepted declarations\<close>

definition named_types :: "machine_types \<Rightarrow> bool" where
  "named_types mt = list_all (\<lambda>(i, t). is_named (decl_type t)) (mt_types mt)"

text \<open>A declaration has the type of its type identifier, unless it is a channel.\<close>

definition well_declared :: "decl \<Rightarrow> bool" where
  "well_declared d = (is_named (declared_type d) \<or> type_identifier d = None)"

lemma merge_dicts_values: "snd ` set (merge_dicts d e) \<subseteq> snd ` set d \<union> snd ` set e"
proof (induction e arbitrary: d)
  case (Cons kv e)
  obtain k v where kv: "kv = (k, v)" by (cases kv)
  have "snd ` set (merge_dicts (id_set k v d) e) \<subseteq> snd ` set (id_set k v d) \<union> snd ` set e"
    by (rule Cons.IH)
  then show ?case using id_set_values [of k v d] by (auto simp: merge_dicts_def kv)
qed (simp add: merge_dicts_def)

lemma resolve_named: "named_types mt \<Longrightarrow> resolve mt i = Some t \<Longrightarrow> is_named (decl_type t)"
  using id_lookup_value [of "mt_types mt"] by (fastforce simp: named_types_def resolve_def list_all_iff)

lemma finish_type [simp]: "declared_type (fst (finish_declaration mt d)) = declared_type d"
  by (cases "(mt, d)" rule: finish_declaration.cases) (auto simp: Let_def)

lemma checked_declaration_type:
  "check_declaration te t d = Inr (d', es) \<Longrightarrow> type_identifier d \<noteq> None \<Longrightarrow> declared_type d' = t"
  by (cases "(te, t, d)" rule: check_declaration.cases) (auto simp: bind_res_eq_Inr)

lemma validated_declaration:
  assumes "named_types mt" "validate_declaration mt visible d = Inr (d', [])"
  shows "well_declared d'"
proof (cases "type_identifier d")
  case None
  then show ?thesis using assms(2) by (auto simp: validate_declaration_def well_declared_def)
next
  case (Some ti)
  then show ?thesis
    using assms
    by (auto simp: validate_declaration_def bind_res_eq_Inr well_declared_def resolve_named
        dest!: checked_declaration_type split: option.splits)
qed

lemma validated_declarations:
  "named_types mt \<Longrightarrow> validate_declarations mt visible ds = Inr (ds', []) \<Longrightarrow> \<forall>d\<in>snd ` set ds'. well_declared d"
proof (induction ds arbitrary: visible ds')
  case (Cons kd ds)
  then obtain d' ds'' where "validate_declaration mt visible (snd kd) = Inr (d', [])"
      "validate_declarations mt (id_set (fst kd) d' visible) ds = Inr (ds'', [])" "ds' = (fst kd, d') # ds''"
    by (auto simp: bind_res_eq_Inr)
  then show ?case using Cons.IH Cons.prems(1) validated_declaration by auto
qed simp

lemma variable_type_cases:
  assumes "\<forall>d\<in>snd ` set ds. well_declared d"
  shows "is_named (variable_type ds i) \<or> variable_type ds i = Undefined \<or> (\<exists>rd wr. variable_type ds i = Channel rd wr)"
proof (cases "id_lookup ds i")
  case (Some d)
  then have "well_declared d" using bspec [OF assms id_lookup_value] by simp
  then show ?thesis
    unfolding variable_type_def Some by (cases d) (simp_all add: well_declared_def)
qed (simp add: variable_type_def)

section \<open>Accepted machines can be translated\<close>

fun assigned_variable :: "statement \<Rightarrow> ident option" where
  "assigned_variable (VariableAssignment i e t) = Some i"
| "assigned_variable _ = None"

definition channel_type :: "ty \<Rightarrow> bool" where
  "channel_type t = (case t of Channel rd wr \<Rightarrow> True | _ \<Rightarrow> False)"

lemma channel_type_Channel [simp]: "channel_type (Channel rd wr)"
  by (simp add: channel_type_def)

lemma checked_statement_type:
  assumes "check_statement te t s = Inr (s', [])" "\<not> is_channel_statement s"
  shows "t \<noteq> Undefined"
  using assms
  by (cases s)
    (auto simp: check_variable_assignment_def check_field_assignment_def check_append_def check_extend_def check_reset_def
      bind_res_eq_Inr check_type_instance_def split: prod.splits)

lemma checked_channel:
  assumes "check_statement te (Channel rd wr) s = Inr (s', [])" "\<not> is_channel_statement s"
  shows "assigned_variable s \<noteq> None"
  using assms
  by (cases s)
    (auto simp: check_field_assignment_def check_append_def check_extend_def check_reset_def bind_res_eq_Inr
      instance_message instance_sequence instance_reset split: prod.splits)

lemma validated_action:
  assumes "\<forall>d\<in>snd ` set ds. well_declared d" "validate_action mt ds a = Inr (a', [])"
    and "\<forall>e\<in>set (statement_expressions a). translatable (tenv_of mt ds) e"
    and "\<forall>i. assigned_variable a = Some i \<longrightarrow> \<not> channel_type (variable_type ds i)"
  shows "yields anything (statement_to_ir (typing_of (tenv_of mt ds)) a')"
proof -
  let ?t = "variable_type ds (stmt_identifier a)"
  have c: "check_statement (tenv_of mt ds) ?t a = Inr (a', [])"
    using assms(2) by (auto simp: validate_action_def bind_res_eq_Inr)
  have "is_named ?t \<or> is_channel_statement a"
  proof (rule disjCI)
    assume n: "\<not> is_channel_statement a"
    have "?t \<noteq> Channel rd wr" for rd wr
      using checked_channel [of _ rd wr a] c n assms(4) by (cases a) auto
    then show "is_named ?t"
      using variable_type_cases [OF assms(1), of "stmt_identifier a"] checked_statement_type [OF c n] by auto
  qed
  then show ?thesis by (rule statement_yields [OF c _ assms(3)])
qed

lemma validated_transition:
  assumes "validate_transition mt ds t = Inr []" "translatable (tenv_of mt ds) (tr_condition t)"
  shows "yields anything (transition_to_ir (typing_of (tenv_of mt ds)) t)"
proof -
  have "check_expr (tenv_of mt ds) [BOOLEAN] (tr_condition t) = Inr []"
    using assms(1) by (auto simp: validate_transition_def bind_res_eq_Inr)
  then obtain u where "check (tenv_of mt ds) (tr_condition t) = Inr (u, [])" "u \<noteq> Undefined"
    using check_expr_none check_type_none_defined by blast
  then show ?thesis
    unfolding transition_to_ir_def
    by (intro yields_bind [OF expression_yields] yields_return assms(2)) simp_all
qed

text \<open>
  The statements and conditions of an accepted machine for which the claim holds: expressions are translatable
  ones, and no channel is assigned, which the checks do not exclude (see \<open>channel_assignment_crashes\<close>).
\<close>

definition translatable_action :: "machine_types \<Rightarrow> declarations \<Rightarrow> statement \<Rightarrow> bool" where
  "translatable_action mt ds a =
     (list_all (translatable (tenv_of mt ds)) (statement_expressions a)
      \<and> (case assigned_variable a of Some i \<Rightarrow> \<not> channel_type (variable_type ds i) | None \<Rightarrow> True))"

definition translatable_state :: "machine_types \<Rightarrow> declarations \<Rightarrow> state \<Rightarrow> bool" where
  "translatable_state mt ds s =
     (list_all (translatable_action mt ds) (st_actions s)
      \<and> list_all (\<lambda>t. translatable (tenv_of mt ds) (tr_condition t)) (st_transitions s))"

lemma checked_statement_same:
  "check_statement te t s = Inr (s', es) \<Longrightarrow>
     statement_expressions s' = statement_expressions s \<and> assigned_variable s' = assigned_variable s"
  by (cases s)
    (auto simp: check_variable_assignment_def check_field_assignment_def check_append_def check_extend_def check_reset_def
      bind_res_eq_Inr split: prod.splits ty.splits)

lemma validated_action_same:
  "validate_action mt ds a = Inr (a', es) \<Longrightarrow> translatable_action mt ds a' = translatable_action mt ds a"
  by (auto simp: validate_action_def bind_res_eq_Inr translatable_action_def dest!: checked_statement_same)

lemma map_res_nil:
  "map_res f xs = Inr ys \<Longrightarrow> concat (map snd ys) = [] \<Longrightarrow> y \<in> fst ` set ys \<Longrightarrow> \<exists>x\<in>set xs. f x = Inr (y, [])"
proof (induction xs arbitrary: ys)
  case (Cons x xs)
  then obtain z zs where z: "f x = Inr z" and zs: "map_res f xs = Inr zs" and ys: "ys = z # zs"
    by (auto simp: bind_res_eq_Inr)
  have e: "snd z = []" "concat (map snd zs) = []" using Cons.prems(2) by (auto simp: ys)
  show ?case
  proof (cases "y = fst z")
    case True
    then have "f x = Inr (y, [])" using z e(1) by (cases z) simp
    then show ?thesis by simp
  next
    case False
    then have "y \<in> fst ` set zs" using Cons.prems(3) by (simp add: ys)
    then show ?thesis using Cons.IH [OF zs e(2)] by simp
  qed
qed simp

lemma map_res_concat_nil:
  "map_res f xs = Inr ys \<Longrightarrow> concat ys = [] \<Longrightarrow> x \<in> set xs \<Longrightarrow> f x = Inr []"
  by (induction xs arbitrary: ys) (auto simp: bind_res_eq_Inr)


definition sample_types :: machine_types where
  "sample_types =
     make_machine_types ''P''
       [IntegerDecl \<lparr>int_identifier = ''P::T'', int_first = 0, int_last = 255, int_size = 8\<rparr>] [] (\<lambda>i. []) (\<lambda>i. True)"

definition sample_state :: state where
  "sample_state =
     \<lparr>st_identifier = ''A'',
      st_transitions =
        [\<lparr>tr_target = ''null'', tr_condition = Relation Less (Variable ''X'') (Number 10 0), tr_description = None\<rparr>,
         \<lparr>tr_target = ''A'', tr_condition = TRUE, tr_description = None\<rparr>],
      st_exception = None,
      st_actions = [VariableAssignment ''X'' (MathBin Sub (Variable ''X'') (Number 1 0)) Undefined],
      st_declarations = [(''X'', VariableDeclaration ''X'' ''T'' (Some (Variable ''G'')) Undefined)],
      st_description = None\<rparr>"

definition typed_machine :: machine where
  "typed_machine =
     \<lparr>mc_identifier = ''P::S'', mc_states = [sample_state],
      mc_declarations = [(''G'', VariableDeclaration ''G'' ''P::T'' (Some (Number 20 0)) Undefined)], mc_parameters = []\<rparr>"

definition sample_globals :: declarations where
  "sample_globals = [(''G'', VariableDeclaration ''G'' ''P::T'' (Some (Number 20 0)) (Integer ''P::T'' (0, 255)))]"

definition sample_checked :: state where
  "sample_checked =
     sample_state
       \<lparr>st_declarations := [(''X'', VariableDeclaration ''X'' ''T'' (Some (Variable ''G'')) (Integer ''P::T'' (0, 255)))],
        st_actions :=
          [VariableAssignment ''X'' (MathBin Sub (Variable ''X'') (Number 1 0)) (Integer ''P::T'' (0, 255))]\<rparr>"


text \<open>The type checks accept the assignment of a channel to another, whose translation fails an assertion.\<close>

definition sample_channels :: declarations where
  "sample_channels = [(''C'', ChannelDeclaration ''C'' True True), (''D'', ChannelDeclaration ''D'' True True)]"

lemma channel_assignment_crashes:
  "validate_action sample_types sample_channels (VariableAssignment ''C'' (Variable ''D'') Undefined)
     = Inr (VariableAssignment ''C'' (Variable ''D'') (Channel True True), [])"
  "statement_to_ir (typing_of (tenv_of sample_types sample_channels))
     (VariableAssignment ''C'' (Variable ''D'') (Channel True True)) 0 = Inl AssertionError"
  by code_simp+

text \<open>A variable of an opaque type is rejected.\<close>

lemma opaque_rejected:
  "validate_declaration (make_machine_types ''P'' [OpaqueDecl] [] (\<lambda>i. []) (\<lambda>i. True)) []
     (VariableDeclaration ''X'' ''Opaque'' None Undefined)
     = Inr (VariableDeclaration ''X'' ''Opaque'' None OPAQUE, [OpaqueVariable ''X''])"
  by code_simp

end
