(* ===== verification/Machine_Optimize.thy ===== *)
theory Machine_Optimize
  imports Machine_Typing
begin

text \<open>
  The replacement of local messages by structures (\<open>State._optimize_structures\<close> in
  \<open>rflx/model/state_machine.py\<close>), which follows the type checks of a state machine.
\<close>

section \<open>Features that structures do not have\<close>

definition is_variable_named :: "ident \<Rightarrow> expr \<Rightarrow> bool" where
  "is_variable_named name e = (case e of Variable i \<Rightarrow> id_eq i name | _ \<Rightarrow> False)"

definition find_identifier :: "ident \<Rightarrow> expr \<Rightarrow> bool res" where
  "find_identifier name e = bind_res (findall (is_variable_named name) e) (\<lambda>es. Inr (es \<noteq> []))"

text \<open>
  An exception of \<open>find_identifier\<close> for the prefix of an attribute is also raised by the traversal itself,
  which then descends into the prefix.
\<close>

definition is_attribute_of :: "ident \<Rightarrow> expr \<Rightarrow> bool" where
  "is_attribute_of name e = (case e of Attribute a p \<Rightarrow> find_identifier name p = Inr True | _ \<Rightarrow> False)"

definition find_attribute_prefix :: "ident \<Rightarrow> expr \<Rightarrow> bool res" where
  "find_attribute_prefix name e = bind_res (findall (is_attribute_of name) e) (\<lambda>es. Inr (es \<noteq> []))"

definition or_res :: "bool \<Rightarrow> bool res \<Rightarrow> bool res" where
  "or_res b m = (if b then Inr True else m)"

fun contains_unsupported_feature :: "ident \<Rightarrow> statement \<Rightarrow> bool res" where
  "contains_unsupported_feature name (AppendTo i e t) =
     bind_res (find_identifier name e) (\<lambda>b. Inr (b \<or> id_eq i name))"
| "contains_unsupported_feature name (MessageFieldAssignment m f e t) =
     or_res (id_eq m name) (find_attribute_prefix name e)"
| "contains_unsupported_feature name (VariableAssignment i e t) =
     or_res (id_eq i name \<and> class_of e \<noteq> C_Call) (find_attribute_prefix name e)"
| "contains_unsupported_feature name s = Inr (id_eq (stmt_identifier s) name)"

section \<open>Optimization\<close>

fun as_structure :: "ty \<Rightarrow> ty" where
  "as_structure (Message i ps fs) = Structure i ps fs"
| "as_structure t = t"

definition optimize_declaration ::
    "machine_types \<Rightarrow> statement list \<Rightarrow> ident \<times> decl \<Rightarrow> (ident \<times> decl) res" where
  "optimize_declaration mt actions kd =
     (case kd of
        (name, VariableDeclaration i ti None (Message j ps fs)) \<Rightarrow>
          if mt_definite mt j then
            bind_res (any_res (contains_unsupported_feature name) actions) (\<lambda>b.
              Inr (if b then kd else (name, VariableDeclaration i ti None (Structure j ps fs))))
          else Inr kd
      | _ \<Rightarrow> Inr kd)"

definition optimize_structures :: "machine_types \<Rightarrow> state \<Rightarrow> state res" where
  "optimize_structures mt s =
     bind_res (map_res (optimize_declaration mt (st_actions s)) (st_declarations s)) (\<lambda>ds.
       Inr (s\<lparr>st_declarations := ds\<rparr>))"

text \<open>
  In the assignments and conditions of the state, variables and calls whose type has the identifier of
  such a structure get the type of the structure.
\<close>

definition new_structures :: "state \<Rightarrow> state \<Rightarrow> ident list" where
  "new_structures s s' =
     concat (map (\<lambda>((k, d), (k', d')).
       case (d, d') of
         (VariableDeclaration i ti e (Message j ps fs), VariableDeclaration i' ti' e' (Structure j' ps' fs')) \<Rightarrow> [j']
       | _ \<Rightarrow> [])
       (zip (st_declarations s) (st_declarations s')))"

definition replaced_type :: "ident list \<Rightarrow> ty \<Rightarrow> ty" where
  "replaced_type js t = (if is_message t \<and> list_ex (id_eq (type_name t)) js then as_structure t else t)"

definition replace_expression_types :: "ident list \<Rightarrow> tenv \<Rightarrow> tenv" where
  "replace_expression_types js te =
     te\<lparr>te_variable := replaced_type js \<circ> te_variable te,
        te_call := (\<lambda>i. (replaced_type js (fst (te_call te i)), snd (te_call te i)))\<rparr>"

section \<open>Only variables without unsupported features become structures\<close>

lemma optimize_declaration_cases:
  assumes "optimize_declaration mt as (k, d) = Inr kd'"
  shows "kd' = (k, d)
    \<or> (\<exists>i ti j ps fs. d = VariableDeclaration i ti None (Message j ps fs) \<and> mt_definite mt j
         \<and> any_res (contains_unsupported_feature k) as = Inr False
         \<and> kd' = (k, VariableDeclaration i ti None (Structure j ps fs)))"
  using assms
  by (auto simp: optimize_declaration_def bind_res_eq_Inr split: decl.splits option.splits ty.splits if_splits)

lemma optimize_declaration_again:
  assumes "optimize_declaration mt as kd = Inr kd'"
  shows "optimize_declaration mt as kd' = Inr kd'"
proof -
  obtain k d where kd: "kd = (k, d)" by (cases kd)
  show ?thesis
    using optimize_declaration_cases [OF assms [unfolded kd]]
  proof
    assume "kd' = (k, d)"
    then show ?thesis using assms kd by simp
  qed (auto simp: optimize_declaration_def)
qed

lemma map_res_again: "(\<And>x y. f x = Inr y \<Longrightarrow> f y = Inr y) \<Longrightarrow> map_res f xs = Inr ys \<Longrightarrow> map_res f ys = Inr ys"
  by (induction xs arbitrary: ys) (auto simp: bind_res_eq_Inr)

theorem optimize_structures_idempotent:
  "optimize_structures mt s = Inr s' \<Longrightarrow> optimize_structures mt s' = Inr s'"
  using map_res_again [OF optimize_declaration_again]
  by (fastforce simp: optimize_structures_def bind_res_eq_Inr)

section \<open>Variables that are not optimized\<close>

text \<open>
  The types of expressions are replaced by the identifier of the type alone: a variable of the same type that
  uses unsupported features, and remains a message, becomes a structure in the expressions.
\<close>

definition two_messages :: state where
  "two_messages =
     \<lparr>st_identifier = ''A'', st_transitions = [], st_exception = None,
      st_actions =
        [VariableAssignment ''X'' (Call ''F'' []) Undefined,
         VariableAssignment ''V'' (Attribute Valid (Variable ''Y'')) Undefined],
      st_declarations =
        [(''X'', VariableDeclaration ''X'' ''P::M'' None (Message ''P::M'' [] [])),
         (''Y'', VariableDeclaration ''Y'' ''P::M'' None (Message ''P::M'' [] []))],
      st_description = None\<rparr>"

definition optimized_messages :: state where
  "optimized_messages =
     two_messages
       \<lparr>st_declarations :=
          [(''X'', VariableDeclaration ''X'' ''P::M'' None (Structure ''P::M'' [] [])),
           (''Y'', VariableDeclaration ''Y'' ''P::M'' None (Message ''P::M'' [] []))]\<rparr>"

lemma message_typed_as_structure:
  "optimize_structures sample_types two_messages = Inr optimized_messages"
  "typing_of
     (replace_expression_types (new_structures two_messages optimized_messages)
       (tenv_of sample_types (st_declarations two_messages))) (Variable ''Y'') = Structure ''P::M'' [] []"
  by code_simp+

text \<open>An attribute inside of a comprehension is not found.\<close>

lemma attribute_in_comprehension:
  "contains_unsupported_feature ''X''
     (VariableAssignment ''S''
       (Comprehension ''E'' (Variable ''L'') (Variable ''E'') (Attribute Valid (Variable ''X''))) Undefined) = Inr False"
  by code_simp

end
