(* ===== verification/Type_Value.thy ===== *)
theory Type_Value
  imports Bitstring Message_Model
begin

text \<open>
  Values of types (\<open>rflx/pyrflx/typevalue.py\<close>): integers, enumerations, opaque data and sequences of scalars, with
  the assignment and the parsing of values and their encoding as bits.
\<close>

section \<open>Values\<close>

text \<open>
  An enumeration may be imported from another package; opaque data and sequences have an expected size, which is
  an expression.  A value that was not set is \<open>None\<close>, only a sequence is empty at first.
\<close>

datatype type_value =
    IntegerValue integer_decl "int option"
  | EnumValue enum_decl bool "(ident \<times> int) option"
  | OpaqueValue "expr option" "byte list option"
  | SequenceValue ident type_decl "expr option" "type_value list"

fun initialized :: "type_value \<Rightarrow> bool" where
  "initialized (IntegerValue d v) = (v \<noteq> None)"
| "initialized (EnumValue d imported v) = (v \<noteq> None)"
| "initialized (OpaqueValue es v) = (v \<noteq> None)"
| "initialized (SequenceValue i t es vs) = True"

text \<open>The value is set to \<open>None\<close>, a sequence without a value is not used any more.\<close>

fun clear :: "type_value \<Rightarrow> type_value" where
  "clear (IntegerValue d v) = IntegerValue d None"
| "clear (EnumValue d imported v) = EnumValue d imported None"
| "clear (OpaqueValue es v) = OpaqueValue es None"
| "clear (SequenceValue i t es vs) = SequenceValue i t es []"

fun construct :: "type_decl \<Rightarrow> bool \<Rightarrow> type_value res" where
  "construct (IntegerDecl d) imported = Inr (IntegerValue d None)"
| "construct (EnumDecl d) imported = Inr (EnumValue d imported None)"
| "construct OpaqueDecl imported = Inr (OpaqueValue None None)"
| "construct (SequenceDecl i t) imported = Inr (SequenceValue i t None [])"
| "construct (MessageDecl m t) imported = Inl NotImplementedError"

text \<open>Data is given as bits or as bytes.\<close>

datatype data = Bits bits | Bytes "byte list"

fun data_bits :: "data \<Rightarrow> bits res" where
  "data_bits (Bits b) = Inr b"
| "data_bits (Bytes bs) = from_bytes bs"

fun data_bytes :: "data \<Rightarrow> byte list" where
  "data_bytes (Bits b) = bits_bytes b"
| "data_bytes (Bytes bs) = bs"

fun data_size :: "data \<Rightarrow> int" where
  "data_size (Bits b) = int (length b)"
| "data_size (Bytes bs) = 8 * int (length bs)"

text \<open>ASCII upper case.\<close>

definition upper :: "string \<Rightarrow> string" where
  "upper s = map (\<lambda>c. if 97 \<le> char_code c \<and> char_code c \<le> 122 then char_of (char_code c - 32) else c) s"

definition pyrflx_error :: "string \<Rightarrow> py_error" where
  "pyrflx_error s = PyRFLXError [s]"

definition not_initialized :: py_error where
  "not_initialized = pyrflx_error ''value not initialized''"

text \<open>A number in binary notation with leading zeros, which has a sign if the number is negative.\<close>

definition number_bits :: "int \<Rightarrow> int \<Rightarrow> bits res" where
  "number_bits sz v = (if v < 0 then Inl bitstring_error else bitstring (format_bin (nat sz) (nat v)))"

section \<open>Constraints on scalar values\<close>

abbreviation value_name :: ident where
  "value_name \<equiv> ''__VALUE__''"

definition meets :: "expr list \<Rightarrow> (expr \<times> expr) list \<Rightarrow> bool res" where
  "meets cs m =
     bind_res (substituted (Suc (weight (Ass And cs))) (substitution m) (Ass And cs)) (\<lambda>e.
     bind_res (simplified e) (\<lambda>r. Inr (is_TRUE r)))"

section \<open>Integers\<close>

definition integer_accepts :: "integer_decl \<Rightarrow> int \<Rightarrow> bool res" where
  "integer_accepts d v =
     bind_res (mk_number v) (\<lambda>n.
       meets (integer_constraints d value_name)
         [(Variable value_name, n), (size_of value_name, Number (int_size d) 0)])"

definition assign_integer :: "integer_decl \<Rightarrow> bool \<Rightarrow> int \<Rightarrow> type_value res" where
  "assign_integer d check v =
     bind_res (if check then integer_accepts d v else Inr True) (\<lambda>ok.
       if ok then Inr (IntegerValue d (Some v)) else Inl (pyrflx_error ''value not in type range''))"

definition parse_integer :: "integer_decl \<Rightarrow> bool \<Rightarrow> bits \<Rightarrow> type_value res" where
  "parse_integer d check b = bind_res (bits_int b) (\<lambda>n. assign_integer d check (int n))"

section \<open>Enumerations\<close>

definition is_builtin_enum :: "enum_decl \<Rightarrow> bool" where
  "is_builtin_enum d = id_eq (package_of (enum_identifier d)) BUILTINS_PACKAGE"

definition qualified_literal :: "enum_decl \<Rightarrow> ident \<Rightarrow> ident" where
  "qualified_literal d l = id_join (package_of (enum_identifier d)) l"

fun add_value_literals :: "enum_decl \<Rightarrow> bool \<Rightarrow> (ident \<times> int) list \<Rightarrow> (expr \<times> expr) list \<Rightarrow> (expr \<times> expr) list res" where
  "add_value_literals d imported [] t = Inr t"
| "add_value_literals d imported ((l, v) # ls) t =
     bind_res (if is_builtin_enum d \<or> \<not> imported then put_expr (Literal l) (Number v 0) t else Inr t) (\<lambda>t.
     bind_res (if \<not> is_builtin_enum d then put_expr (Literal (qualified_literal d l)) (Number v 0) t else Inr t) (\<lambda>t.
       add_value_literals d imported ls t))"

definition value_literals :: "enum_decl \<Rightarrow> bool \<Rightarrow> (expr \<times> expr) list res" where
  "value_literals d imported = add_value_literals d imported (enum_literals d) []"

text \<open>A name that starts with the name of the package is taken for a qualified one.\<close>

definition value_literal :: "enum_decl \<Rightarrow> string \<Rightarrow> ident res" where
  "value_literal d s =
     (if take (length (package_of (enum_identifier d))) s = package_of (enum_identifier d) \<or> is_builtin_enum d
      then id_new s else id_new (qualified_literal d s))"

definition assign_enum :: "enum_decl \<Rightarrow> bool \<Rightarrow> bool \<Rightarrow> string \<Rightarrow> type_value res" where
  "assign_enum d imported check s =
     bind_res (value_literals d imported) (\<lambda>t.
     bind_res (value_literal d s) (\<lambda>l.
     bind_res (any_res (key_eq (Literal l)) (map fst t)) (\<lambda>known.
       if \<not> known then Inl (pyrflx_error ''not a valid enum value'')
       else
         (case id_lookup (enum_literals d) (id_name l) of
            None \<Rightarrow> Inl (KeyError (id_name l))
          | Some v \<Rightarrow>
              bind_res
                (if check then
                   bind_res (put_expr (Variable value_name) (Number v 0) t) (\<lambda>m.
                   bind_res (put_expr (size_of value_name) (Number (enum_size d) 0) m) (\<lambda>m.
                     meets (enumeration_constraints d value_name False (\<not> imported)) m))
                 else Inr True)
                (\<lambda>ok. assert_res ok (Inr (EnumValue d imported (Some (l, v)))))))))"

fun literal_identifier :: "expr \<Rightarrow> ident res" where
  "literal_identifier (Literal i) = Inr i"
| "literal_identifier _ = Inl AssertionError"

text \<open>The last of the literals with the value is the one that is kept.\<close>

definition parse_enum :: "enum_decl \<Rightarrow> bool \<Rightarrow> bits \<Rightarrow> type_value res" where
  "parse_enum d imported b =
     bind_res (bits_int b) (\<lambda>n.
     bind_res (mk_number (int n)) (\<lambda>e.
     bind_res (value_literals d imported) (\<lambda>t.
       case rev (filter (\<lambda>(k, v). number_value v = Some (int n)) t) of
         (k, v) # _ \<Rightarrow> bind_res (literal_identifier k) (\<lambda>i. Inr (EnumValue d imported (Some (i, int n))))
       | [] \<Rightarrow>
           if always_valid d
           then Inr (EnumValue d imported (Some (''RFLX_UNKNOWN_'' @ upper (id_name (enum_identifier d)), int n)))
           else Inl (pyrflx_error ''not a valid enum value''))))"

section \<open>Encoding\<close>

definition opaque_bits :: "byte list \<Rightarrow> bits res" where
  "opaque_bits bs = (if bs = [] then Inr [] else from_bytes bs)"

fun value_bits :: "type_value \<Rightarrow> bits res" where
  "value_bits (IntegerValue d v) =
     (case v of None \<Rightarrow> Inl not_initialized | Some n \<Rightarrow> number_bits (int_size d) n)"
| "value_bits (EnumValue d imported v) =
     (case v of None \<Rightarrow> Inl not_initialized | Some (l, n) \<Rightarrow> number_bits (enum_size d) n)"
| "value_bits (OpaqueValue es v) = (case v of None \<Rightarrow> Inl not_initialized | Some bs \<Rightarrow> opaque_bits bs)"
| "value_bits (SequenceValue i t es vs) =
     bind_res (map_res (\<lambda>v. value_bits v) vs) (\<lambda>bs. Inr (join_bits bs))"

section \<open>Opaque data and sequences\<close>

definition check_expected :: "expr option \<Rightarrow> int \<Rightarrow> unit res" where
  "check_expected es n =
     (case es of
        Some (Number m b) \<Rightarrow> if n \<noteq> m then Inl (pyrflx_error ''invalid data size'') else Inr ()
      | _ \<Rightarrow> Inr ())"

definition parse_opaque :: "expr option \<Rightarrow> bool \<Rightarrow> data \<Rightarrow> type_value res" where
  "parse_opaque es check d =
     bind_res (if check then check_expected es (data_size d) else Inr ()) (\<lambda>u.
       Inr (OpaqueValue es (Some (data_bytes d))))"

definition parse_scalar :: "type_decl \<Rightarrow> bool \<Rightarrow> bool \<Rightarrow> bits \<Rightarrow> type_value res" where
  "parse_scalar t imported check b =
     (case t of
        IntegerDecl d \<Rightarrow> parse_integer d check b
      | EnumDecl d \<Rightarrow> parse_enum d imported b
      | _ \<Rightarrow> Inl AssertionError)"

text \<open>The elements are cut off one after the other; an element without bits is refused when it is parsed.\<close>

fun parse_elements :: "nat \<Rightarrow> type_decl \<Rightarrow> bool \<Rightarrow> bool \<Rightarrow> nat \<Rightarrow> bits \<Rightarrow> type_value list res" where
  "parse_elements 0 t imported check sz b = Inl OutOfFuel"
| "parse_elements (Suc n) t imported check sz b =
     (if b = [] then Inr []
      else
        bind_res (parse_scalar t imported check (take sz b)) (\<lambda>v.
        bind_res (parse_elements n t imported check sz (drop sz b)) (\<lambda>vs. Inr (v # vs))))"

definition imported_element :: "ident \<Rightarrow> type_decl \<Rightarrow> bool" where
  "imported_element i t = (\<not> id_eq (package_of (decl_identifier t)) (package_of i))"

definition parse_sequence :: "ident \<Rightarrow> type_decl \<Rightarrow> expr option \<Rightarrow> bool \<Rightarrow> data \<Rightarrow> type_value res" where
  "parse_sequence i t es check d =
     bind_res (check_expected es (data_size d)) (\<lambda>u.
     bind_res (data_bits d) (\<lambda>b.
       case scalar_size t of
         None \<Rightarrow> Inl AssertionError
       | Some sz \<Rightarrow>
           bind_res (parse_elements (Suc (length b)) t (imported_element i t) check (nat sz) b) (\<lambda>vs.
             Inr (SequenceValue i t es vs))))"

text \<open>Integer types are equal as far as elements are concerned, and so are the types of any other kind.\<close>

fun equal_type :: "type_value \<Rightarrow> type_decl \<Rightarrow> bool" where
  "equal_type (IntegerValue d v) (IntegerDecl d') = True"
| "equal_type (EnumValue d imported v) (EnumDecl d') = True"
| "equal_type (OpaqueValue es v) OpaqueDecl = True"
| "equal_type (SequenceValue i t es vs) (SequenceDecl i' t') = True"
| "equal_type v t = False"

definition assign_sequence :: "ident \<Rightarrow> type_decl \<Rightarrow> expr option \<Rightarrow> bool \<Rightarrow> type_value list \<Rightarrow> type_value res" where
  "assign_sequence i t es check vs =
     bind_res
       (if check then bind_res (value_bits (SequenceValue i t es vs)) (\<lambda>b. check_expected es (int (length b)))
        else Inr ())
       (\<lambda>u. if list_all (\<lambda>v. equal_type v t) vs then Inr (SequenceValue i t es vs)
         else Inl (pyrflx_error ''cannot assign to a sequence''))"

section \<open>All values\<close>

fun parse_value :: "type_value \<Rightarrow> bool \<Rightarrow> data \<Rightarrow> type_value res" where
  "parse_value (IntegerValue d v) check x = bind_res (data_bits x) (parse_integer d check)"
| "parse_value (EnumValue d imported v) check x = bind_res (data_bits x) (parse_enum d imported)"
| "parse_value (OpaqueValue es v) check x = parse_opaque es check x"
| "parse_value (SequenceValue i t es vs) check x = parse_sequence i t es check x"

text \<open>The size of a value as an expression; a sequence without elements has the expected size.\<close>

fun value_size :: "type_value \<Rightarrow> expr res" where
  "value_size (IntegerValue d v) = Inr (Number (int_size d) 0)"
| "value_size (EnumValue d imported v) = Inr (Number (enum_size d) 0)"
| "value_size (OpaqueValue es v) =
     (case v of
        None \<Rightarrow> Inr (case es of None \<Rightarrow> UndefinedExpr | Some e \<Rightarrow> e)
      | Some bs \<Rightarrow> mk_number (8 * int (length bs)))"
| "value_size (SequenceValue i t es vs) =
     (if vs = [] then Inr (case es of None \<Rightarrow> UndefinedExpr | Some e \<Rightarrow> e)
      else bind_res (value_bits (SequenceValue i t es vs)) (\<lambda>b. mk_number (int (length b))))"

end
