(* ===== verification/Value_Laws.thy ===== *)
theory Value_Laws
  imports Type_Value
begin

text \<open>
  Laws of values: what is parsed is encoded as it was, integers are accepted exactly within their range, and the
  checks of enumeration values cannot fail.
\<close>

section \<open>Conditions without variables\<close>

text \<open>An expression that simplifies to a truth value, with any fuel above a bound.\<close>

definition simplifies_to :: "nat \<Rightarrow> expr \<Rightarrow> bool \<Rightarrow> bool" where
  "simplifies_to k e b \<longleftrightarrow> (\<forall>n\<ge>k. simp_expr n e = Inr (bool_expr b))"

lemma is_TRUE_bool_expr [simp]: "is_TRUE (bool_expr b) = b" "is_FALSE (bool_expr b) = (\<not> b)"
  by (simp_all add: bool_expr_def is_TRUE_def is_FALSE_def id_eq_def lower_def lower_char_def)

lemma relation_simplifies:
  assumes "r \<noteq> In" "r \<noteq> NotIn"
  shows "simplifies_to 2 (Relation r (Number a b) (Number c d)) (compare_with r a c)"
proof -
  have "simplify_relation r (Number a b) (Number c d) = Inr (bool_expr (compare_with r a c))"
    using assms by (cases r) (auto simp: simplify_relation_def expr_eq.simps bool_expr_def is_literal_def is_aggregate_def)
  then show ?thesis
    using assms by (auto simp: simplifies_to_def numeral_2_eq_2 Suc_le_eq dest!: less_imp_Suc_add gr0_implies_Suc)
qed

definition combine :: "ass_op \<Rightarrow> bool \<Rightarrow> bool list \<Rightarrow> bool" where
  "combine op b bs = (if op = And then b \<and> list_all id bs else b \<or> list_ex id bs)"

lemma collect_truth_values:
  assumes "op = And \<or> op = Or"
  shows "list_all2 (simplifies_to k) ts bs \<Longrightarrow> k + length ts < n \<Longrightarrow>
    collect_terms n op ts (if b then 1 else 0) [] = Inr (if combine op b bs then 1 else 0, [])"
proof (induction ts arbitrary: n b bs)
  case Nil
  then obtain n' where "n = Suc n'" by (cases n) auto
  then show ?case using Nil assms by (auto simp: combine_def)
next
  case (Cons t ts)
  from Cons.prems(2) obtain n' where n: "n = Suc n'" "k \<le> n'" "k + length ts < n'" by (cases n) auto
  from Cons.prems(1) obtain c cs where bs: "bs = c # cs" "simplifies_to k t c" "list_all2 (simplifies_to k) ts cs"
    by (auto simp: list_all2_Cons1)
  have t: "simp_expr n' t = Inr (bool_expr c)" using bs(2) n(2) by (simp add: simplifies_to_def)
  have "collect_terms n op (t # ts) (if b then 1 else 0) [] =
      collect_terms n' op ts (if combine op b [c] then 1 else 0) []"
    using assms t n by (cases c; cases b) (auto simp: combine_def)
  also have "\<dots> = Inr (if combine op (combine op b [c]) cs then 1 else 0, [])"
    by (rule Cons.IH [OF bs(3) n(3)])
  finally show ?case using bs(1) by (simp add: combine_def)
qed

lemma ass_simplifies:
  assumes "op = And \<or> op = Or" "list_all2 (simplifies_to k) ts bs"
  shows "simplifies_to (k + length ts + 2) (Ass op ts) (combine op (op = And) bs)"
  unfolding simplifies_to_def
proof (intro allI impI)
  fix n assume "k + length ts + 2 \<le> n"
  then obtain n' where n: "n = Suc n'" "k + length ts < n'" by (cases n) auto
  have "neutral_element op = (if op = And then 1 else 0)" using assms(1) by auto
  then have c: "collect_terms n' op ts (neutral_element op) [] = Inr (if combine op (op = And) bs then 1 else 0, [])"
    using collect_truth_values [OF assms n(2), of "op = And"] by simp
  show "simp_expr n (Ass op ts) = Inr (bool_expr (combine op (op = And) bs))"
    using assms(1) c n
    by (auto simp: finish_ass_def is_bool_op_def simplify_boolean_def assemble_def bool_expr_def Let_def)
qed

lemma simplified_truth: "simplifies_to k e b \<Longrightarrow> k \<le> Suc (weight e) \<Longrightarrow> simplified e = Inr (bool_expr b)"
  by (simp add: simplified_def simplifies_to_def)

section \<open>Integers\<close>

lemma substituted_integer_constraints:
  "substituted (Suc (weight (Ass And (integer_constraints d value_name))))
     (substitution [(Variable value_name, n), (size_of value_name, Number (int_size d) 0)])
     (Ass And (integer_constraints d value_name))
   = Inr (Ass And [Relation GreaterEqual n (Number (int_first d) 0), Relation LessEqual n (Number (int_last d) 0),
       Relation Equal (Number (int_size d) 0) (Number (int_size d) 0)])"
  by (simp add: integer_constraints_def size_of_def eval_nat_numeral key_eq_def subst_bin_def subst_attribute_def
      expr_eq.simps expr_str.simps is_subclass_def)

lemma integer_accepts_iff:
  assumes "- (2 ^ 127) \<le> v" "v < 2 ^ 127"
  shows "integer_accepts d v = Inr (int_first d \<le> v \<and> v \<le> int_last d)"
proof -
  let ?ts = "[Relation GreaterEqual (Number v 0) (Number (int_first d) 0), Relation LessEqual (Number v 0) (Number (int_last d) 0),
      Relation Equal (Number (int_size d) 0) (Number (int_size d) 0)]"
  have "simplifies_to (2 + length ?ts + 2) (Ass And ?ts)
      (combine And (And = And) [int_first d \<le> v, v \<le> int_last d, True])"
    by (rule ass_simplifies) (use relation_simplifies [of _ v 0 _ 0] relation_simplifies [of Equal "int_size d" 0 "int_size d" 0]
       in \<open>auto simp: simplifies_to_def\<close>)
  then have "simplified (Ass And ?ts) = Inr (bool_expr (int_first d \<le> v \<and> v \<le> int_last d))"
    by (rule simplified_truth [THEN trans]) (simp_all add: combine_def)
  then show ?thesis
    unfolding integer_accepts_def meets_def substituted_integer_constraints using assms by (simp add: mk_number_def)
qed

section \<open>Encoding\<close>

lemma number_bits_of:
  assumes "valid_bitstring b" "b \<noteq> []"
  shows "number_bits (int (length b)) (int (bits_val b)) = Inr b"
proof -
  have "length (format_bin (length b) (bits_val b)) = length b"
    by (rule format_bin_length) (use assms bits_val_less in auto)
  then have "format_bin (length b) (bits_val b) = b"
    using assms format_bin_valid by (intro bits_val_inj) simp_all
  then show ?thesis using assms by (simp add: number_bits_def bitstring_def)
qed

text \<open>The data has the size of a value of the type.\<close>

fun well_sized :: "type_value \<Rightarrow> bits \<Rightarrow> bool" where
  "well_sized (IntegerValue d v) b = (int (length b) = int_size d)"
| "well_sized (EnumValue d imported v) b = (int (length b) = enum_size d)"
| "well_sized (OpaqueValue es v) b = (length b mod 8 = 0)"
| "well_sized (SequenceValue i t es vs) b = (\<exists>n. scalar_size t = Some (int n) \<and> length b mod n = 0)"

lemma parse_integer_bits:
  assumes "parse_integer d check b = Inr v" "int (length b) = int_size d" "valid_bitstring b"
  shows "value_bits v = Inr b"
  using assms number_bits_of [OF assms(3)]
  by (auto simp: parse_integer_def assign_integer_def bits_int_def bind_res_eq_Inr split: if_splits)

lemma parse_enum_bits:
  assumes "parse_enum d imported b = Inr v" "int (length b) = enum_size d" "valid_bitstring b"
  shows "value_bits v = Inr b"
proof -
  from assms(1) obtain t where b: "b \<noteq> []" and
    t: "(case rev (filter (\<lambda>(k, v). number_value v = Some (int (bits_val b))) t) of
         (k, v) # _ \<Rightarrow> bind_res (literal_identifier k) (\<lambda>i. Inr (EnumValue d imported (Some (i, int (bits_val b)))))
       | [] \<Rightarrow>
           if always_valid d
           then Inr (EnumValue d imported (Some (''RFLX_UNKNOWN_'' @ upper (id_name (enum_identifier d)), int (bits_val b))))
           else Inl (pyrflx_error ''not a valid enum value'')) = Inr v"
    unfolding parse_enum_def bits_int_def bind_res_eq_Inr by (auto split: if_splits)
  then obtain l where "v = EnumValue d imported (Some (l, int (bits_val b)))"
    by (cases "rev (filter (\<lambda>(k, v). number_value v = Some (int (bits_val b))) t)")
      (auto simp: bind_res_eq_Inr simp del: rev_is_Nil_conv split: if_splits)
  then show ?thesis using number_bits_of [OF assms(3) b] assms(2) by simp
qed

lemma parse_scalar_bits:
  assumes "parse_scalar t imported check b = Inr v" "scalar_size t = Some (int (length b))" "valid_bitstring b"
  shows "value_bits v = Inr b"
  using assms parse_integer_bits parse_enum_bits by (auto simp: parse_scalar_def split: type_decl.splits)

lemma parse_scalar_Nil: "parse_scalar t imported check [] \<noteq> Inr v" "parse_scalar t imported check [] \<noteq> Inl OutOfFuel"
  by (auto simp: parse_scalar_def parse_integer_def parse_enum_def bits_int_def split: type_decl.splits)

lemma join_bits_concat: "join_bits bs = concat bs"
proof -
  have "foldl (@) a bs = a @ concat bs" for a by (induction bs arbitrary: a) simp_all
  then show ?thesis by (simp add: join_bits_def)
qed

lemma parse_elements_bits:
  assumes "scalar_size t = Some (int sz)"
  shows "parse_elements n t imported check sz b = Inr vs \<Longrightarrow> length b mod sz = 0 \<Longrightarrow> valid_bitstring b
    \<Longrightarrow> bind_res (map_res value_bits vs) (\<lambda>bs. Inr (join_bits bs)) = Inr b"
proof (induction n arbitrary: b vs)
  case (Suc n)
  show ?case
  proof (cases "b = []")
    case True
    then show ?thesis using Suc.prems by (simp add: join_bits_concat)
  next
    case False
    with Suc.prems(1) obtain v ws where v: "parse_scalar t imported check (take sz b) = Inr v"
        "parse_elements n t imported check sz (drop sz b) = Inr ws" "vs = v # ws"
      by (auto simp: bind_res_eq_Inr)
    have "sz \<le> length b"
      using False Suc.prems(2) by (metis dvd_imp_le length_greater_0_conv mod_0_imp_dvd)
    then have "length (take sz b) = sz" "length (drop sz b) mod sz = 0"
      using Suc.prems(2) by (simp_all add: le_mod_geq)
    then show ?thesis
      using Suc.IH [OF v(2)] parse_scalar_bits [OF v(1)] assms v(3) Suc.prems(3) valid_take_drop
      by (auto simp: bind_res_eq_Inr join_bits_concat)
  qed
qed simp

lemma parse_elements_fuel:
  "length b < n \<Longrightarrow> parse_elements n t imported check sz b \<noteq> Inl OutOfFuel"
  if "\<And>c. parse_scalar t imported check c \<noteq> Inl OutOfFuel"
proof (induction n arbitrary: b)
  case (Suc n)
  show ?case
  proof (cases "b = [] \<or> sz = 0")
    case True
    then show ?thesis using parse_scalar_Nil that by (auto simp: bind_res_eq_Inl)
  next
    case False
    then have "length (drop sz b) < n" using Suc.prems by (cases b) auto
    then show ?thesis using Suc.IH that by (auto simp: bind_res_eq_Inl)
  qed
qed simp

section \<open>Bytes\<close>

lemma bytes_of_bits:
  "length b mod 8 = 0 \<Longrightarrow> valid_bitstring b \<Longrightarrow> length b = 8 * length (bits_bytes b) \<and> bytes_val (bits_bytes b) = bits_val b"
proof (induction "length b" arbitrary: b rule: less_induct)
  case less
  show ?case
  proof (cases "b = []")
    case False
    define a c where "a = take (length b - 8) b" and "c = drop (length b - 8) b"
    from False less.prems(1) have "8 \<le> length b"
      by (metis dvd_imp_le length_greater_0_conv mod_0_imp_dvd)
    then have b: "b = a @ c" "length c = 8" "length a < length b" "length a mod 8 = 0"
      using less.prems(1) by (auto simp: a_def c_def le_mod_geq)
    then have v: "valid_bitstring a" "valid_bitstring c" using less.prems(2) valid_parts by metis+
    have "bits_val c < 256" using bits_val_less [of c] b(2) by simp
    then have "unat (word_of_nat (bits_val c) :: byte) = bits_val c"
      by (simp add: unat_of_nat)
    then show ?thesis
      using less.hyps [OF b(3) b(4) v(1)] bits_bytes_snoc [OF b(4,2)] b(1,2)
      by (simp add: bytes_val_snoc bits_val_append)
  qed (simp add: bytes_val_def)
qed

lemma opaque_bits_of:
  assumes "length b mod 8 = 0" "valid_bitstring b"
  shows "opaque_bits (bits_bytes b) = Inr b"
proof (cases "b = []")
  case False
  note b = bytes_of_bits [OF assms]
  then have "format_bin (8 * length (bits_bytes b)) (bytes_val (bits_bytes b)) = b"
    using False assms(2) number_bits_of [OF assms(2) False] format_bin_valid
    by (simp add: number_bits_def bitstring_def nat_mult_distrib split: if_splits)
  then show ?thesis
    using False b assms(2) by (auto simp: opaque_bits_def from_bytes_def bitstring_def)
qed (simp add: opaque_bits_def)

section \<open>Properties\<close>


definition port_decl :: integer_decl where
  "port_decl = \<lparr>int_identifier = ''P::Port'', int_first = 1, int_last = 200, int_size = 8\<rparr>"


text \<open>
  An integer is accepted exactly within the range of its type, is encoded with the size of the type, and is read
  back from these bits.
\<close>

theorem integer_value_correct:
  assumes "0 \<le> int_first d" "int_last d < 2 ^ nat (int_size d)" "0 < int_size d" "int_size d \<le> 63"
    and "- (2 ^ 127) \<le> v" "v < 2 ^ 127"
  shows "if int_first d \<le> v \<and> v \<le> int_last d
    then assign_integer d True v = Inr (IntegerValue d (Some v))
      \<and> (\<exists>b. value_bits (IntegerValue d (Some v)) = Inr b \<and> int (length b) = int_size d
          \<and> parse_integer d True b = Inr (IntegerValue d (Some v)))
    else assign_integer d True v = Inl (pyrflx_error ''value not in type range'')"
proof (cases "int_first d \<le> v \<and> v \<le> int_last d")
  case True
  let ?b = "format_bin (nat (int_size d)) (nat v)"
  have v: "0 \<le> v" "v < 2 ^ nat (int_size d)" using True assms(1,2) by auto
  have "nat v < 2 ^ nat (int_size d)" using v by (simp add: nat_less_iff)
  then have len: "length ?b = nat (int_size d)" using assms(3) by (intro format_bin_length) simp_all
  then have "?b \<noteq> []" using assms(3) by auto
  then have "parse_integer d True ?b = assign_integer d True v"
    using v(1) by (simp add: parse_integer_def bits_int_def)
  then show ?thesis
    using True v len assms(3) integer_accepts_iff [OF assms(5,6), of d] format_bin_valid
    by (simp add: assign_integer_def number_bits_def bitstring_def)
next
  case False
  then show ?thesis using integer_accepts_iff [OF assms(5,6), of d] by (auto simp: assign_integer_def)
qed

theorem integer_value_correct_witness:
  "assign_integer port_decl True 200 = Inr (IntegerValue port_decl (Some 200))
   \<and> (\<exists>b. value_bits (IntegerValue port_decl (Some 200)) = Inr b \<and> int (length b) = int_size port_decl
        \<and> parse_integer port_decl True b = Inr (IntegerValue port_decl (Some 200)))"
  using integer_value_correct [of port_decl 200] by (simp add: port_decl_def)

section \<open>Cases in which values are not what they should be\<close>

text \<open>The last element of a sequence may be cut short, and the value is then longer than the data.\<close>

lemma short_element_accepted:
  "bind_res (parse_value (SequenceValue ''P::Ports'' (IntegerDecl port_decl) None []) True (Bits ''000001010000011''))
     value_bits = Inr ''0000010100000011''"
  by code_simp

text \<open>A literal that starts with the name of the package is not found if the type was imported.\<close>

definition kind_decl :: enum_decl where
  "kind_decl = \<lparr>enum_identifier = ''P::Kind'', enum_literals = [(''Ping'', 1), (''Echo'', 2)], enum_size = 8, always_valid = False\<rparr>"

lemma prefixed_literal_refused:
  "assign_enum kind_decl True False ''Echo'' = Inr (EnumValue kind_decl True (Some (''P::Echo'', 2)))"
  "assign_enum kind_decl True False ''Ping'' = Inl (pyrflx_error ''not a valid enum value'')"
  by code_simp+

end
