(* ===== verification/Message_Value.thy ===== *)
theory Message_Value
  imports Type_Value Message_Verify
begin

text \<open>
  Values of messages (\<open>MessageValue\<close> in \<open>rflx/pyrflx/typevalue.py\<close>), which are parsed from bits or set field by
  field, with the verification enabled.  Sequences of messages and refined opaque fields are left out.
\<close>

section \<open>Searching with conditions that can raise\<close>

fun find_res :: "('a \<Rightarrow> bool res) \<Rightarrow> 'a list \<Rightarrow> 'a option res" where
  "find_res p [] = Inr None"
| "find_res p (x # xs) = bind_res (p x) (\<lambda>b. if b then Inr (Some x) else find_res p xs)"

fun filter_res :: "('a \<Rightarrow> bool res) \<Rightarrow> 'a list \<Rightarrow> 'a list res" where
  "filter_res p [] = Inr []"
| "filter_res p (x # xs) = bind_res (p x) (\<lambda>b. bind_res (filter_res p xs) (\<lambda>ys. Inr (if b then x # ys else ys)))"

fun all_res :: "('a \<Rightarrow> bool res) \<Rightarrow> 'a list \<Rightarrow> bool res" where
  "all_res p [] = Inr True"
| "all_res p (x # xs) = bind_res (p x) (\<lambda>b. if b then all_res p xs else Inr False)"

definition both_res :: "bool res \<Rightarrow> bool res \<Rightarrow> bool res" where
  "both_res a b = bind_res a (\<lambda>x. if x then b else Inr False)"

section \<open>Fields\<close>

record field_value =
  fd_value :: type_value
  fd_first :: expr
  fd_last :: expr

fun is_scalar_value :: "type_value \<Rightarrow> bool" where
  "is_scalar_value (IntegerValue d v) = True"
| "is_scalar_value (EnumValue d imported v) = True"
| "is_scalar_value v = False"

fun is_opaque_value :: "type_value \<Rightarrow> bool" where
  "is_opaque_value (OpaqueValue es v) = True"
| "is_opaque_value v = False"

definition calculate_last :: "expr \<Rightarrow> type_value \<Rightarrow> expr res" where
  "calculate_last first_expr v =
     (if first_expr = UndefinedExpr then Inr UndefinedExpr
      else bind_res (value_size v) (\<lambda>s. simplified (MathBin Sub (Ass Add [first_expr, s]) (Number 1 0))))"

definition set_first :: "expr \<Rightarrow> field_value \<Rightarrow> field_value res" where
  "set_first e fd =
     (if is_scalar_value (fd_value fd)
      then bind_res (calculate_last e (fd_value fd)) (\<lambda>x. Inr (fd\<lparr>fd_first := e, fd_last := x\<rparr>))
      else Inr (fd\<lparr>fd_first := e\<rparr>))"

definition field_last :: "field_value \<Rightarrow> expr res" where
  "field_last fd =
     (if is_scalar_value (fd_value fd) then Inr (fd_last fd) else calculate_last (fd_first fd) (fd_value fd))"

definition is_number :: "expr \<Rightarrow> bool" where
  "is_number e = (number_value e \<noteq> None)"

definition field_set :: "field_value \<Rightarrow> bool res" where
  "field_set fd =
     (if \<not> initialized (fd_value fd) then Inr False
      else
        bind_res (value_size (fd_value fd)) (\<lambda>s.
          if \<not> is_number s \<or> \<not> is_number (fd_first fd) then Inr False
          else bind_res (field_last fd) (\<lambda>x. Inr (is_number x))))"

fun set_expected_size :: "expr \<Rightarrow> type_value \<Rightarrow> type_value" where
  "set_expected_size e (OpaqueValue es v) = OpaqueValue (Some e) v"
| "set_expected_size e (SequenceValue i t es vs) = SequenceValue i t (Some e) vs"
| "set_expected_size e v = v"

section \<open>Messages\<close>

text \<open>An argument of a checksum function, and the function, which is supplied by the user.\<close>

datatype argument = ArgRange int int | ArgNumber int | ArgNumbers "int list" | ArgLiteral string

type_synonym checksum_function = "byte list \<Rightarrow> (string \<times> argument) list \<Rightarrow> int"

record checksum_value =
  ck_function :: "checksum_function option"
  ck_calculated :: bool
  ck_parameters :: "(expr \<times> expr) list"

record message_value =
  mv_model :: msg
  mv_parameters :: "(expr \<times> expr) list"
  mv_fields :: "(field \<times> field_value) list"
  mv_checksums :: "(ident \<times> checksum_value) list"
  mv_mapping :: "(expr \<times> expr) list"
  mv_accessible :: "field list"
  mv_path :: "link list"

definition field_of :: "message_value \<Rightarrow> field \<Rightarrow> field_value res" where
  "field_of m f = (case map_of (mv_fields m) f of None \<Rightarrow> Inl (KeyError f) | Some fd \<Rightarrow> Inr fd)"

definition update_field :: "field \<Rightarrow> field_value \<Rightarrow> message_value \<Rightarrow> message_value" where
  "update_field f fd m = m\<lparr>mv_fields := map (\<lambda>(g, x). (g, if g = f then fd else x)) (mv_fields m)\<rparr>"

abbreviation links_of :: "message_value \<Rightarrow> link list" where
  "links_of m \<equiv> ms_structure (mv_model m)"

section \<open>Evaluation of expressions\<close>

fun find_value :: "expr \<Rightarrow> (expr \<times> expr) list \<Rightarrow> expr option res" where
  "find_value e [] = Inr None"
| "find_value e ((k, v) # d) = bind_res (key_eq k e) (\<lambda>b. if b then Inr (Some v) else find_value e d)"

fun integer_values :: "type_value list \<Rightarrow> expr list res" where
  "integer_values [] = Inr []"
| "integer_values (IntegerValue d (Some n) # vs) =
     bind_res (mk_number n) (\<lambda>e. bind_res (integer_values vs) (\<lambda>es. Inr (e # es)))"
| "integer_values (IntegerValue d None # vs) = Inl not_initialized"
| "integer_values (v # vs) = Inl TypeError"

text \<open>The bytes of opaque data or the elements of a sequence of integers.\<close>

definition aggregate_value :: "type_value \<Rightarrow> expr res" where
  "aggregate_value v =
     (case v of
        OpaqueValue es (Some bs) \<Rightarrow> Inr (expr.Aggregate (map (\<lambda>b. Number (uint b) 0) bs))
      | OpaqueValue es None \<Rightarrow> Inl not_initialized
      | SequenceValue i t es (IntegerValue d n # vs) \<Rightarrow>
          bind_res (integer_values (IntegerValue d n # vs)) (\<lambda>xs. Inr (expr.Aggregate xs))
      | _ \<Rightarrow> Inl NotImplementedError)"

definition known_value :: "message_value \<Rightarrow> expr \<Rightarrow> expr res" where
  "known_value m e =
     (if is_TRUE e \<or> is_FALSE e then Inr e
      else
        bind_res (find_value e (mv_mapping m)) (\<lambda>r. case r of
          Some v \<Rightarrow> Inr v
        | None \<Rightarrow>
            bind_res (find_value e (mv_parameters m)) (\<lambda>r. case r of
              Some v \<Rightarrow> Inr v
            | None \<Rightarrow>
                (case e of
                   Variable i \<Rightarrow>
                     (if i \<in> set (field_names (mv_model m)) then
                        bind_res (field_of m (id_flat i)) (\<lambda>fd.
                        bind_res (field_set fd) (\<lambda>b. if b then aggregate_value (fd_value fd) else Inr e))
                      else Inr e)
                 | _ \<Rightarrow> Inr e))))"

fun iterate :: "nat \<Rightarrow> message_value \<Rightarrow> expr \<Rightarrow> expr res" where
  "iterate 0 m e = Inl (FatalError ''failed to simplify complex expression'')"
| "iterate (Suc n) m e =
     bind_res (substituted (Suc (weight e)) (known_value m) e) (\<lambda>s.
     bind_res (simplified s) (\<lambda>r.
     bind_res (expr_eq e r) (\<lambda>b. if b then Inr e else iterate n m r)))"

definition reduced :: "message_value \<Rightarrow> expr \<Rightarrow> expr res" where
  "reduced m e = (if is_TRUE e \<or> is_FALSE e then Inr e else iterate 16 m e)"

definition is_true :: "message_value \<Rightarrow> expr \<Rightarrow> bool res" where
  "is_true m e = bind_res (reduced m e) (\<lambda>r. Inr (is_TRUE r))"

definition reduced_number :: "message_value \<Rightarrow> expr \<Rightarrow> expr option res" where
  "reduced_number m e = bind_res (reduced m e) (\<lambda>r. Inr (if is_number r then Some r else None))"

section \<open>The fields before and after a field\<close>

definition next_link :: "message_value \<Rightarrow> field \<Rightarrow> link option res" where
  "next_link m f =
     (if f = FINAL then Inr None else find_res (\<lambda>l. is_true m (condition l)) (outgoing (links_of m) f))"

definition next_field :: "message_value \<Rightarrow> field \<Rightarrow> field option res" where
  "next_field m f = bind_res (next_link m f) (\<lambda>l. Inr (map_option target l))"

definition prev_field :: "message_value \<Rightarrow> field \<Rightarrow> field option res" where
  "prev_field m f =
     (if f = INITIAL then Inr None
      else
        bind_res (filter_res (\<lambda>l. is_true m (condition l)) (incoming (links_of m) f)) (\<lambda>ls.
          Inr (case map source ls of
             [g] \<Rightarrow> Some g
           | gs \<Rightarrow> find (\<lambda>g. g \<in> set (mv_accessible m)) gs)))"

definition get_size :: "message_value \<Rightarrow> field \<Rightarrow> expr option res" where
  "get_size m f =
     bind_res (field_of m f) (\<lambda>fd.
       if is_scalar_value (fd_value fd) then bind_res (value_size (fd_value fd)) (\<lambda>s. Inr (Some s))
       else
         bind_res
           (find_res (\<lambda>l. bind_res (field_of m (source l)) (\<lambda>g.
              both_res (field_set g)
                (if link_size l \<noteq> UndefinedExpr then is_true m (condition l) else Inr False)))
              (incoming (links_of m) f))
           (\<lambda>l. case l of None \<Rightarrow> Inr None | Some l \<Rightarrow> reduced_number m (link_size l)))"

definition get_first :: "message_value \<Rightarrow> field \<Rightarrow> expr option res" where
  "get_first m f =
     bind_res
       (find_res (\<lambda>l. if link_first l \<noteq> UndefinedExpr then is_true m (condition l) else Inr False)
          (incoming (links_of m) f))
       (\<lambda>l. case l of
          Some l \<Rightarrow> reduced_number m (link_first l)
        | None \<Rightarrow>
            bind_res (prev_field m f) (\<lambda>g. case g of
              None \<Rightarrow> Inr None
            | Some g \<Rightarrow>
                bind_res (field_of m g) (\<lambda>fd.
                bind_res (value_size (fd_value fd)) (\<lambda>s.
                  if fd_first fd = UndefinedExpr \<or> s = UndefinedExpr then Inr None
                  else reduced_number m (Ass Add [fd_first fd, s])))))"

section \<open>Results with a state\<close>

text \<open>An operation that raises leaves the message as it is at that moment.\<close>

type_synonym 'a outcome = "message_value \<times> 'a res"

definition attempt :: "message_value \<Rightarrow> 'a res \<Rightarrow> ('a \<Rightarrow> 'b outcome) \<Rightarrow> 'b outcome" where
  "attempt m r k = (case r of Inl e \<Rightarrow> (m, Inl e) | Inr x \<Rightarrow> k x)"

definition and_then :: "'a outcome \<Rightarrow> (message_value \<Rightarrow> 'a \<Rightarrow> 'b outcome) \<Rightarrow> 'b outcome" where
  "and_then mr k = (case snd mr of Inl e \<Rightarrow> (fst mr, Inl e) | Inr x \<Rightarrow> k (fst mr) x)"

section \<open>The mapping of known values\<close>

fun scalar_expr :: "type_value \<Rightarrow> expr res" where
  "scalar_expr (IntegerValue d (Some n)) = mk_number n"
| "scalar_expr (EnumValue d imported (Some (l, n))) = Inr (Literal l)"
| "scalar_expr v = Inl not_initialized"

definition put_if :: "bool \<Rightarrow> expr \<Rightarrow> expr res \<Rightarrow> (expr \<times> expr) list \<Rightarrow> (expr \<times> expr) list res" where
  "put_if b k v d = (if b then bind_res v (\<lambda>v. put_expr k v d) else Inr d)"

definition add_field_values :: "field \<times> field_value \<Rightarrow> (expr \<times> expr) list \<Rightarrow> (expr \<times> expr) list res" where
  "add_field_values ffd d =
     (let f = fst ffd; fd = snd ffd; v = fd_value fd in
      bind_res (field_set fd) (\<lambda>is_set.
      bind_res (put_if (is_scalar_value v \<and> is_set) (Variable f) (scalar_expr v) d) (\<lambda>d.
      bind_res (put_if (is_scalar_value v \<or> is_set) (size_of f) (value_size v) d) (\<lambda>d.
      bind_res (put_if (is_number (fd_first fd)) (first_of f) (Inr (fd_first fd)) d) (\<lambda>d.
      bind_res (field_last fd) (\<lambda>x. put_if (is_number x) (last_of f) (Inr x) d))))))"

fun fold_res :: "('a \<Rightarrow> 'b \<Rightarrow> 'b res) \<Rightarrow> 'a list \<Rightarrow> 'b \<Rightarrow> 'b res" where
  "fold_res f [] y = Inr y"
| "fold_res f (x # xs) y = bind_res (f x y) (fold_res f xs)"

text \<open>The type sizes, the start of the message and what is known of the fields.\<close>

definition field_mapping :: "message_value \<Rightarrow> (expr \<times> expr) list res" where
  "field_mapping m =
     bind_res (fold_res (\<lambda>(f, t) d. case scalar_size t of
         None \<Rightarrow> Inr d | Some n \<Rightarrow> put_expr (size_of (decl_identifier t)) (Number n 0) d)
       (all_types_of (mv_model m)) []) (\<lambda>d.
     bind_res (put_expr (first_of ''Message'') (Number 0 0) d) (\<lambda>d.
       fold_res add_field_values (mv_fields m) d))"

text \<open>The position of the end of a field without a next field, if it can be the last field of the message.\<close>

fun open_end :: "nat \<Rightarrow> message_value \<Rightarrow> field \<Rightarrow> int option res" where
  "open_end 0 m f = Inl OutOfFuel"
| "open_end (Suc n) m f =
     bind_res (next_field m f) (\<lambda>g.
     bind_res (field_of m f) (\<lambda>fd.
     bind_res (field_last fd) (\<lambda>x.
       case number_value x of
         None \<Rightarrow> Inr None
       | Some v \<Rightarrow>
           (case g of
              Some g \<Rightarrow> if g = FINAL then Inr None else open_end n m g
            | None \<Rightarrow>
                Inr (if list_ex (\<lambda>l. target l = FINAL) (outgoing (links_of m) f) then Some v else None)))))"

definition message_fuel :: "message_value \<Rightarrow> nat" where
  "message_fuel m = length (links_of m) + 3"

definition message_end :: "message_value \<Rightarrow> int option res" where
  "message_end m =
     bind_res (next_field m INITIAL) (\<lambda>f. case f of None \<Rightarrow> Inr None | Some f \<Rightarrow> open_end (message_fuel m) m f)"

definition update_mapping :: "int option \<Rightarrow> message_value \<Rightarrow> unit outcome" where
  "update_mapping message_size m =
     attempt m (field_mapping m) (\<lambda>d.
       let m = m\<lparr>mv_mapping := d\<rparr>;
           known = (case message_size of Some n \<Rightarrow> if n \<noteq> 0 then Some n else None | None \<Rightarrow> None) in
       attempt m (message_end m) (\<lambda>e.
       attempt m
         (case e of
            None \<Rightarrow> Inr d
          | Some v \<Rightarrow>
              bind_res (mk_number (case known of Some n \<Rightarrow> n - 1 | None \<Rightarrow> v)) (\<lambda>x.
              bind_res (mk_number (case known of Some n \<Rightarrow> n | None \<Rightarrow> v + 1)) (\<lambda>s.
              bind_res (put_expr (last_of ''Message'') x d) (put_expr (size_of ''Message'') s))))
         (\<lambda>d.
       attempt m (fold_res (\<lambda>(i, c). put_expr (Attribute ValidChecksum (Variable i)) TRUE) (mv_checksums m) d) (\<lambda>d.
         (m\<lparr>mv_mapping := d\<rparr>, Inr ())))))"

section \<open>Setting a field\<close>

datatype input = IntInput int | StrInput string | BytesInput "byte list" | ListInput "type_value list" | BitsInput bits

text \<open>Bits of a scalar value with low order first are swapped, if they are several whole bytes.\<close>

definition ordered_bits :: "msg \<Rightarrow> field \<Rightarrow> type_value \<Rightarrow> bits \<Rightarrow> bits res" where
  "ordered_bits p f v b =
     (case map_of (ms_byte_order p) f of
        None \<Rightarrow> Inl (KeyError f)
      | Some bo \<Rightarrow>
          if bo = HIGH_ORDER_FIRST \<or> \<not> is_scalar_value v \<or> length b \<le> 8 \<or> length b mod 8 \<noteq> 0 then Inr b
          else swap_bitstring b)"

definition put_value :: "msg \<Rightarrow> field \<Rightarrow> type_value \<Rightarrow> input \<Rightarrow> type_value res" where
  "put_value p f v x =
     (case x of
        BitsInput b \<Rightarrow> bind_res (ordered_bits p f v b) (\<lambda>b. parse_value v True (Bits b))
      | _ \<Rightarrow>
          (case (v, x) of
             (IntegerValue d w, IntInput n) \<Rightarrow> assign_integer d True n
           | (EnumValue d imported w, StrInput s) \<Rightarrow> assign_enum d imported True s
           | (OpaqueValue es w, BytesInput bs) \<Rightarrow> parse_opaque es True (Bytes bs)
           | (SequenceValue i t es ws, ListInput vs) \<Rightarrow> assign_sequence i t es True vs
           | _ \<Rightarrow> Inl (pyrflx_error ''cannot assign different types'')))"

text \<open>After a field was set one of its outgoing links must be usable, and the condition of every one decided.\<close>

definition check_outgoing :: "field \<Rightarrow> message_value \<Rightarrow> unit outcome" where
  "check_outgoing f m =
     attempt m (map_res (\<lambda>l. reduced m (condition l)) (outgoing (links_of m) f)) (\<lambda>rs.
       if list_ex (\<lambda>r. \<not> is_TRUE r \<and> \<not> is_FALSE r) rs then (m, Inl AssertionError)
       else if list_all is_FALSE rs then
         attempt m (field_of m f) (\<lambda>fd.
           (update_field f (fd\<lparr>fd_value := clear (fd_value fd)\<rparr>) m,
            Inl (pyrflx_error ''none of the field conditions have been met'')))
       else (m, Inr ()))"

definition set_checked :: "field \<Rightarrow> input \<Rightarrow> int option \<Rightarrow> message_value \<Rightarrow> unit outcome" where
  "set_checked f x message_size m =
     (if f \<notin> set (mv_accessible m) then (m, Inl (pyrflx_error ''cannot access field''))
      else
        attempt m (field_of m f) (\<lambda>fd.
        attempt m (get_first m f) (\<lambda>first_expr.
        attempt m (get_size m f) (\<lambda>sz.
          case first_expr of
            None \<Rightarrow> (m, Inl AssertionError)
          | Some e \<Rightarrow>
              attempt m (set_first e fd) (\<lambda>fd.
                let fd = (case sz of Some s \<Rightarrow> fd\<lparr>fd_value := set_expected_size s (fd_value fd)\<rparr> | None \<Rightarrow> fd);
                    m = update_field f fd m in
                attempt m (put_value (mv_model m) f (fd_value fd) x) (\<lambda>v.
                  and_then (update_mapping message_size (update_field f (fd\<lparr>fd_value := v\<rparr>) m)) (\<lambda>m u.
                    check_outgoing f m)))))))"

section \<open>Accessible fields\<close>

definition valid_composite :: "message_value \<Rightarrow> field \<Rightarrow> bool res" where
  "valid_composite m f =
     bind_res
       (find_res (\<lambda>l.
          if link_size l = UndefinedExpr then Inr False
          else bind_res (field_of m (source l)) (\<lambda>g. both_res (field_set g) (is_true m (condition l))))
          (incoming (links_of m) f))
       (\<lambda>l. case l of
          None \<Rightarrow> Inr False
        | Some l \<Rightarrow>
            bind_res (variables (link_size l)) (\<lambda>is.
              all_res (\<lambda>i.
                bind_res (case map_of (mv_fields m) i of None \<Rightarrow> Inr False | Some fd \<Rightarrow> field_set fd) (\<lambda>b.
                  if b then Inr True
                  else bind_res (find_value (Variable i) (mv_parameters m)) (\<lambda>r.
                    Inr (r \<noteq> None \<or> i = ''Message''))))
                is))"

definition can_be_set :: "message_value \<Rightarrow> field \<Rightarrow> type_value \<Rightarrow> expr option \<Rightarrow> bool res" where
  "can_be_set m f v sz =
     both_res (bind_res (msg_path_condition (mv_model m) f) (is_true m))
       (if is_scalar_value v then Inr (sz \<noteq> None) else valid_composite m f)"

text \<open>
  The fields after a field are determined as far as their positions are known; an opaque field that was set
  before is cleared.
\<close>

fun preset :: "nat \<Rightarrow> field option \<Rightarrow> field list \<Rightarrow> message_value \<Rightarrow> field list outcome" where
  "preset 0 f fs m = (m, Inl OutOfFuel)"
| "preset (Suc n) None fs m = (m, Inr fs)"
| "preset (Suc n) (Some f) fs m =
     (if f = FINAL then (m, Inr fs)
      else
        attempt m (field_of m f) (\<lambda>fd.
        attempt m (get_first m f) (\<lambda>first_expr.
        attempt m (get_size m f) (\<lambda>sz.
          case first_expr of
            None \<Rightarrow> (m, Inr fs)
          | Some e \<Rightarrow>
              attempt m (can_be_set m f (fd_value fd) sz) (\<lambda>b.
                let fs = (if b then fs @ [f] else fs) in
                case sz of
                  None \<Rightarrow> (m, Inr fs)
                | Some s \<Rightarrow>
                    attempt m (set_first e fd) (\<lambda>fd.
                      let fd = (if is_opaque_value (fd_value fd)
                            then fd\<lparr>fd_value := set_expected_size s (fd_value fd)\<rparr> else fd);
                          m = update_field f fd m in
                      attempt m (field_set fd) (\<lambda>is_set.
                        if is_set \<and> is_opaque_value (fd_value fd)
                        then (update_field f (fd\<lparr>fd_first := UndefinedExpr, fd_value := clear (fd_value fd)\<rparr>) m, Inr fs)
                        else attempt m (next_field m f) (\<lambda>g. preset n g fs m))))))))"

definition preset_fields :: "field \<Rightarrow> message_value \<Rightarrow> unit outcome" where
  "preset_fields f m =
     attempt m (next_field m f) (\<lambda>g.
     and_then (preset (message_fuel m) g [] m) (\<lambda>m fs.
       (m\<lparr>mv_accessible :=
            (if f \<in> set (mv_accessible m) then takeWhile (\<lambda>g. g \<noteq> f) (mv_accessible m) @ f # fs else fs)\<rparr>, Inr ())))"

end
