(* ===== verification/Message_Parse.thy ===== *)
theory Message_Parse
  imports Message_Value
begin

text \<open>
  The operations of message values (\<open>MessageValue\<close> in \<open>rflx/pyrflx/typevalue.py\<close>): construction, parsing,
  encoding, checksums and the fields that are valid.
\<close>

section \<open>Construction\<close>

definition new_field :: "msg \<Rightarrow> field \<Rightarrow> field_value res" where
  "new_field p f =
     (let t = (case map_of (all_types_of p) f of None \<Rightarrow> OpaqueDecl | Some t \<Rightarrow> t);
          imported = (case map_of (all_types_of p) f of
            None \<Rightarrow> False | Some t \<Rightarrow> \<not> id_eq (package_of (decl_identifier t)) (message_package p)) in
      bind_res (construct t imported) (\<lambda>v. Inr \<lparr>fd_value = v, fd_first = UndefinedExpr, fd_last = UndefinedExpr\<rparr>))"

definition new_fields :: "msg \<Rightarrow> (field \<times> field_value) list res" where
  "new_fields p =
     map_res (\<lambda>f. bind_res (new_field p f) (\<lambda>fd.
       Inr (f, if f = INITIAL then fd\<lparr>fd_value := OpaqueValue None (Some []), fd_first := Number 0 0\<rparr> else fd)))
       (INITIAL # field_names p)"

definition new_checksum :: "expr list \<Rightarrow> checksum_value res" where
  "new_checksum es =
     assert_res (list_all (\<lambda>e. case e of ValueRange l u \<Rightarrow> True | Variable i \<Rightarrow> True | _ \<Rightarrow> is_attribute e) es)
       (Inr \<lparr>ck_function = None, ck_calculated = False, ck_parameters = map (\<lambda>e. (e, UndefinedExpr)) es\<rparr>)"

definition new_message :: "msg \<Rightarrow> message_value res" where
  "new_message p =
     bind_res (new_fields p) (\<lambda>fds.
     bind_res (map_res (\<lambda>(i, es). bind_res (new_checksum es) (\<lambda>c. Inr (i, c))) (ms_checksums p)) (\<lambda>cks.
       snd (let m = \<lparr>mv_model = p, mv_parameters = [], mv_fields = fds, mv_checksums = cks,
              mv_mapping = map (\<lambda>e. (e, Number 0 0)) [size_of INITIAL, last_of INITIAL, first_of INITIAL, first_of ''Message''],
              mv_accessible = [], mv_path = []\<rparr> in
            and_then (preset_fields INITIAL m) (\<lambda>m u. (m, Inr m)))))"

section \<open>Parameters and checksum functions\<close>

datatype parameter_value = BoolParameter bool | IntParameter int | StrParameter string

definition parameter_literals :: "msg \<Rightarrow> (string \<times> string) list" where
  "parameter_literals p =
     concat (map (\<lambda>(f, t). case t of
         EnumDecl d \<Rightarrow>
           if id_eq (package_of (enum_identifier d)) (message_package p)
           then map (\<lambda>(l, v). (l, qualified_literal d l)) (enum_literals d) else []
       | _ \<Rightarrow> []) (all_types_of p))"

definition parameter_type_error :: py_error where
  "parameter_type_error = pyrflx_error ''message argument has invalid type''"

definition parameter_expr :: "msg \<Rightarrow> type_decl \<Rightarrow> parameter_value \<Rightarrow> expr res" where
  "parameter_expr p t v =
     (case v of
        BoolParameter b \<Rightarrow> if t = BOOLEAN_DECL then Inr (bool_expr b) else Inl parameter_type_error
      | IntParameter n \<Rightarrow> (case t of IntegerDecl d \<Rightarrow> mk_number n | _ \<Rightarrow> Inl parameter_type_error)
      | StrParameter s \<Rightarrow>
          (case t of
             EnumDecl d \<Rightarrow>
               if t = BOOLEAN_DECL then Inl parameter_type_error
               else (case map_of (rev (parameter_literals p)) s of
                 Some l \<Rightarrow> Inr (Literal l)
               | None \<Rightarrow> assert_res (s \<in> snd ` set (parameter_literals p)) (Inr (Literal s)))
           | _ \<Rightarrow> Inl parameter_type_error))"

definition add_parameters :: "(field \<times> parameter_value) list \<Rightarrow> message_value \<Rightarrow> unit outcome" where
  "add_parameters vs m =
     (let p = mv_model m; expected = map fst (ms_parameters p) in
      if \<not> set expected \<subseteq> fst ` set vs then (m, Inl (pyrflx_error ''missing parameter values''))
      else if \<not> fst ` set vs \<subseteq> set expected then (m, Inl (pyrflx_error ''unexpected parameter values''))
      else
        attempt m (map_res (\<lambda>(f, v). bind_res
            (case map_of (ms_parameters p) f of None \<Rightarrow> Inl (KeyError f) | Some t \<Rightarrow> parameter_expr p t v) (\<lambda>e.
              Inr (Variable f, e))) vs) (\<lambda>ps.
          preset_fields INITIAL (m\<lparr>mv_parameters := ps\<rparr>)))"

text \<open>Every checksum other than the one that is meant is reported as an error.\<close>

definition set_function :: "ident \<Rightarrow> checksum_function \<Rightarrow> (ident \<times> checksum_value) list \<Rightarrow> (ident \<times> checksum_value) list res" where
  "set_function i f cks =
     map_res (\<lambda>(j, c). if j = i then Inr (j, c\<lparr>ck_function := Some f\<rparr>)
       else Inl (pyrflx_error ''field has not been defined as a checksum field'')) cks"

fun set_checksum_functions :: "(ident \<times> checksum_function) list \<Rightarrow> message_value \<Rightarrow> unit outcome" where
  "set_checksum_functions [] m = (m, Inr ())"
| "set_checksum_functions ((i, f) # fs) m =
     (if i \<notin> set (field_names (mv_model m)) then (m, Inl (pyrflx_error ''field is not defined''))
      else attempt m (set_function i f (mv_checksums m)) (\<lambda>cks. set_checksum_functions fs (m\<lparr>mv_checksums := cks\<rparr>)))"

section \<open>Fields that are valid\<close>

definition valid_field :: "message_value \<Rightarrow> field \<Rightarrow> bool res" where
  "valid_field m f =
     bind_res (field_of m f) (\<lambda>fd.
       both_res (field_set fd)
         (both_res (bind_res (msg_path_condition (mv_model m) f) (is_true m))
           (any_res (\<lambda>l. is_true m (condition l)) (outgoing (links_of m) f))))"

definition valid_fields :: "message_value \<Rightarrow> field list res" where
  "valid_fields m = filter_res (valid_field m) (mv_accessible m)"

definition required_fields :: "message_value \<Rightarrow> field list res" where
  "required_fields m = bind_res (valid_fields m) (\<lambda>fs. Inr (filter (\<lambda>f. f \<notin> set fs) (mv_accessible m)))"

definition get_field :: "message_value \<Rightarrow> field \<Rightarrow> type_value res" where
  "get_field m f =
     bind_res (valid_fields m) (\<lambda>fs.
       if f \<in> set fs then bind_res (field_of m f) (\<lambda>fd. Inr (fd_value fd))
       else if f \<notin> set (field_names (mv_model m)) then Inl (pyrflx_error ''not a field of this message'')
       else Inl (pyrflx_error ''field is not set''))"

section \<open>Encoding\<close>

text \<open>A slice without a start, as Python has it for negative numbers.\<close>

definition take_bits :: "int \<Rightarrow> bits \<Rightarrow> bits" where
  "take_bits n b = take (nat (if n < 0 then n + int (length b) else n)) b"

fun encode :: "nat \<Rightarrow> message_value \<Rightarrow> field option \<Rightarrow> bits \<Rightarrow> bits res" where
  "encode 0 m f b = Inl OutOfFuel"
| "encode (Suc n) m None b = Inr b"
| "encode (Suc n) m (Some f) b =
     (if f = FINAL then Inr b
      else
        bind_res (field_of m f) (\<lambda>fd.
        bind_res (field_set fd) (\<lambda>is_set.
          case (is_set, number_value (fd_first fd)) of
            (True, Some i) \<Rightarrow>
              (if \<not> i \<le> int (length b) then Inr b
               else
                 bind_res (value_bits (fd_value fd)) (\<lambda>c.
                 bind_res (ordered_bits (mv_model m) f (fd_value fd) c) (\<lambda>c.
                 bind_res (next_field m f) (\<lambda>g. encode n m g (take_bits i b @ c)))))
          | _ \<Rightarrow> Inr b)))"

definition message_bits :: "message_value \<Rightarrow> bits res" where
  "message_bits m =
     bind_res (next_field m INITIAL) (\<lambda>f. bind_res (encode (message_fuel m) m f []) (\<lambda>b. bitstring b))"

definition unchecked_bytes :: "message_value \<Rightarrow> byte list res" where
  "unchecked_bytes m =
     bind_res (message_bits m) (\<lambda>b. assert_res (length b mod 8 = 0) (Inr (bits_bytes b)))"

section \<open>Checksums\<close>

text \<open>The field at one end of a range.\<close>

definition bound_prefix :: "expr \<Rightarrow> string option res" where
  "bound_prefix e =
     (case e of
        Attribute a p \<Rightarrow> if a = First \<or> a = Last then bind_res (expr_str p) (\<lambda>s. Inr (Some s)) else Inr None
      | _ \<Rightarrow> Inr None)"

definition range_field :: "expr \<Rightarrow> string res" where
  "range_field e =
     (case e of
        MathBin Sub l r \<Rightarrow>
          bind_res (bound_prefix l) (\<lambda>s. case s of Some s \<Rightarrow> Inr s | None \<Rightarrow> Inl AssertionError)
      | Ass Add ts \<Rightarrow>
          bind_res (map_res bound_prefix ts) (\<lambda>ss.
            case rev (filter (\<lambda>s. s \<noteq> None) ss) of Some s # _ \<Rightarrow> Inr s | _ \<Rightarrow> Inl AssertionError)
      | _ \<Rightarrow> bind_res (bound_prefix e) (\<lambda>s. case s of Some s \<Rightarrow> Inr s | None \<Rightarrow> Inl AssertionError))"

fun fields_known :: "nat \<Rightarrow> message_value \<Rightarrow> field \<Rightarrow> field \<Rightarrow> bool res" where
  "fields_known 0 m f g = Inl OutOfFuel"
| "fields_known (Suc n) m f g =
     (if f = g then Inr True
      else
        bind_res (next_field m f) (\<lambda>h. case h of
          None \<Rightarrow> Inr False
        | Some h \<Rightarrow>
            if h = FINAL \<or> h \<in> fst ` set (mv_checksums m) then fields_known n m h g
            else bind_res (field_of m h) (\<lambda>fd. bind_res (field_set fd) (\<lambda>b.
              if b then fields_known n m h g else Inr False))))"

definition range_known :: "message_value \<Rightarrow> expr \<Rightarrow> expr \<Rightarrow> bool res" where
  "range_known m l u =
     bind_res (next_field m INITIAL) (\<lambda>start.
     bind_res (substituted (Suc (weight l))
         (\<lambda>e. bind_res (expr_eq e (first_of ''Message'')) (\<lambda>b.
            if b then (case start of None \<Rightarrow> Inl (KeyError []) | Some f \<Rightarrow> Inr (first_of f)) else Inr e)) l) (\<lambda>l'.
     bind_res (range_field l') (\<lambda>f.
     bind_res (range_field u) (\<lambda>g.
       fields_known (message_fuel m) m f (if g = ''Message'' then FINAL else g)))))"

definition field_known :: "message_value \<Rightarrow> field \<Rightarrow> bool res" where
  "field_known m f = bind_res (field_of m f) field_set"

definition parameter_known :: "message_value \<Rightarrow> expr \<Rightarrow> expr \<Rightarrow> bool res" where
  "parameter_known m e r =
     (case r of
        ValueRange a b \<Rightarrow>
          (case e of
             ValueRange l u \<Rightarrow> if is_number a \<and> is_number b then range_known m l u else Inr False
           | _ \<Rightarrow> Inr True)
      | Variable i \<Rightarrow> field_known m i
      | Attribute a p \<Rightarrow> bind_res (expr_str p) (field_known m)
      | _ \<Rightarrow> Inr True)"

text \<open>The parameters are evaluated until one is not known; the values are kept.\<close>

fun evaluate_parameters :: "message_value \<Rightarrow> (expr \<times> expr) list \<Rightarrow> ((expr \<times> expr) list \<times> bool) res" where
  "evaluate_parameters m [] = Inr ([], True)"
| "evaluate_parameters m ((e, r) # ps) =
     bind_res (reduced m e) (\<lambda>r'.
     bind_res (parameter_known m e r') (\<lambda>b.
       if \<not> b then Inr ((e, r') # ps, False)
       else bind_res (evaluate_parameters m ps) (\<lambda>(qs, known). Inr ((e, r') # qs, known))))"

definition checksum_of :: "message_value \<Rightarrow> ident \<Rightarrow> checksum_value res" where
  "checksum_of m i = (case map_of (mv_checksums m) i of None \<Rightarrow> Inl (KeyError i) | Some c \<Rightarrow> Inr c)"

definition update_checksum :: "ident \<Rightarrow> checksum_value \<Rightarrow> message_value \<Rightarrow> message_value" where
  "update_checksum i c m = m\<lparr>mv_checksums := map (\<lambda>(j, x). (j, if j = i then c else x)) (mv_checksums m)\<rparr>"

definition checksum_settable :: "ident \<Rightarrow> message_value \<Rightarrow> bool outcome" where
  "checksum_settable i m =
     attempt m (checksum_of m i) (\<lambda>c.
     attempt m (evaluate_parameters m (ck_parameters c)) (\<lambda>(ps, known).
       (update_checksum i (c\<lparr>ck_parameters := ps\<rparr>) m, Inr known)))"

definition checksum_argument :: "expr \<Rightarrow> argument res" where
  "checksum_argument r =
     (case r of
        ValueRange (Number a b) (Number c d) \<Rightarrow> Inr (ArgRange a c)
      | expr.Aggregate es \<Rightarrow> Inr (ArgNumbers (List.map_filter number_value es))
      | Literal i \<Rightarrow> Inr (ArgLiteral i)
      | Number a b \<Rightarrow> Inr (ArgNumber a)
      | _ \<Rightarrow> Inl AssertionError)"

definition calculate_checksum :: "message_value \<Rightarrow> ident \<Rightarrow> int res" where
  "calculate_checksum m i =
     bind_res (checksum_of m i) (\<lambda>c.
       case ck_function c of
         None \<Rightarrow> Inl (pyrflx_error ''cannot calculate checksum'')
       | Some f \<Rightarrow>
           bind_res (map_res (\<lambda>(e, r). bind_res (checksum_argument r) (\<lambda>a.
             bind_res (expr_str e) (\<lambda>s. Inr (s, a)))) (ck_parameters c)) (\<lambda>as.
           bind_res (unchecked_bytes m) (\<lambda>bs. Inr (f bs as))))"

section \<open>Setting fields\<close>

definition set_checksum :: "ident \<Rightarrow> message_value \<Rightarrow> unit outcome" where
  "set_checksum i m =
     attempt m (checksum_of m i) (\<lambda>c.
     attempt m (field_known m i) (\<lambda>is_set.
       if is_set \<and> \<not> ck_calculated c then (m, Inr ())
       else
         and_then (checksum_settable i m) (\<lambda>m known.
           if \<not> known then (m, Inr ())
           else
             attempt m (field_of m i) (\<lambda>fd.
             attempt m (put_value (mv_model m) i (fd_value fd) (IntInput 0)) (\<lambda>v.
             attempt m (checksum_of m i) (\<lambda>c.
               let m = update_checksum i (c\<lparr>ck_calculated := True\<rparr>) (update_field i (fd\<lparr>fd_value := v\<rparr>) m) in
               attempt m (calculate_checksum m i) (\<lambda>n. set_checked i (IntInput n) None m)))))))"

fun set_checksums :: "ident list \<Rightarrow> message_value \<Rightarrow> unit outcome" where
  "set_checksums [] m = (m, Inr ())"
| "set_checksums (i # is) m = and_then (set_checksum i m) (\<lambda>m u. set_checksums is m)"

definition set_field :: "field \<Rightarrow> input \<Rightarrow> message_value \<Rightarrow> unit outcome" where
  "set_field f x m =
     and_then (set_checked f x None m) (\<lambda>m u.
     and_then (preset_fields f m) (\<lambda>m u.
       set_checksums (map fst (mv_checksums m)) m))"

fun checksums_valid :: "ident list \<Rightarrow> message_value \<Rightarrow> bool outcome" where
  "checksums_valid [] m = (m, Inr True)"
| "checksums_valid (i # is) m =
     and_then (checksum_settable i m) (\<lambda>m known.
       if \<not> known then (m, Inr False)
       else
         attempt m (calculate_checksum m i) (\<lambda>n.
         attempt m (get_field m i) (\<lambda>v.
           if (case v of IntegerValue d w \<Rightarrow> w = Some n | _ \<Rightarrow> False) then checksums_valid is m else (m, Inr False))))"

definition valid_message :: "message_value \<Rightarrow> bool outcome" where
  "valid_message m =
     attempt m (valid_fields m) (\<lambda>fs.
       if fs = [] then (m, Inr False)
       else
         attempt m (next_field m (last fs)) (\<lambda>g.
           if g = Some FINAL then checksums_valid (map fst (mv_checksums m)) m else (m, Inr False)))"

definition message_bytes :: "message_value \<Rightarrow> byte list outcome" where
  "message_bytes m =
     and_then (valid_message m) (\<lambda>m b.
       (m, if b then unchecked_bytes m else Inl (pyrflx_error ''cannot create bytestring of invalid message'')))"

section \<open>Parsing\<close>

text \<open>A slice of which the end must not lie behind the end of the bits.\<close>

definition slice_bits :: "bits \<Rightarrow> int \<Rightarrow> int \<Rightarrow> bits res" where
  "slice_bits b i j =
     (if int (length b) < j then Inl IndexError
      else bitstring (drop (nat i) (take_bits j b)))"

definition advance :: "field \<Rightarrow> message_value \<Rightarrow> field option outcome" where
  "advance f m =
     attempt m (next_link m f) (\<lambda>l. case l of
       None \<Rightarrow> (m, Inr None)
     | Some l \<Rightarrow> (m\<lparr>mv_path := mv_path m @ [l]\<rparr>, Inr (Some (target l))))"

text \<open>
  The position of a field: that of the field before if both fields start at the same bit, otherwise behind it.
\<close>

definition bit_position :: "message_value \<Rightarrow> field \<Rightarrow> int \<Rightarrow> int \<Rightarrow> int res" where
  "bit_position m f last_pos current =
     bind_res (field_of m f) (\<lambda>fd.
     bind_res (prev_field m f) (\<lambda>g. case g of
       None \<Rightarrow> Inl (KeyError [])
     | Some g \<Rightarrow>
         bind_res (field_of m g) (\<lambda>gd.
           Inr (case (number_value (fd_first gd), number_value (fd_first fd)) of
                  (Some a, Some b) \<Rightarrow> if a = b then last_pos else current
                | _ \<Rightarrow> current))))"

definition set_parsed :: "field \<Rightarrow> bits \<Rightarrow> int \<Rightarrow> message_value \<Rightarrow> unit outcome" where
  "set_parsed f b message_size m =
     and_then (set_checked f (BitsInput b) (Some message_size) m) (\<lambda>m u. preset_fields f m)"

definition short_message :: "'a outcome \<Rightarrow> 'a outcome" where
  "short_message r =
     (case snd r of
        Inl IndexError \<Rightarrow> (fst r, Inl (pyrflx_error ''Bitstring representing the message is too short''))
      | _ \<Rightarrow> r)"

text \<open>One field is parsed; the result is its position and that of the next field.\<close>

definition parse_field :: "bits \<Rightarrow> field \<Rightarrow> int \<Rightarrow> int \<Rightarrow> message_value \<Rightarrow> (int \<times> int) outcome" where
  "parse_field b f last_pos current m =
     attempt m (field_of m f) (\<lambda>fd.
     attempt m (get_size m f) (\<lambda>sz.
       case sz of
         None \<Rightarrow>
           attempt m (bit_position m f last_pos current) (\<lambda>pos.
           attempt m (get_first m f) (\<lambda>e. case e of
             None \<Rightarrow> (m, Inl AssertionError)
           | Some e \<Rightarrow>
               attempt m (set_first e fd) (\<lambda>fd.
                 and_then (set_parsed f (drop (nat pos) b) (int (length b)) (update_field f fd m)) (\<lambda>m u.
                   (m, Inr (pos, pos))))))
       | Some s \<Rightarrow>
           (case number_value s of
              None \<Rightarrow> (m, Inl AttributeError)
            | Some n \<Rightarrow>
                short_message
                  (attempt m (bit_position m f last_pos current) (\<lambda>pos.
                   attempt m (slice_bits b pos (pos + n)) (\<lambda>c.
                     and_then (set_parsed f c (int (length b)) m) (\<lambda>m u. (m, Inr (pos, pos + n)))))))))"

fun parse_loop :: "nat \<Rightarrow> bits \<Rightarrow> field option \<Rightarrow> int \<Rightarrow> int \<Rightarrow> message_value \<Rightarrow> unit outcome" where
  "parse_loop 0 b f last_pos current m = (m, Inl OutOfFuel)"
| "parse_loop (Suc n) b f last_pos current m =
     (case f of
        None \<Rightarrow> (m, Inl AssertionError)
      | Some f \<Rightarrow>
          if f = FINAL then (m, Inr ())
          else
            and_then (parse_field b f last_pos current m) (\<lambda>m p.
            and_then (advance f m) (\<lambda>m g. parse_loop n b g (fst p) (snd p) m)))"

definition parse_message :: "data \<Rightarrow> message_value \<Rightarrow> unit outcome" where
  "parse_message x m =
     (let m = m\<lparr>mv_path := []\<rparr> in
      attempt m (data_bits x) (\<lambda>b.
        and_then (advance INITIAL m) (\<lambda>m f. parse_loop (message_fuel m) b f 0 0 m)))"

end
