(* ===== verification/Message_Value_Laws.thy ===== *)
theory Message_Value_Laws
  imports Message_Parse
begin

text \<open>
  What the parsing of messages guarantees: it follows a path through the message up to the final field, and it ends.
\<close>

section \<open>What operations leave unchanged\<close>

definition kept :: "message_value \<Rightarrow> 'a outcome \<Rightarrow> bool" where
  "kept m r \<longleftrightarrow> mv_model (fst r) = mv_model m \<and> mv_path (fst r) = mv_path m"

named_theorems kept_intros \<open>operations that keep the model and the path\<close>

lemma kept_same [kept_intros]: "kept m (m, r)"
  by (simp add: kept_def)

lemma kept_attempt [kept_intros]: "(\<And>x. r = Inr x \<Longrightarrow> kept m (k x)) \<Longrightarrow> kept m (attempt m' r k)"
  if "kept m (m', Inr ())"
  using that by (auto simp: attempt_def kept_def split: sum.splits)

lemma kept_and_then [kept_intros]:
  "kept m r \<Longrightarrow> (\<And>m' x. kept m (m', Inr ()) \<Longrightarrow> kept m (k m' x)) \<Longrightarrow> kept m (and_then r k)"
  by (auto simp: and_then_def kept_def split: sum.splits)

lemma kept_update [simp]:
  "kept m (update_field f fd m', r) = kept m (m', r)" "kept m (m'\<lparr>mv_mapping := d\<rparr>, r) = kept m (m', r)"
  "kept m (m'\<lparr>mv_accessible := fs\<rparr>, r) = kept m (m', r)"
  by (simp_all add: kept_def update_field_def)

lemma kept_result: "kept m (m', r) \<Longrightarrow> kept m (m', s)"
  by (simp add: kept_def)

lemma kept_trans: "kept m (m', r) \<Longrightarrow> kept m' s \<Longrightarrow> kept m s"
  by (simp add: kept_def)

lemma update_mapping_kept: "kept m (update_mapping n m)"
  unfolding update_mapping_def Let_def by (intro kept_intros) (simp_all add: kept_same)

lemma check_outgoing_kept: "kept m (check_outgoing f m)"
  unfolding check_outgoing_def by (auto intro!: kept_intros)

lemma set_checked_kept: "kept m (set_checked f x n m)"
  unfolding set_checked_def Let_def
  by (auto intro!: kept_intros kept_trans [OF _ update_mapping_kept] kept_trans [OF _ check_outgoing_kept]
      split: option.splits simp: kept_same)

lemma preset_kept: "kept m (preset n f fs m)"
proof (induction n arbitrary: f fs m)
  case (Suc n)
  show ?case
    by (cases f) (auto intro!: kept_intros kept_trans [OF _ Suc.IH] simp: kept_same Let_def split: option.splits)
qed (simp add: kept_same)

lemma preset_fields_kept: "kept m (preset_fields f m)"
  unfolding preset_fields_def by (auto intro!: kept_intros preset_kept simp: kept_same)

lemma set_parsed_kept: "kept m (set_parsed f b n m)"
  unfolding set_parsed_def
  by (auto intro!: kept_intros set_checked_kept kept_trans [OF _ preset_fields_kept])

lemma short_message_kept: "kept m (short_message r) = kept m r"
  by (auto simp: short_message_def kept_def split: sum.splits py_error.splits)

lemma parse_field_kept: "kept m (parse_field b f p q m)"
  unfolding parse_field_def
  by (auto intro!: kept_intros kept_trans [OF _ set_parsed_kept] elim!: kept_result simp: kept_same short_message_kept Let_def split: option.splits)

section \<open>The path that is parsed\<close>

lemma find_res_Some: "find_res p xs = Inr (Some x) \<Longrightarrow> x \<in> set xs \<and> p x = Inr True"
  by (induction xs) (auto simp: bind_res_eq_Inr split: if_splits)

lemma next_link_Some: "next_link m f = Inr (Some l) \<Longrightarrow> l \<in> set (links_of m) \<and> source l = f"
  by (auto simp: next_link_def outgoing_def dest!: find_res_Some split: if_splits)

lemma advance_Some:
  assumes "advance f m = (m', Inr (Some g))"
  obtains l where "l \<in> set (links_of m)" "source l = f" "target l = g" "m' = m\<lparr>mv_path := mv_path m @ [l]\<rparr>"
  using assms next_link_Some by (auto simp: advance_def attempt_def split: sum.splits option.splits)

lemma parse_loop_path:
  "parse_loop n b f p q m = (m', Inr ()) \<Longrightarrow> f = Some g \<Longrightarrow> is_path (links_of m) g (mv_path m)
    \<Longrightarrow> mv_model m' = mv_model m \<and> is_path (links_of m) FINAL (mv_path m')"
proof (induction n arbitrary: f g p q m)
  case (Suc n)
  show ?case
  proof (cases "g = FINAL")
    case False
    obtain m1 r where r: "parse_field b g p q m = (m1, r)" by fastforce
    have kept: "mv_model m1 = mv_model m" "mv_path m1 = mv_path m"
      using parse_field_kept [of m b g p q] r by (simp_all add: kept_def)
    obtain m2 h where h: "advance g m1 = (m2, h)" by fastforce
    from Suc.prems(1,2) False r h obtain x y where xy: "r = Inr x" "h = Inr y"
        "parse_loop n b y (fst x) (snd x) m2 = (m', Inr ())"
      by (auto simp: and_then_def split: sum.splits)
    then obtain k where k: "y = Some k" by (cases n; cases y) auto
    from h xy(2) k obtain l where l: "l \<in> set (links_of m1)" "source l = g" "target l = k"
        "m2 = m1\<lparr>mv_path := mv_path m1 @ [l]\<rparr>"
      by (auto elim: advance_Some)
    have "mv_path m \<noteq> []" using Suc.prems(3) by (simp add: is_path_def)
    then have "is_path (links_of m2) k (mv_path m2)"
      using Suc.prems(3) l kept by (simp add: is_path_snoc)
    then show ?thesis using Suc.IH [OF xy(3) k] l(4) kept by simp
  qed (use Suc.prems in auto)
qed simp

section \<open>The loop ends\<close>

lemma parse_loop_step:
  assumes "ranked r s" and bound: "\<And>g. r g \<le> bound"
  shows "links_of m = s \<Longrightarrow> (\<And>g. f = Some g \<Longrightarrow> Suc bound < r g + n) \<Longrightarrow> 0 < n
    \<Longrightarrow> parse_loop (Suc n) b f p q m = parse_loop n b f p q m"
proof (induction n arbitrary: f p q m)
  case (Suc n)
  show ?case
  proof (cases f)
    case (Some g)
    then have n: "Suc bound < r g + Suc n" using Suc.prems(2) by simp
    with bound [of g] have "0 < n" by simp
    obtain m1 x where x: "parse_field b g p q m = (m1, x)" by fastforce
    have m1: "links_of m1 = s"
      using parse_field_kept [of m b g p q] x Suc.prems(1) by (simp add: kept_def)
    obtain m2 h where h: "advance g m1 = (m2, h)" by fastforce
    have "parse_loop (Suc n) b y u v m2 = parse_loop n b y u v m2" if y: "h = Inr y" for y u v
    proof (cases y)
      case None
      then show ?thesis using \<open>0 < n\<close> by (cases n) simp_all
    next
      case (Some k)
      with h y obtain l where l: "l \<in> set (links_of m1)" "source l = g" "target l = k"
          "m2 = m1\<lparr>mv_path := mv_path m1 @ [l]\<rparr>"
        by (auto elim: advance_Some)
      then have "r g < r k" using assms(1) m1 by (auto simp: ranked_def)
      then show ?thesis using Suc.IH [of m2 y u v] l(4) m1 n \<open>0 < n\<close> Some by simp
    qed
    then have "and_then (advance g m1) (\<lambda>m y. parse_loop (Suc n) b y u v m)
        = and_then (advance g m1) (\<lambda>m y. parse_loop n b y u v m)" for u v
      unfolding h and_then_def by (simp only: fst_conv snd_conv split: sum.split) blast
    then have "and_then (parse_field b g p q m) (\<lambda>m u. and_then (advance g m) (\<lambda>m y. parse_loop (Suc n) b y (fst u) (snd u) m))
        = and_then (parse_field b g p q m) (\<lambda>m u. and_then (advance g m) (\<lambda>m y. parse_loop n b y (fst u) (snd u) m))"
      unfolding x and_then_def [of "(m1, x)"] by (simp only: fst_conv snd_conv split: sum.split)
    then show ?thesis unfolding Some parse_loop.simps(2) [of "Suc n"] parse_loop.simps(2) [of n] by simp
  qed simp
qed simp

lemma parse_loop_fuel:
  assumes "ranked r (links_of m)" "\<And>g. r g \<le> bound" "Suc bound < k" "k \<le> n"
  shows "parse_loop n b f p q m = parse_loop k b f p q m"
  using assms(4)
proof (induction n)
  case (Suc n)
  show ?case
  proof (cases "k = Suc n")
    case False
    then have "k \<le> n" using Suc.prems by simp
    then have "parse_loop (Suc n) b f p q m = parse_loop n b f p q m"
      using assms(3) by (intro parse_loop_step [OF assms(1,2)]) auto
    then show ?thesis using Suc.IH \<open>k \<le> n\<close> by simp
  qed simp
qed (use assms(3) in simp)

section \<open>Fields after a field that was set\<close>

lemma find_res_exists:
  "list_all (\<lambda>x. \<exists>b. p x = Inr b) xs \<Longrightarrow> list_ex (\<lambda>x. p x = Inr True) xs \<Longrightarrow> \<exists>x. find_res p xs = Inr (Some x)"
  by (induction xs) auto

lemma check_outgoing_next:
  assumes "check_outgoing f m = (m', Inr ())" "f \<noteq> FINAL"
  shows "m' = m \<and> (\<exists>l. next_link m f = Inr (Some l))"
proof -
  from assms(1) obtain rs where rs: "map_res (\<lambda>l. reduced m (condition l)) (outgoing (links_of m) f) = Inr rs"
      "\<not> list_ex (\<lambda>r. \<not> is_TRUE r \<and> \<not> is_FALSE r) rs" "\<not> list_all is_FALSE rs" "m' = m"
    by (auto simp: check_outgoing_def attempt_def split: sum.splits if_splits)
  then have l: "list_all2 (\<lambda>l r. reduced m (condition l) = Inr r) (outgoing (links_of m) f) rs"
    by (simp add: map_res_Inr_iff)
  then have "list_all (\<lambda>l. \<exists>b. is_true m (condition l) = Inr b) (outgoing (links_of m) f)"
    by (auto simp: list_all2_conv_all_nth list_all_length is_true_def)
  moreover have "list_ex (\<lambda>r. is_TRUE r) rs" using rs(2,3) by (induction rs) auto
  then have "list_ex (\<lambda>l. is_true m (condition l) = Inr True) (outgoing (links_of m) f)"
    using l by (auto simp: list_all2_conv_all_nth list_ex_length is_true_def)
  ultimately show ?thesis using find_res_exists rs(4) assms(2) by (simp add: next_link_def)
qed

lemma set_checked_next:
  assumes "set_checked f x n m = (m', Inr ())" "f \<noteq> FINAL"
  shows "\<exists>l. next_link m' f = Inr (Some l)"
  using assms(1) check_outgoing_next [OF _ assms(2)]
  unfolding set_checked_def Let_def attempt_def and_then_def
  by (auto split: sum.splits if_splits option.splits)

section \<open>A message of one byte\<close>

definition octet_decl :: integer_decl where
  "octet_decl = \<lparr>int_identifier = ''P::Byte'', int_first = 0, int_last = 255, int_size = 8\<rparr>"

definition single :: msg where
  "single =
     \<lparr>ms_identifier = ''P::M'', ms_structure = [plain_link INITIAL ''A'', plain_link ''A'' FINAL], ms_parameters = [],
      ms_fields = [(''A'', IntegerDecl octet_decl)], ms_checksums = [], ms_byte_order = [(''A'', HIGH_ORDER_FIRST)],
      ms_literals = [], ms_type_names = [(''P::Byte'', IntegerDecl octet_decl)]\<rparr>"

definition single_fields :: "int option \<Rightarrow> (field \<times> field_value) list" where
  "single_fields v =
     [(INITIAL, \<lparr>fd_value = OpaqueValue None (Some []), fd_first = Number 0 0, fd_last = UndefinedExpr\<rparr>),
      (''A'', \<lparr>fd_value = IntegerValue octet_decl v, fd_first = Number 0 0, fd_last = Number 7 0\<rparr>)]"

definition single_value :: "(expr \<times> expr) list \<Rightarrow> int option \<Rightarrow> link list \<Rightarrow> message_value" where
  "single_value d v p =
     \<lparr>mv_model = single, mv_parameters = [], mv_fields = single_fields v, mv_checksums = [],
      mv_mapping = d, mv_accessible = [''A''], mv_path = p\<rparr>"

definition start_mapping :: "(expr \<times> expr) list" where
  "start_mapping = map (\<lambda>e. (e, Number 0 0)) [size_of INITIAL, last_of INITIAL, first_of INITIAL, first_of ''Message'']"

definition parsed_mapping :: "(expr \<times> expr) list" where
  "parsed_mapping =
     [(size_of ''P::Byte'', Number 8 0), (first_of ''Message'', Number 0 0), (size_of INITIAL, Number 0 0),
      (first_of INITIAL, Number 0 0), (last_of INITIAL, Number (-1) 0), (Variable ''A'', Number 5 0),
      (size_of ''A'', Number 8 0), (first_of ''A'', Number 0 0), (last_of ''A'', Number 7 0)]"

lemma single_state:
  assumes "kept m r" "mv_model m = single" "mv_path m = p"
    and "case r of (m', y) \<Rightarrow> mv_parameters m' = [] \<and> mv_fields m' = single_fields v \<and> length (mv_checksums m') = 0
      \<and> mv_mapping m' = d \<and> mv_accessible m' = [''A''] \<and> y = x"
  shows "r = (single_value d v p, x)"
  using assms by (cases r) (auto simp: kept_def single_value_def intro!: message_value.equality)

lemma single_set:
  "set_checked ''A'' (BitsInput ''00000101'') (Some 8) (single_value start_mapping None [plain_link INITIAL ''A''])
    = (single_value parsed_mapping (Some 5) [plain_link INITIAL ''A''], Inr ())"
  by (rule single_state [OF set_checked_kept]) (simp add: single_value_def, simp add: single_value_def, code_simp)

lemma single_preset:
  "preset_fields ''A'' (single_value parsed_mapping (Some 5) [plain_link INITIAL ''A''])
    = (single_value parsed_mapping (Some 5) [plain_link INITIAL ''A''], Inr ())"
  by (rule single_state [OF preset_fields_kept]) (simp add: single_value_def, simp add: single_value_def, code_simp)

lemma single_links:
  "outgoing (ms_structure single) INITIAL = [plain_link INITIAL ''A'']"
  "outgoing (ms_structure single) ''A'' = [plain_link ''A'' FINAL]"
  "incoming (ms_structure single) ''A'' = [plain_link INITIAL ''A'']"
  by (simp_all add: single_def outgoing_def incoming_def plain_link_def INITIAL_def FINAL_def)

lemma plain_condition: "is_true m TRUE = Inr True"
  by (simp add: is_true_def reduced_def is_TRUE_def)

lemma single_model: "links_of (single_value d v p) = ms_structure single"
  by (simp add: single_value_def)

lemma single_next:
  "next_link (single_value d v p) INITIAL = Inr (Some (plain_link INITIAL ''A''))"
  "next_link (single_value d v p) ''A'' = Inr (Some (plain_link ''A'' FINAL))"
  unfolding next_link_def single_model single_links by (simp_all add: plain_condition INITIAL_def FINAL_def)

lemma single_prev: "prev_field (single_value d v p) ''A'' = Inr (Some INITIAL)"
  unfolding prev_field_def single_model single_links by (simp add: plain_condition INITIAL_def)

lemma single_parse_field:
  "parse_field ''00000101'' ''A'' 0 0 (single_value start_mapping None [plain_link INITIAL ''A''])
    = (single_value parsed_mapping (Some 5) [plain_link INITIAL ''A''], Inr (0, 8))"
proof -
  let ?m = "single_value start_mapping None [plain_link INITIAL ''A'']"
  have f: "field_of ?m ''A'' = Inr \<lparr>fd_value = IntegerValue octet_decl None, fd_first = Number 0 0, fd_last = Number 7 0\<rparr>"
      "field_of ?m INITIAL = Inr \<lparr>fd_value = OpaqueValue None (Some []), fd_first = Number 0 0, fd_last = UndefinedExpr\<rparr>"
    by (simp_all add: field_of_def single_value_def single_fields_def INITIAL_def)
  then have "get_size ?m ''A'' = Inr (Some (Number 8 0))" by (simp add: get_size_def octet_decl_def)
  moreover have "bit_position ?m ''A'' 0 0 = Inr 0" using f by (simp add: bit_position_def single_prev)
  moreover have "slice_bits ''00000101'' 0 8 = Inr ''00000101''" by code_simp
  ultimately show ?thesis
    using f by (simp add: parse_field_def attempt_def set_parsed_def and_then_def single_set single_preset short_message_def)
qed

lemma single_parse:
  "parse_message (Bits ''00000101'') (single_value start_mapping None [])
    = (single_value parsed_mapping (Some 5) [plain_link INITIAL ''A'', plain_link ''A'' FINAL], Inr ())"
proof -
  have "advance INITIAL (single_value start_mapping None [])
      = (single_value start_mapping None [plain_link INITIAL ''A''], Inr (Some ''A''))"
    by (simp add: advance_def attempt_def single_next) (simp add: single_value_def plain_link_def)
  moreover have "advance ''A'' (single_value parsed_mapping (Some 5) [plain_link INITIAL ''A''])
      = (single_value parsed_mapping (Some 5) [plain_link INITIAL ''A'', plain_link ''A'' FINAL], Inr (Some FINAL))"
    by (simp add: advance_def attempt_def single_next) (simp add: single_value_def plain_link_def)
  moreover have "message_fuel (single_value start_mapping None [plain_link INITIAL ''A'']) = Suc (Suc 3)"
    by (simp add: message_fuel_def single_value_def single_def)
  moreover have "(single_value start_mapping None [])\<lparr>mv_path := []\<rparr> = single_value start_mapping None []"
    by (simp add: single_value_def)
  ultimately show ?thesis
    by (simp add: parse_message_def attempt_def and_then_def single_parse_field FINAL_def eval_nat_numeral)
qed

section \<open>Properties\<close>

text \<open>
  C10. The path of a message that was parsed without an exception is a path of its structure from the initial to the
  final field.
\<close>

theorem parse_follows_path:
  assumes "parse_message x m = (m', Inr ())"
  shows "is_path (links_of m) FINAL (mv_path m')"
proof -
  let ?m = "m\<lparr>mv_path := []\<rparr>"
  from assms obtain b where b: "data_bits x = Inr b"
    by (auto simp: parse_message_def Let_def attempt_def split: sum.splits)
  obtain m1 r where r: "advance INITIAL ?m = (m1, r)" by fastforce
  with assms b obtain y where y: "r = Inr y" "parse_loop (message_fuel m1) b y 0 0 m1 = (m', Inr ())"
    by (auto simp: parse_message_def Let_def attempt_def and_then_def split: sum.splits)
  then obtain g where g: "y = Some g"
    by (cases y) (auto simp: message_fuel_def numeral_3_eq_3)
  with r y(1) obtain l where l: "l \<in> set (links_of ?m)" "source l = INITIAL" "target l = g"
      "m1 = ?m\<lparr>mv_path := mv_path ?m @ [l]\<rparr>"
    by (auto elim: advance_Some)
  then have "is_path (links_of m1) g (mv_path m1)" by (simp add: is_path_def)
  then show ?thesis using parse_loop_path [OF y(2) g] l(4) by simp
qed

theorem parse_follows_path_witness:
  "is_path (links_of (single_value start_mapping None [])) FINAL [plain_link INITIAL ''A'', plain_link ''A'' FINAL]"
  using parse_follows_path [OF single_parse] by (simp add: single_value_def)

text \<open>
  C29. The loop that parses the fields of a message with a sorted structure ends: with the fuel it is given it has the
  same result as with any more.
\<close>

theorem parse_loop_ends:
  assumes "well_linked (links_of m)" "topological_sorting False (links_of m) = Inr (Some fs)" "message_fuel m \<le> n"
  shows "parse_loop n b f p q m = parse_loop (message_fuel m) b f p q m"
proof -
  obtain r where r: "ranked r (links_of m)" "\<And>f. r f \<le> Suc (length (links_of m))"
    using sorted_ranked [OF assms(1,2)] by metis
  show ?thesis by (rule parse_loop_fuel [OF r _ assms(3)]) (simp add: message_fuel_def)
qed

theorem parse_loop_ends_witness:
  "parse_loop 9 ''00000101'' (Some ''A'') 0 0 (single_value [] None [])
    = parse_loop 5 ''00000101'' (Some ''A'') 0 0 (single_value [] None [])"
proof -
  have "message_fuel (single_value [] None []) = 5" by (simp add: message_fuel_def single_value_def single_def)
  moreover have "topological_sorting False (links_of (single_value [] None [])) = Inr (Some [''A''])"
    unfolding single_value_def single_def by code_simp
  moreover have "well_linked (links_of (single_value [] None []))"
    by (simp add: single_value_def single_def well_linked_def plain_link_def INITIAL_def FINAL_def)
  ultimately show ?thesis using parse_loop_ends [of "single_value [] None []" "[''A'']" 9] by simp
qed

text \<open>
  After a field was set without an exception there is a link from this field whose condition holds, and the
  conditions of all its links are decided.
\<close>

theorem set_field_continues:
  assumes "set_checked f x n m = (m', Inr ())" "f \<noteq> FINAL"
  shows "\<exists>l. next_link m' f = Inr (Some l) \<and> l \<in> set (outgoing (links_of m) f)"
proof -
  obtain l where l: "next_link m' f = Inr (Some l)" using set_checked_next [OF assms] by blast
  moreover have "links_of m' = links_of m" using set_checked_kept [of m f x n] assms(1) by (simp add: kept_def)
  ultimately show ?thesis using next_link_Some [OF l] by (auto simp: outgoing_def)
qed

theorem set_field_continues_witness:
  "\<exists>l. next_link (single_value parsed_mapping (Some 5) [plain_link INITIAL ''A'']) ''A'' = Inr (Some l)
    \<and> l \<in> set (outgoing (links_of (single_value start_mapping None [plain_link INITIAL ''A''])) ''A'')"
  by (rule set_field_continues [OF single_set]) (simp add: FINAL_def)

section \<open>A case in which checksum functions are refused\<close>

lemma several_checksums_refused:
  "set_checksum_functions [(''A'', \<lambda>bs as. 0)]
     ((single_value [] None [])\<lparr>mv_checksums := map (\<lambda>i. (i, \<lparr>ck_function = None, ck_calculated = False, ck_parameters = []\<rparr>)) [''A'', ''B'']\<rparr>)
   = ((single_value [] None [])\<lparr>mv_checksums := map (\<lambda>i. (i, \<lparr>ck_function = None, ck_calculated = False, ck_parameters = []\<rparr>)) [''A'', ''B'']\<rparr>,
      Inl (pyrflx_error ''field has not been defined as a checksum field''))"
  by (simp add: set_function_def attempt_def single_value_def single_def field_names_def)

end
