(* ===== verification/Model_Checks.thy ===== *)
theory Model_Checks
  imports Type_Decl
begin

text \<open>
  Models (\<open>rflx/model/model.py\<close>): the declarations of a specification are checked one after another, each with those
  before it, or taken from the cache of verified ones (\<open>rflx/model/cache.py\<close>).  A model is rejected if names or literals
  conflict; the literals of an accepted model are unambiguous.
\<close>

section \<open>Declarations\<close>

text \<open>A declaration is given with the declarations it depends on.\<close>

datatype top_declaration =
    TypeDeclaration type_decl "top_declaration list"
  | RefinementDeclaration ident ident ident "top_declaration list"
  | MachineDeclaration ident "top_declaration list"

fun declaration_identifier :: "top_declaration \<Rightarrow> ident" where
  "declaration_identifier (TypeDeclaration t ds) = decl_identifier t"
| "declaration_identifier (RefinementDeclaration i p s ds) = i"
| "declaration_identifier (MachineDeclaration i ds) = i"

definition declaration_package :: "top_declaration \<Rightarrow> ident" where
  "declaration_package d = package_of (declaration_identifier d)"

fun declaration_dependencies :: "top_declaration \<Rightarrow> top_declaration list" where
  "declaration_dependencies (TypeDeclaration t ds) = ds"
| "declaration_dependencies (RefinementDeclaration i p s ds) = ds"
| "declaration_dependencies (MachineDeclaration i ds) = ds"

fun declared_enumeration :: "top_declaration \<Rightarrow> enum_decl option" where
  "declared_enumeration (TypeDeclaration (EnumDecl e) ds) = Some e"
| "declared_enumeration d = None"

section \<open>Duplicates\<close>

datatype name_error =
    RedefinedBuiltin ident
  | ConflictingRefinement ident ident
  | TypeConflict ident
  | MachineConflict ident
  | ConflictingLiterals "ident list"
  | LiteralConflict ident ident

fun name_conflict :: "top_declaration \<Rightarrow> name_error" where
  "name_conflict (TypeDeclaration t ds) = TypeConflict (decl_identifier t)"
| "name_conflict (RefinementDeclaration i p s ds) = ConflictingRefinement p s"
| "name_conflict (MachineDeclaration i ds) = MachineConflict i"

definition is_predefined :: "ident \<Rightarrow> bool" where
  "is_predefined p = (id_eq p BUILTINS_PACKAGE \<or> id_eq p INTERNAL_PACKAGE)"

definition redefines_builtin :: "ident \<Rightarrow> bool" where
  "redefines_builtin i = (is_builtin_type (id_name i) \<or> is_internal_type (id_name i))"

primrec duplicate_names :: "ident list \<Rightarrow> top_declaration list \<Rightarrow> name_error list" where
  "duplicate_names seen [] = []"
| "duplicate_names seen (d # ds) =
     (let i = declaration_identifier d in
      if is_predefined (declaration_package d) then duplicate_names seen ds
      else
        (if redefines_builtin i then [RedefinedBuiltin (id_name i)]
         else if list_ex (id_eq i) seen then [name_conflict d]
         else [])
        @ duplicate_names (seen @ [i]) ds)"

definition check_duplicates :: "top_declaration list \<Rightarrow> name_error list" where
  "check_duplicates ds = duplicate_names [] ds"

section \<open>Conflicts of literals\<close>

definition literal_ids :: "enum_decl \<Rightarrow> ident list" where
  "literal_ids e = map fst (enum_literals e)"

definition enum_package :: "enum_decl \<Rightarrow> ident" where
  "enum_package e = package_of (enum_identifier e)"

definition compared_packages :: "ident \<Rightarrow> ident \<Rightarrow> bool" where
  "compared_packages p q = (id_eq p q \<or> id_eq p BUILTINS_PACKAGE \<or> id_eq q BUILTINS_PACKAGE)"

definition common_literals :: "enum_decl \<Rightarrow> enum_decl \<Rightarrow> ident list" where
  "common_literals e1 e2 = filter (\<lambda>l. list_ex (id_eq l) (literal_ids e1)) (literal_ids e2)"

definition literal_pair_errors :: "enum_decl \<Rightarrow> enum_decl \<Rightarrow> name_error list" where
  "literal_pair_errors e1 e2 =
     (if compared_packages (enum_package e1) (enum_package e2) \<and> common_literals e1 e2 \<noteq> []
      then [ConflictingLiterals (common_literals e1 e2)] else [])"

primrec literal_errors :: "enum_decl list \<Rightarrow> name_error list" where
  "literal_errors [] = []"
| "literal_errors (e # es) = concat (map (literal_pair_errors e) es) @ literal_errors es"

definition qualified_literal_ids :: "enum_decl list \<Rightarrow> ident list" where
  "qualified_literal_ids es = concat (map (\<lambda>e. map (id_join (enum_package e)) (literal_ids e)) es)"

text \<open>The names that are in conflict: identifiers of declarations, and the name of the built-in type.\<close>

definition conflicting_name :: "top_declaration list \<Rightarrow> ident \<Rightarrow> bool" where
  "conflicting_name ds l =
     (list_ex (\<lambda>d. id_eq l (declaration_identifier d)) ds \<or> id_eq (id_name l) ''Boolean'')"

definition type_literal_errors :: "top_declaration list \<Rightarrow> ident list \<Rightarrow> name_error list" where
  "type_literal_errors ds ls =
     concat (map (\<lambda>l. concat (map (\<lambda>d.
       if conflicting_name ds l \<and> id_eq (id_name l) (id_name (declaration_identifier d))
       then [LiteralConflict (id_name l) (declaration_identifier d)] else []) ds)) ls)"

definition enumerations :: "top_declaration list \<Rightarrow> enum_decl list" where
  "enumerations ds = List.map_filter declared_enumeration ds"

definition check_conflicts :: "top_declaration list \<Rightarrow> name_error list" where
  "check_conflicts ds =
     literal_errors (enumerations ds) @ type_literal_errors ds (qualified_literal_ids (enumerations ds))"

section \<open>Models\<close>

fun firsts :: "'a list \<Rightarrow> 'a list" where
  "firsts [] = []"
| "firsts (x # xs) = x # filter (\<lambda>y. y \<noteq> x) (firsts xs)"

definition add_type_dependencies :: "top_declaration list \<Rightarrow> top_declaration list" where
  "add_type_dependencies ds = firsts (concat (map (\<lambda>d. declaration_dependencies d @ [d]) ds))"


datatype 'e model_error = NameError name_error | DeclarationError 'e

text \<open>The constructor raises the errors it is given together with those it finds.\<close>

definition make_model :: "top_declaration list \<Rightarrow> 'e model_error list \<Rightarrow> 'e model_error list + top_declaration list" where
  "make_model ds errors =
     (let ds' = add_type_dependencies ds;
          es = errors @ map NameError (check_duplicates ds) @ map NameError (check_conflicts ds') in
      if es = [] then Inr ds' else Inl es)"

section \<open>The cache of verified declarations\<close>

text \<open>A digest has the name of a declaration as key; it has a value for messages and refinements only.\<close>

type_synonym digest = "string \<times> string option"

datatype cache = Cache "(string \<times> string list) list" | AlwaysVerify | NeverVerify

fun is_verified :: "cache \<Rightarrow> digest \<Rightarrow> bool" where
  "is_verified (Cache c) (k, v) =
     (case map_of c k of None \<Rightarrow> False | Some vs \<Rightarrow> (case v of None \<Rightarrow> False | Some x \<Rightarrow> x \<in> set vs))"
| "is_verified AlwaysVerify d = False"
| "is_verified NeverVerify d = True"

fun add_verified :: "cache \<Rightarrow> digest \<Rightarrow> cache" where
  "add_verified (Cache c) (k, v) =
     (case v of
        None \<Rightarrow> Cache c
      | Some x \<Rightarrow>
          (case map_of c k of
             None \<Rightarrow> Cache (dict_set k [x] c)
           | Some vs \<Rightarrow> if x \<in> set vs then Cache c else Cache (dict_set k (vs @ [x]) c)))"
| "add_verified c d = c"

text \<open>
  An unchecked declaration is known by its method \<open>checked\<close>, which is given the declarations before it and whether the
  verification is skipped, and returns errors or the declaration.  Other exceptions are left out.
\<close>

type_synonym 'e pending = "top_declaration list \<Rightarrow> bool \<Rightarrow> 'e list + top_declaration"

definition check_one ::
    "(top_declaration \<Rightarrow> digest) \<Rightarrow> (top_declaration \<Rightarrow> 'e list) \<Rightarrow> cache \<Rightarrow> top_declaration list \<Rightarrow> 'e pending
      \<Rightarrow> 'e list \<times> top_declaration option \<times> cache" where
  "check_one digest style cache ds u =
     (case u ds True of
        Inl es \<Rightarrow> (es, None, cache)
      | Inr d \<Rightarrow>
          if is_verified cache (digest d) then ([], Some d, add_verified cache (digest d))
          else
            (case u ds False of
               Inl es \<Rightarrow> (es, None, cache)
             | Inr d' \<Rightarrow> (style d', Some d', add_verified cache (digest d))))"

primrec check_all ::
    "(top_declaration \<Rightarrow> digest) \<Rightarrow> (top_declaration \<Rightarrow> 'e list) \<Rightarrow> cache \<Rightarrow> top_declaration list \<Rightarrow> 'e pending list
      \<Rightarrow> 'e list \<times> top_declaration list \<times> cache" where
  "check_all digest style cache ds [] = ([], ds, cache)"
| "check_all digest style cache ds (u # us) =
     (let (es, d, cache') = check_one digest style cache ds u;
          (es', ds', cache'') =
            check_all digest style cache' (ds @ (case d of None \<Rightarrow> [] | Some x \<Rightarrow> [x])) us in
      (es @ es', ds', cache''))"

definition check_model ::
    "(top_declaration \<Rightarrow> digest) \<Rightarrow> (top_declaration \<Rightarrow> 'e list) \<Rightarrow> cache \<Rightarrow> 'e list \<Rightarrow> 'e pending list
      \<Rightarrow> ('e model_error list + top_declaration list) \<times> cache" where
  "check_model digest style cache errors us =
     (let (es, ds, cache') = check_all digest style cache [] us in
      (make_model ds (map DeclarationError (errors @ es)), cache'))"

section \<open>The cache does not change the result\<close>

text \<open>
  A digest stands for a verification: declarations with the same digest are verified with the same result.  Only
  declarations without a value of the digest have style checks.
\<close>

definition verifies :: "(top_declaration \<Rightarrow> digest) \<Rightarrow> 'e pending list \<Rightarrow> digest \<Rightarrow> bool" where
  "verifies digest us g \<longleftrightarrow>
     (\<forall>u\<in>set us. \<forall>ds d. u ds True = Inr d \<and> digest d = g \<longrightarrow> u ds False = Inr d)"

definition faithful_digest :: "(top_declaration \<Rightarrow> digest) \<Rightarrow> (top_declaration \<Rightarrow> 'e list) \<Rightarrow> 'e pending list \<Rightarrow> bool" where
  "faithful_digest digest style us \<longleftrightarrow>
     (\<forall>u\<in>set us. \<forall>ds d d'. u ds True = Inr d \<and> u ds False = Inr d' \<longrightarrow>
        (snd (digest d) \<noteq> None \<longrightarrow> verifies digest us (digest d) \<and> style d' = []))"

fun cache_sound :: "(top_declaration \<Rightarrow> digest) \<Rightarrow> 'e pending list \<Rightarrow> cache \<Rightarrow> bool" where
  "cache_sound digest us NeverVerify = False"
| "cache_sound digest us AlwaysVerify = True"
| "cache_sound digest us c = (\<forall>g. is_verified c g \<longrightarrow> verifies digest us g)"

lemma is_verified_add:
  "is_verified (add_verified (Cache c) g) h \<longleftrightarrow> is_verified (Cache c) h \<or> (h = g \<and> snd g \<noteq> None)"
  by (cases g; cases h) (auto simp: dict_set_lookup split: option.splits if_splits)

lemma is_verified_value: "is_verified (Cache c) g \<Longrightarrow> snd g \<noteq> None"
  by (cases g) (auto split: option.splits)

lemma add_verified_Cache: "\<exists>y. add_verified (Cache x) g = Cache y"
  by (cases g) (simp split: option.split)

lemma add_verified_sound:
  "cache_sound digest us c \<Longrightarrow> (snd g \<noteq> None \<Longrightarrow> verifies digest us g) \<Longrightarrow> cache_sound digest us (add_verified c g)"
proof (cases c)
  case (Cache x)
  assume "cache_sound digest us c" "snd g \<noteq> None \<Longrightarrow> verifies digest us g"
  moreover obtain y where "add_verified (Cache x) g = Cache y"
    using add_verified_Cache by blast
  ultimately show ?thesis
    using is_verified_add [of x g] unfolding Cache by (metis cache_sound.simps(3))
qed simp_all

lemma check_one_transparent:
  assumes "cache_sound digest us c" "faithful_digest digest style us" "u \<in> set us"
  shows "fst (check_one digest style c ds u) = fst (check_one digest style AlwaysVerify ds u)"
    and "fst (snd (check_one digest style c ds u)) = fst (snd (check_one digest style AlwaysVerify ds u))"
    and "cache_sound digest us (snd (snd (check_one digest style c ds u)))"
proof -
  have "fst (check_one digest style c ds u) = fst (check_one digest style AlwaysVerify ds u)
    \<and> fst (snd (check_one digest style c ds u)) = fst (snd (check_one digest style AlwaysVerify ds u))
    \<and> cache_sound digest us (snd (snd (check_one digest style c ds u)))"
  proof (cases "u ds True")
    case (Inl es)
    then show ?thesis using assms(1) by (simp add: check_one_def)
  next
    case (Inr d)
    show ?thesis
    proof (cases "is_verified c (digest d)")
      case True
      then obtain x where x: "c = Cache x" using assms(1) by (cases c) auto
      have "verifies digest us (digest d)" using True assms(1) unfolding x by (metis cache_sound.simps(3))
      then have d: "u ds False = Inr d" using Inr assms(3) by (auto simp: verifies_def)
      have "style d = []"
        using assms(2,3) Inr d is_verified_value [of x "digest d"] True x by (auto simp: faithful_digest_def)
      then show ?thesis
        using Inr True d x assms(1) \<open>verifies digest us (digest d)\<close>
        by (auto simp: check_one_def simp del: is_verified.simps(1) add_verified.simps intro!: add_verified_sound)
    next
      case False
      have "snd (digest d) \<noteq> None \<Longrightarrow> verifies digest us (digest d)" if "u ds False = Inr d'" for d'
        using assms(2,3) Inr that unfolding faithful_digest_def by blast
      then show ?thesis
        using Inr False assms(1)
        by (auto simp: check_one_def simp del: is_verified.simps(1) add_verified.simps intro!: add_verified_sound split: sum.splits)
    qed
  qed
  then show "fst (check_one digest style c ds u) = fst (check_one digest style AlwaysVerify ds u)"
    and "fst (snd (check_one digest style c ds u)) = fst (snd (check_one digest style AlwaysVerify ds u))"
    and "cache_sound digest us (snd (snd (check_one digest style c ds u)))"
    by blast+
qed

lemma check_one_always: "snd (snd (check_one digest style AlwaysVerify ds u)) = AlwaysVerify"
  by (auto simp: check_one_def split: sum.splits)

lemma check_all_transparent:
  assumes "faithful_digest digest style vs"
  shows "set us \<subseteq> set vs \<Longrightarrow> cache_sound digest vs c \<Longrightarrow>
    fst (check_all digest style c ds us) = fst (check_all digest style AlwaysVerify ds us)
    \<and> fst (snd (check_all digest style c ds us)) = fst (snd (check_all digest style AlwaysVerify ds us))
    \<and> cache_sound digest vs (snd (snd (check_all digest style c ds us)))"
proof (induction us arbitrary: c ds)
  case (Cons u us)
  then have u: "u \<in> set vs" "set us \<subseteq> set vs" by auto
  note one = check_one_transparent [OF Cons.prems(2) assms u(1), of ds]
  show ?case
    using Cons.IH [OF u(2) one(3)] one(1,2) check_one_always [of digest style ds u]
    by (auto simp: split_beta)
qed simp


section \<open>Distinct names\<close>

lemma duplicate_names_none:
  "duplicate_names seen ds = [] \<longleftrightarrow>
     (let is = map declaration_identifier (filter (\<lambda>d. \<not> is_predefined (declaration_package d)) ds) in
      list_all (\<lambda>i. \<not> redefines_builtin i) is \<and> distinct (map lower is) \<and> lower ` set is \<inter> lower ` set seen = {})"
  by (induction ds arbitrary: seen) (auto simp: Let_def list_ex_iff id_eq_def list_all_iff image_iff)

section \<open>Unambiguous literals\<close>

definition plain_name :: "ident \<Rightarrow> bool" where
  "plain_name l = list_all (\<lambda>c. c \<noteq> CHR '':'') l"

lemma lower_colon: "lower_char c = CHR '':'' \<longleftrightarrow> c = CHR '':''"
proof
  assume l: "lower_char c = CHR '':''"
  have colon: "char_code (CHR '':'') = 58" by (simp add: char_code_def)
  have "char_code (char_of n) = n mod 256" for n :: nat by (simp add: char_code_def)
  then have "\<not> (65 \<le> char_code c \<and> char_code c \<le> 90)"
    using l colon by (auto simp: lower_char_def split: if_splits dest!: arg_cong [where f = char_code])
  then show "c = CHR '':''" using l by (auto simp: lower_char_def split: if_splits)
qed (simp add: lower_char_def char_code_def)

lemma lower_char_colon [simp]: "lower_char CHR '':'' = CHR '':''"
  by (simp add: lower_colon)

lemma plain_lower: "plain_name l \<longleftrightarrow> CHR '':'' \<notin> set (lower l)"
  by (auto simp: plain_name_def lower_def list_all_iff image_iff lower_colon eq_commute)

lemma append_plain:
  assumes "x @ c # m = y @ c # n" "c \<notin> set m" "c \<notin> set n"
  shows "x = y \<and> m = n"
proof -
  have "takeWhile (\<lambda>d. d \<noteq> c) (rev (x @ c # m)) = rev m" if "c \<notin> set m" for x m
    using that by (simp add: takeWhile_append takeWhile_eq_all_conv)
  then have "m = n" using assms by (metis rev_is_rev_conv)
  then show ?thesis using assms(1) by simp
qed

lemma join_eq:
  assumes "id_eq (id_join p l) (id_join q k)" "plain_name l" "plain_name k"
  shows "id_eq p q \<and> id_eq l k"
  using append_plain [of "lower p @ '':''" "CHR '':''" "lower l" "lower q @ '':''" "lower k"] assms
  by (simp add: id_eq_def id_join_def plain_lower) (simp add: lower_def)

lemma join_not_plain:
  assumes "plain_name k"
  shows "\<not> id_eq (id_join p l) k"
proof -
  have "CHR '':'' \<in> set (lower (id_join p l))" by (simp add: lower_def id_join_def)
  then show ?thesis using assms by (auto simp: id_eq_def plain_lower)
qed

text \<open>The entries that a declaration makes in the table of literals.\<close>

definition entries_of :: "ident \<Rightarrow> enum_decl \<Rightarrow> ident \<Rightarrow> (ident \<times> enum_decl) list" where
  "entries_of p d l =
     (if id_eq (enum_package d) BUILTINS_PACKAGE \<or> id_eq (enum_package d) p then [(l, d)] else [])
     @ (if \<not> id_eq (enum_package d) BUILTINS_PACKAGE then [(id_join (enum_package d) l, d)] else [])"

fun literal_entries :: "ident \<Rightarrow> type_decl \<Rightarrow> (ident \<times> enum_decl) list" where
  "literal_entries p (EnumDecl d) = concat (map (entries_of p d) (literal_ids d))"
| "literal_entries p t = []"

definition set_entries :: "(ident \<times> 'a) list \<Rightarrow> (ident \<times> 'a) list \<Rightarrow> (ident \<times> 'a) list" where
  "set_entries es m = fold (\<lambda>(k, v). id_set k v) es m"

lemma add_literals_entries: "add_literals p t m = set_entries (literal_entries p t) m"
proof (cases t)
  case (EnumDecl d)
  have "add_literals p t m = fold (\<lambda>(l, v). set_entries (entries_of p d l)) (enum_literals d) m"
    unfolding EnumDecl add_literals.simps Let_def
    by (rule arg_cong [where f = "\<lambda>f. fold f (enum_literals d) m"])
      (auto simp: fun_eq_iff entries_of_def set_entries_def enum_package_def)
  also have "fold (\<lambda>(l, v). set_entries (entries_of p d l)) ls m = set_entries (concat (map (entries_of p d) (map fst ls))) m" for ls
    by (induction ls arbitrary: m) (auto simp: set_entries_def)
  finally show ?thesis by (simp add: EnumDecl literal_ids_def)
qed (simp_all add: set_entries_def)

lemma literal_table_entries: "literal_table ts p = set_entries (concat (map (literal_entries p) ts)) []"
proof -
  have "fold (add_literals p) ts m = set_entries (concat (map (literal_entries p) ts)) m" for m
    by (induction ts arbitrary: m) (simp_all add: add_literals_entries set_entries_def)
  then show ?thesis by (simp add: literal_table_def)
qed

lemma lookup_entries:
  "id_lookup (set_entries es m) k =
     (case find (\<lambda>(k', v). id_eq k' k) (rev es) of Some (k', v) \<Rightarrow> Some v | None \<Rightarrow> id_lookup m k)"
proof (induction es rule: rev_induct)
  case (snoc e es)
  then show ?case by (cases e) (simp add: set_entries_def lookup_id_set split: option.splits)
qed (simp add: set_entries_def)

lemma lookup_unique:
  assumes "(k', d) \<in> set es" "id_eq k' k" "\<And>j v. (j, v) \<in> set es \<Longrightarrow> id_eq j k \<Longrightarrow> v = d"
  shows "id_lookup (set_entries es m) k = Some d"
proof (cases "find (\<lambda>(k', v). id_eq k' k) (rev es)")
  case None
  then show ?thesis using assms(1,2) by (auto simp: find_None_iff)
next
  case (Some e)
  then have "e \<in> set es" "id_eq (fst e) k"
    by (auto simp: find_Some_iff dest: nth_mem) (metis length_rev nth_mem set_rev)
  then show ?thesis using assms(3) [of "fst e" "snd e"] Some by (auto simp: lookup_entries split: prod.splits)
qed

text \<open>Two enumerations whose literals are visible in one package have no literal in common.\<close>

lemma common_literals_none:
  assumes "literal_errors es = []" "i < j" "j < length es" "compared_packages (enum_package (es ! i)) (enum_package (es ! j))"
    and "l \<in> set (literal_ids (es ! i))" "k \<in> set (literal_ids (es ! j))"
  shows "\<not> id_eq l k"
proof -
  have "literal_pair_errors (es ! i) (es ! j) = []"
    using assms(1-3)
  proof (induction es arbitrary: i j)
    case (Cons e es)
    then show ?case by (cases i; cases j) auto
  qed simp
  then show ?thesis
    using assms(4-6)
    by (auto simp: literal_pair_errors_def common_literals_def filter_empty_conv list_ex_iff id_eq_def split: if_splits) metis
qed

lemma same_enumeration:
  assumes "literal_errors es = []" "d \<in> set es" "e \<in> set es" "compared_packages (enum_package d) (enum_package e)"
    and "l \<in> set (literal_ids d)" "k \<in> set (literal_ids e)" "id_eq l k"
  shows "d = e"
proof -
  obtain i j where ij: "i < length es" "es ! i = d" "j < length es" "es ! j = e"
    using assms(2,3) by (meson in_set_conv_nth)
  have sym: "compared_packages (enum_package e) (enum_package d)" "id_eq k l"
    using assms(4,7) by (auto simp: compared_packages_def id_eq_def)
  show ?thesis
    using common_literals_none [OF assms(1), of i j l k] common_literals_none [OF assms(1), of j i k l] ij assms(4-7) sym
    by (metis linorder_neqE_nat)
qed

definition simple_literals :: "enum_decl list \<Rightarrow> bool" where
  "simple_literals es = list_all (\<lambda>e. list_all plain_name (literal_ids e)) es"

definition type_declarations :: "top_declaration list \<Rightarrow> type_decl list" where
  "type_declarations ds = List.map_filter (\<lambda>d. case d of TypeDeclaration t ts \<Rightarrow> Some t | _ \<Rightarrow> None) ds"

lemma table_entry:
  "(k, d) \<in> set (concat (map (literal_entries p) (type_declarations ds))) \<longleftrightarrow>
     d \<in> set (enumerations ds) \<and> (\<exists>l\<in>set (literal_ids d). (k, d) \<in> set (entries_of p d l))"
proof -
  have "(\<exists>t\<in>set (type_declarations ds). t = EnumDecl d) \<longleftrightarrow> d \<in> set (enumerations ds)" for d
    by (induction ds) (auto simp: type_declarations_def enumerations_def map_filter_simps split: option.splits top_declaration.splits
      elim!: declared_enumeration.elims)
  moreover have "(k, d) \<in> set (literal_entries p t) \<longleftrightarrow>
      t = EnumDecl d \<and> (\<exists>l\<in>set (literal_ids d). (k, d) \<in> set (entries_of p d l))" for t
    by (cases t) (auto simp: entries_of_def split: if_splits)
  ultimately show ?thesis by auto
qed

lemma literal_lookup:
  assumes "make_model ds errors = Inr ds'" "e \<in> set (enumerations ds')" "l \<in> set (literal_ids e)"
    and "simple_literals (enumerations ds')"
  shows "id_eq (enum_package e) p \<Longrightarrow> id_lookup (literal_table (type_declarations ds') p) l = Some e"
    and "\<not> id_eq (enum_package e) BUILTINS_PACKAGE \<Longrightarrow>
      id_lookup (literal_table (type_declarations ds') p) (id_join (enum_package e) l) = Some e"
proof -
  have none: "literal_errors (enumerations ds') = []"
    using assms(1) by (auto simp: make_model_def Let_def check_conflicts_def split: if_splits)
  have plain: "plain_name k" if "d \<in> set (enumerations ds')" "k \<in> set (literal_ids d)" for d k
    using assms(4) that by (auto simp: simple_literals_def list_all_iff)
  let ?es = "concat (map (literal_entries p) (type_declarations ds'))"
  have unique: "d = e" if "(j, d) \<in> set ?es" "id_eq j l" "id_eq (enum_package e) p" for j d
  proof -
    from that(1) obtain k where k: "d \<in> set (enumerations ds')" "k \<in> set (literal_ids d)" "(j, d) \<in> set (entries_of p d k)"
      unfolding table_entry by blast
    then have "j = k" "id_eq (enum_package d) BUILTINS_PACKAGE \<or> id_eq (enum_package d) p"
      using that(2) join_not_plain [OF plain [OF assms(2,3)]] by (auto simp: entries_of_def split: if_splits)
    then show ?thesis
      using same_enumeration [OF none k(1) assms(2) _ k(2) assms(3)] that(2,3)
      by (auto simp: compared_packages_def id_eq_def)
  qed
  show "id_lookup (literal_table (type_declarations ds') p) l = Some e" if "id_eq (enum_package e) p"
    unfolding literal_table_entries
    by (rule lookup_unique [of l]) (use assms(2,3) that unique in \<open>auto simp: table_entry entries_of_def simp del: set_concat\<close>)
  have unique': "d = e" if "(j, d) \<in> set ?es" "id_eq j (id_join (enum_package e) l)" for j d
  proof -
    from that(1) obtain k where k: "d \<in> set (enumerations ds')" "k \<in> set (literal_ids d)" "(j, d) \<in> set (entries_of p d k)"
      unfolding table_entry by blast
    then have "j = id_join (enum_package d) k"
      using that(2) join_not_plain [OF plain [OF k(1,2)]] id_eq_sym by (auto simp: entries_of_def split: if_splits)
    then have "id_eq (enum_package d) (enum_package e)" "id_eq k l"
      using join_eq that(2) plain k(1,2) assms(2,3) by blast+
    then show ?thesis
      using same_enumeration [OF none k(1) assms(2) _ k(2) assms(3)] by (auto simp: compared_packages_def)
  qed
  show "id_lookup (literal_table (type_declarations ds') p) (id_join (enum_package e) l) = Some e"
    if "\<not> id_eq (enum_package e) BUILTINS_PACKAGE"
    unfolding literal_table_entries
    by (rule lookup_unique [of "id_join (enum_package e) l"])
      (use assms(2,3) that unique' in \<open>auto simp: table_entry entries_of_def simp del: set_concat\<close>)
qed

text \<open>
  C22. In an accepted model the literals are unambiguous: in its own package a literal, and in every package the literal
  qualified by the package, denotes the enumeration that declares it.
\<close>

theorem literals_unambiguous:
  assumes "make_model ds errors = Inr ds'" "e \<in> set (enumerations ds')" "l \<in> set (literal_ids e)"
    and "simple_literals (enumerations ds')"
  shows "(id_eq (enum_package e) p \<longrightarrow> id_lookup (literal_table (type_declarations ds') p) l = Some e)
    \<and> (\<not> id_eq (enum_package e) BUILTINS_PACKAGE \<longrightarrow>
         id_lookup (literal_table (type_declarations ds') p) (id_join (enum_package e) l) = Some e)"
  using literal_lookup [OF assms] by blast

definition enum_example :: "ident \<Rightarrow> ident list \<Rightarrow> enum_decl" where
  "enum_example i ls =
     \<lparr>enum_identifier = i, enum_literals = zip ls (map int [0..<length ls]), enum_size = 8, always_valid = False\<rparr>"

definition example_model :: "top_declaration list" where
  "example_model =
     [TypeDeclaration (EnumDecl (enum_example ''P::T'' [''A'', ''B''])) [],
      TypeDeclaration (EnumDecl (enum_example ''Q::T'' [''A'', ''C''])) [],
      MachineDeclaration ''P::S'' [TypeDeclaration (EnumDecl (enum_example ''P::U'' [''D''])) []]]"

theorem literals_unambiguous_witness:
  "id_lookup (literal_table (type_declarations (add_type_dependencies example_model)) ''P'') ''A''
     = Some (enum_example ''P::T'' [''A'', ''B''])
   \<and> id_lookup (literal_table (type_declarations (add_type_dependencies example_model)) ''P'') ''Q::A''
     = Some (enum_example ''Q::T'' [''A'', ''C''])"
proof -
  let ?ds = "add_type_dependencies example_model"
  have c: "check_duplicates example_model = []" "check_conflicts ?ds = []"
    by code_simp+
  then have m: "make_model example_model ([] :: unit model_error list) = Inr ?ds"
    by (simp add: make_model_def Let_def)
  have s: "simple_literals (enumerations ?ds)"
    by code_simp
  have p: "enum_example ''P::T'' [''A'', ''B''] \<in> set (enumerations ?ds)" "id_eq (enum_package (enum_example ''P::T'' [''A'', ''B''])) ''P''"
    by code_simp+
  have q: "enum_example ''Q::T'' [''A'', ''C''] \<in> set (enumerations ?ds)"
      "\<not> id_eq (enum_package (enum_example ''Q::T'' [''A'', ''C''])) BUILTINS_PACKAGE"
      "id_join (enum_package (enum_example ''Q::T'' [''A'', ''C''])) ''A'' = ''Q::A''"
    by code_simp+
  have l: "''A'' \<in> set (literal_ids (enum_example ''P::T'' [''A'', ''B'']))" "''A'' \<in> set (literal_ids (enum_example ''Q::T'' [''A'', ''C'']))"
    by code_simp+
  show ?thesis
    using literals_unambiguous [OF m p(1) l(1) s, of "''P''"] literals_unambiguous [OF m q(1) l(2) s, of "''P''"] p(2) q(2,3)
    by simp
qed

text \<open>Two enumerations of one package with a common literal are rejected, and so is a second declaration of a name.\<close>

lemma conflicts_rejected:
  "make_model
     [TypeDeclaration (EnumDecl (enum_example ''P::T'' [''A'', ''B''])) [], TypeDeclaration (EnumDecl (enum_example ''P::U'' [''b''])) []]
     ([] :: unit model_error list) = Inl [NameError (ConflictingLiterals [''b''])]"
  "make_model [MachineDeclaration ''P::S'' [], MachineDeclaration ''p::s'' []] ([] :: unit model_error list)
     = Inl [NameError (MachineConflict ''p::s'')]"
  by code_simp+

section \<open>A cached declaration\<close>

definition named_digest :: "top_declaration \<Rightarrow> digest" where
  "named_digest d = (declaration_identifier d, Some ''x'')"

definition example_units :: "string pending list" where
  "example_units =
     [\<lambda>ds skip. Inr (MachineDeclaration ''P::A'' []),
      \<lambda>ds skip. if skip then Inr (MachineDeclaration ''P::B'' []) else Inl [''error'']]"

lemma one_verified: "is_verified (Cache [(k, [x])]) g \<longleftrightarrow> g = (k, Some x)"
  by (cases g) (auto split: option.splits if_splits)


end
