(* ===== verification/Code_Optimizer.thy ===== *)
theory Code_Optimizer
  imports Prelude
begin

text \<open>
  The optimization of generated code (\<open>rflx/generator/optimizer.py\<close>): an assertion that is always false is put before
  every jump, and the checks whose assertion is proved, that is whose jump is never reached, are removed
  together with all assertions.  The results of GNATprove are an argument.
\<close>

section \<open>Lines\<close>

definition lstrip :: "string \<Rightarrow> string" where
  "lstrip s = dropWhile is_space s"

definition strip :: "string \<Rightarrow> string" where
  "strip s = rev (lstrip (rev (lstrip s)))"

definition starts_with :: "string \<Rightarrow> string \<Rightarrow> bool" where
  "starts_with p s = (take (length p) s = p)"

datatype line_kind = IfLine | GotoLine | ElseLine | EndIfLine | OtherLine

definition kind_of :: "string \<Rightarrow> line_kind" where
  "kind_of l =
     (let s = strip l in
      if starts_with ''if'' s then IfLine
      else if starts_with ''goto'' s then GotoLine
      else if starts_with ''else'' s then ElseLine
      else if starts_with ''end if'' s then EndIfLine
      else OtherLine)"

definition false_assertion :: string where
  "false_assertion = ''pragma Assert (False)''"

definition assertion_before :: "string \<Rightarrow> string" where
  "assertion_before l = takeWhile (\<lambda>c. c = CHR 0x20) l @ false_assertion @ '';''"

section \<open>Instrumentation\<close>

record check_range =
  ck_begin :: nat
  ck_assertion :: nat
  ck_end :: nat

definition no_check :: check_range where
  "no_check = \<lparr>ck_begin = 0, ck_assertion = 0, ck_end = 0\<rparr>"

definition valid_begin :: "check_range \<Rightarrow> bool" where
  "valid_begin c = (0 < ck_begin c)"

definition valid_check :: "check_range \<Rightarrow> bool" where
  "valid_check c = (0 < ck_begin c \<and> ck_begin c < ck_assertion c \<and> ck_assertion c < ck_end c)"

type_synonym checks = "(nat \<times> check_range) list"

text \<open>The loop over the lines, with the number of the current line.\<close>

fun instrument_lines :: "nat \<Rightarrow> check_range \<Rightarrow> checks \<Rightarrow> string list \<Rightarrow> string list \<times> checks" where
  "instrument_lines i c cs [] = ([], cs)"
| "instrument_lines i c cs (l # ls) =
     (case kind_of l of
        IfLine \<Rightarrow>
          (let (out, r) = instrument_lines (Suc i) (c\<lparr>ck_begin := i + length cs\<rparr>) cs ls in (l # out, r))
      | GotoLine \<Rightarrow>
          (let (out, r) = instrument_lines (Suc i) (c\<lparr>ck_assertion := i + length cs\<rparr>) cs ls in
           ((if valid_begin c then [assertion_before l, l] else [l]) @ out, r))
      | ElseLine \<Rightarrow>
          (let (out, r) = instrument_lines (Suc i) (c\<lparr>ck_begin := 0\<rparr>) cs ls in (l # out, r))
      | EndIfLine \<Rightarrow>
          (let c' = c\<lparr>ck_end := i + length cs + 1\<rparr>;
               (out, r) =
                 (if valid_check c' then instrument_lines (Suc i) no_check (dict_set (ck_assertion c') c' cs) ls
                  else instrument_lines (Suc i) c' cs ls) in
           (l # out, r))
      | OtherLine \<Rightarrow>
          (let (out, r) = instrument_lines (Suc i) c cs ls in (l # out, r)))"

definition unlines :: "string list \<Rightarrow> string" where
  "unlines ls = concat (map (\<lambda>l. l @ [newline_char]) ls)"

definition instrument :: "string \<Rightarrow> string \<times> checks" where
  "instrument content =
     (let (out, cs) = instrument_lines 1 no_check [] (split_char newline_char (strip content)) in (unlines out, cs))"

section \<open>Analysis and removal\<close>

text \<open>The results of the proofs by line; a missing one is an exception.\<close>

definition analyze :: "(nat \<times> bool) list \<Rightarrow> checks \<Rightarrow> checks res" where
  "analyze results cs =
     bind_res
       (map_res (\<lambda>(n, c).
          case map_of results n of None \<Rightarrow> Inl (KeyError (int_str (int n))) | Some b \<Rightarrow> Inr (if b then [(n, c)] else [])) cs)
       (\<lambda>css. Inr (concat css))"

definition removed_line :: "checks \<Rightarrow> nat list \<Rightarrow> nat \<Rightarrow> bool" where
  "removed_line cs assertions i = (list_ex (\<lambda>(n, c). ck_begin c \<le> i \<and> i \<le> ck_end c) cs \<or> i \<in> set assertions)"

fun kept_lines :: "(nat \<Rightarrow> bool) \<Rightarrow> nat \<Rightarrow> string list \<Rightarrow> string list" where
  "kept_lines P i [] = []"
| "kept_lines P i (l # ls) = (if P i then kept_lines P (Suc i) ls else l # kept_lines P (Suc i) ls)"

fun occurs_in :: "string \<Rightarrow> string \<Rightarrow> bool" where
  "occurs_in p [] = (p = [])"
| "occurs_in p (x # xs) = (starts_with p (x # xs) \<or> occurs_in p xs)"

definition remove_checks :: "string \<Rightarrow> checks \<Rightarrow> nat list \<Rightarrow> string res" where
  "remove_checks content cs assertions =
     (let optimized = unlines (kept_lines (removed_line cs assertions) 1 (split_char newline_char content)) in
      assert_res (\<not> occurs_in false_assertion optimized) (Inr (strip optimized @ [newline_char])))"

text \<open>The optimization of one file, as \<open>optimize\<close> composes the steps; without checks the file is only instrumented.\<close>

definition optimize_file :: "(nat \<times> bool) list \<Rightarrow> string \<Rightarrow> string res" where
  "optimize_file results content =
     (let (text, cs) = instrument content in
      if cs = [] then Inr text
      else bind_res (analyze results cs) (\<lambda>rs. remove_checks text rs (map fst cs)))"

section \<open>Code with guarded jumps\<close>

text \<open>
  A guarded jump is a condition, other lines, the jump, other lines and the end of the condition.
\<close>

datatype item = Line string | Guarded string "string list" string "string list" string

fun item_lines :: "item \<Rightarrow> string list" where
  "item_lines (Line l) = [l]"
| "item_lines (Guarded i xs g ys e) = i # xs @ g # ys @ [e]"

fun instrumented :: "item \<Rightarrow> string list" where
  "instrumented (Line l) = [l]"
| "instrumented (Guarded i xs g ys e) = i # xs @ assertion_before g # g # ys @ [e]"

text \<open>A jump that is not guarded must not follow a condition without an alternative or a guarded jump between them.\<close>

fun well_formed :: "bool \<Rightarrow> item list \<Rightarrow> bool" where
  "well_formed b [] = True"
| "well_formed b (Line l # its) =
     (case kind_of l of
        IfLine \<Rightarrow> well_formed True its
      | ElseLine \<Rightarrow> well_formed False its
      | GotoLine \<Rightarrow> \<not> b \<and> well_formed False its
      | _ \<Rightarrow> well_formed b its)"
| "well_formed b (Guarded i xs g ys e # its) =
     (kind_of i = IfLine \<and> (\<forall>x\<in>set xs. kind_of x = OtherLine) \<and> kind_of g = GotoLine
      \<and> (\<forall>y\<in>set ys. kind_of y = OtherLine) \<and> kind_of e = EndIfLine \<and> well_formed False its)"

fun expected_checks :: "nat \<Rightarrow> item list \<Rightarrow> checks" where
  "expected_checks k [] = []"
| "expected_checks k (Line l # its) = expected_checks (Suc k) its"
| "expected_checks k (Guarded i xs g ys e # its) =
     (let a = Suc (k + length xs) in
      (a, \<lparr>ck_begin = k, ck_assertion = a, ck_end = a + 2 + length ys\<rparr>) # expected_checks (a + 3 + length ys) its)"

lemma other_lines:
  "(\<forall>x\<in>set xs. kind_of x = OtherLine) \<Longrightarrow>
   instrument_lines i c cs (xs @ ls) = (xs @ fst (instrument_lines (i + length xs) c cs ls), snd (instrument_lines (i + length xs) c cs ls))"
  by (induction xs arbitrary: i) (simp_all add: split_beta)

lemma dict_set_new: "k \<notin> fst ` set d \<Longrightarrow> dict_set k v d = d @ [(k, v)]"
  by (induction d) auto

text \<open>What is known of the current check: the jump last seen is not in the condition last seen.\<close>

definition idle :: "bool \<Rightarrow> nat \<Rightarrow> check_range \<Rightarrow> bool" where
  "idle b n c \<longleftrightarrow> (valid_begin c \<longrightarrow> b) \<and> (ck_begin c = 0 \<or> ck_assertion c < ck_begin c) \<and> ck_assertion c < n"

lemma instrument_guarded:
  assumes "well_formed b (Guarded i xs g ys e # its)" "k = n + length cs" "0 < n" "\<forall>a\<in>fst ` set cs. a < k"
    and "a = Suc (k + length xs)" "ck = \<lparr>ck_begin = k, ck_assertion = a, ck_end = a + 2 + length ys\<rparr>"
  shows "instrument_lines n c cs (item_lines (Guarded i xs g ys e) @ ls) =
    (let (out, r) = instrument_lines (Suc (Suc (Suc (n + (length xs + length ys))))) no_check (cs @ [(a, ck)]) ls in
     (instrumented (Guarded i xs g ys e) @ out, r))"
proof -
  have "a \<notin> fst ` set cs" using assms(4,5) by auto
  then show ?thesis
    using assms(1-3,5,6) dict_set_new [of a cs]
    by (cases c)
      (simp add: other_lines split_beta valid_begin_def valid_check_def Let_def add.commute add.left_commute)
qed

lemma instrument_items:
  "well_formed b its \<Longrightarrow> idle b (n + length cs) c \<Longrightarrow> 0 < n \<Longrightarrow> \<forall>a\<in>fst ` set cs. a < n + length cs \<Longrightarrow>
   instrument_lines n c cs (concat (map item_lines its)) =
     (concat (map instrumented its), cs @ expected_checks (n + length cs) its)"
proof (induction its arbitrary: b n c cs)
  case (Cons it its)
  show ?case
  proof (cases it)
    case (Line l)
    have less: "\<forall>a\<in>fst ` set cs. a < Suc n + length cs" using Cons.prems(4) by auto
    show ?thesis
    proof (cases "kind_of l")
      case IfLine
      then have "idle True (Suc n + length cs) (c\<lparr>ck_begin := n + length cs\<rparr>)" "well_formed True its"
        using Cons.prems(1-3) by (auto simp: Line idle_def)
      from Cons.IH [OF this(2,1) _ less] IfLine show ?thesis by (simp add: Line)
    next
      case GotoLine
      then have "idle False (Suc n + length cs) (c\<lparr>ck_assertion := n + length cs\<rparr>)" "well_formed False its" "\<not> valid_begin c"
        using Cons.prems(1-3) by (auto simp: Line idle_def valid_begin_def)
      from Cons.IH [OF this(2,1) _ less] this(3) GotoLine show ?thesis by (simp add: Line)
    next
      case ElseLine
      then have "idle False (Suc n + length cs) (c\<lparr>ck_begin := 0\<rparr>)" "well_formed False its"
        using Cons.prems(1-3) by (auto simp: Line idle_def valid_begin_def)
      from Cons.IH [OF this(2,1) _ less] ElseLine show ?thesis by (simp add: Line)
    next
      case EndIfLine
      then have "idle b (Suc n + length cs) (c\<lparr>ck_end := n + length cs + 1\<rparr>)" "well_formed b its"
          "\<not> valid_check (c\<lparr>ck_end := n + length cs + 1\<rparr>)"
        using Cons.prems(1-3) by (auto simp: Line idle_def valid_begin_def valid_check_def)
      from Cons.IH [OF this(2,1) _ less] this(3) EndIfLine show ?thesis by (simp add: Line)
    next
      case OtherLine
      then have "idle b (Suc n + length cs) c" "well_formed b its"
        using Cons.prems(1-3) by (auto simp: Line idle_def)
      from Cons.IH [OF this(2,1) _ less] OtherLine show ?thesis by (simp add: Line)
    qed
  next
    case (Guarded i xs g ys e)
    define k where "k = n + length cs"
    define a where "a = Suc (k + length xs)"
    define ck where "ck = \<lparr>ck_begin = k, ck_assertion = a, ck_end = a + 2 + length ys\<rparr>"
    let ?n = "Suc (Suc (Suc (n + (length xs + length ys))))" and ?cs = "cs @ [(a, ck)]"
    have n: "?n + length ?cs = a + 3 + length ys" by (simp add: a_def k_def)
    have "well_formed False its" "idle False (?n + length ?cs) no_check" "\<forall>b\<in>fst ` set ?cs. b < ?n + length ?cs"
      using Cons.prems(1,4) unfolding n by (auto simp: Guarded idle_def no_check_def valid_begin_def a_def k_def)
    from Cons.IH [OF this(1,2) _ this(3)]
    have IH: "instrument_lines ?n no_check ?cs (concat (map item_lines its)) =
        (concat (map instrumented its), ?cs @ expected_checks (a + 3 + length ys) its)"
      unfolding n by simp
    have "concat (map item_lines (it # its)) = item_lines it @ concat (map item_lines its)" by simp
    moreover have "instrument_lines n c cs (item_lines it @ concat (map item_lines its)) =
        (instrumented it @ concat (map instrumented its), ?cs @ expected_checks (a + 3 + length ys) its)"
      unfolding Guarded
      using instrument_guarded [OF Cons.prems(1) [unfolded Guarded] k_def Cons.prems(3)
          Cons.prems(4) [folded k_def] a_def ck_def, of c "concat (map item_lines its)"]
      unfolding IH by simp
    ultimately show ?thesis
      by (simp add: Guarded k_def [symmetric] a_def [symmetric] ck_def Let_def del: item_lines.simps instrumented.simps)
  qed
qed simp

section \<open>Removal\<close>

text \<open>The items that remain: a guarded jump is dropped if it was proved to be unreachable.\<close>

fun remaining :: "(nat \<Rightarrow> bool) \<Rightarrow> nat \<Rightarrow> item list \<Rightarrow> item list" where
  "remaining proved k [] = []"
| "remaining proved k (Line l # its) = Line l # remaining proved (Suc k) its"
| "remaining proved k (Guarded i xs g ys e # its) =
     (let a = Suc (k + length xs); rest = remaining proved (a + 3 + length ys) its in
      if proved a then rest else Guarded i xs g ys e # rest)"

definition removal :: "(nat \<Rightarrow> bool) \<Rightarrow> checks \<Rightarrow> nat \<Rightarrow> bool" where
  "removal proved cs = removed_line (filter (\<lambda>(a, c). proved a) cs) (map fst cs)"

lemma removal_Cons:
  "removal proved ((a, c) # cs) n \<longleftrightarrow> (proved a \<and> ck_begin c \<le> n \<and> n \<le> ck_end c) \<or> n = a \<or> removal proved cs n"
  by (auto simp: removal_def removed_line_def)

lemma removal_later: "n < k \<Longrightarrow> \<not> removal proved (expected_checks k its) n"
proof (induction k its arbitrary: n rule: expected_checks.induct)
  case (1 k)
  then show ?case by (simp add: removal_def removed_line_def)
next
  case (2 k l its)
  then show ?case by simp
next
  case (3 k i xs g ys e its)
  then show ?case by (auto simp: Let_def removal_Cons)
qed

lemma kept_append: "kept_lines P n (xs @ ys) = kept_lines P n xs @ kept_lines P (n + length xs) ys"
  by (induction xs arbitrary: n) auto

lemma kept_all: "(\<And>m. n \<le> m \<Longrightarrow> m < n + length xs \<Longrightarrow> \<not> P m) \<Longrightarrow> kept_lines P n xs = xs"
proof (induction xs arbitrary: n)
  case (Cons x xs)
  have "kept_lines P (Suc n) xs = xs" by (rule Cons.IH) (use Cons.prems in auto)
  then show ?case using Cons.prems [of n] by simp
qed simp

lemma kept_none: "(\<And>m. n \<le> m \<Longrightarrow> m < n + length xs \<Longrightarrow> P m) \<Longrightarrow> kept_lines P n xs = []"
proof (induction xs arbitrary: n)
  case (Cons x xs)
  have "kept_lines P (Suc n) xs = []" by (rule Cons.IH) (use Cons.prems in auto)
  then show ?case using Cons.prems [of n] by simp
qed simp

lemma kept_guarded:
  assumes "\<And>n. k \<le> n \<Longrightarrow> n < a + 3 + length ys \<Longrightarrow> P n \<longleftrightarrow> (b \<and> n \<le> a + 2 + length ys) \<or> n = a" "a = Suc (k + length xs)"
  shows "kept_lines P k (instrumented (Guarded i xs g ys e)) = (if b then [] else item_lines (Guarded i xs g ys e))"
proof (cases b)
  case True
  then have "kept_lines P k (instrumented (Guarded i xs g ys e)) = []"
    using assms by (intro kept_none) auto
  then show ?thesis using True by simp
next
  case False
  have "kept_lines P k (i # xs) = i # xs"
    by (rule kept_all) (use assms False in auto)
  moreover have "kept_lines P (Suc a) (g # ys @ [e]) = g # ys @ [e]"
    by (rule kept_all) (use assms False in auto)
  moreover have "P a" using assms by auto
  ultimately show ?thesis
    using False kept_append [of P k "i # xs" "assertion_before g # g # ys @ [e]"] assms(2) by simp
qed

lemma kept_items:
  "(\<And>n. k \<le> n \<Longrightarrow> P n \<longleftrightarrow> removal proved (expected_checks k its) n) \<Longrightarrow>
   kept_lines P k (concat (map instrumented its)) = concat (map item_lines (remaining proved k its))"
proof (induction k its rule: expected_checks.induct)
  case (1 k)
  then show ?case by simp
next
  case (2 k l its)
  have "\<not> P k" using 2(2) [of k] removal_later [of k "Suc k"] by simp
  then show ?case using 2 by simp
next
  case (3 k i xs g ys e its)
  define a where "a = Suc (k + length xs)"
  let ?rest = "expected_checks (a + 3 + length ys) its"
  have P: "P n \<longleftrightarrow> (proved a \<and> n \<le> a + 2 + length ys) \<or> n = a \<or> removal proved ?rest n" if "k \<le> n" for n
    using 3(2) [OF that] that by (simp add: removal_Cons Let_def a_def)
  have rest: "kept_lines P (a + 3 + length ys) (concat (map instrumented its)) =
      concat (map item_lines (remaining proved (a + 3 + length ys) its))"
    by (rule 3(1) [OF a_def]) (use P in \<open>auto simp: a_def\<close>)
  have "kept_lines P k (instrumented (Guarded i xs g ys e)) = (if proved a then [] else item_lines (Guarded i xs g ys e))"
    using P removal_later by (intro kept_guarded [OF _ a_def]) auto
  moreover have "k + length (instrumented (Guarded i xs g ys e)) = a + 3 + length ys" by (simp add: a_def)
  ultimately show ?case
    using rest kept_append [of P k "instrumented (Guarded i xs g ys e)" "concat (map instrumented its)"]
    by (simp add: Let_def a_def [symmetric] del: item_lines.simps instrumented.simps)
qed

section \<open>Text\<close>

lemma split_unlines: "\<forall>l\<in>set ls. newline_char \<notin> set l \<Longrightarrow> split_char newline_char (unlines ls) = ls @ [[]]"
proof (induction ls)
  case (Cons l ls)
  have "split_char newline_char (xs @ newline_char # r) = xs # split_char newline_char r" if "newline_char \<notin> set xs" for xs r
    using that by (induction xs) auto
  then show ?case using Cons by (simp add: unlines_def)
qed (simp add: unlines_def)

lemma split_lines: "l \<in> set (split_char c s) \<Longrightarrow> c \<notin> set l"
  by (induction s arbitrary: l) (auto split: if_splits list.splits)

lemma assertion_one_line: "newline_char \<notin> set (assertion_before l)"
  by (auto simp: assertion_before_def false_assertion_def dest: set_takeWhileD)

lemma instrumented_lines:
  "x \<in> set (instrumented it) \<Longrightarrow> x \<in> set (item_lines it) \<or> (\<exists>l. x = assertion_before l)"
  by (cases it) auto

lemma removal_beyond: "k + length (concat (map instrumented its)) \<le> n \<Longrightarrow> \<not> removal proved (expected_checks k its) n"
proof (induction k its rule: expected_checks.induct)
  case (1 k)
  then show ?case by (simp add: removal_def removed_line_def)
next
  case (2 k l its)
  then show ?case by simp
next
  case (3 k i xs g ys e its)
  then show ?case by (auto simp: Let_def removal_Cons)
qed

lemma starts_in_line:
  assumes "starts_with p (xs @ c # r)" "c \<notin> set p"
  shows "starts_with p xs"
proof (cases "length p \<le> length xs")
  case True
  then show ?thesis using assms(1) by (simp add: starts_with_def)
next
  case False
  then have "take (length p) (xs @ c # r) = xs @ c # take (length p - length xs - 1) r"
    by (cases "length p - length xs") auto
  then show ?thesis using assms by (metis in_set_conv_decomp starts_with_def)
qed

lemma occurs_in_line:
  assumes "occurs_in p (xs @ c # r)" "c \<notin> set p" "p \<noteq> []"
  shows "occurs_in p xs \<or> occurs_in p r"
  using assms(1)
proof (induction xs)
  case Nil
  then show ?case using assms(2,3) starts_in_line [of p "[]" c r] by (auto simp: starts_with_def)
next
  case (Cons x xs)
  then show ?case using starts_in_line [of p "x # xs" c r] assms(2) by auto
qed

lemma occurs_unlines:
  "occurs_in p (unlines ls) \<Longrightarrow> newline_char \<notin> set p \<Longrightarrow> p \<noteq> [] \<Longrightarrow> \<exists>l\<in>set ls. occurs_in p l"
  by (induction ls) (auto simp: unlines_def dest!: occurs_in_line)

lemma remaining_subset: "set (remaining proved k its) \<subseteq> set its"
proof (induction proved k its rule: remaining.induct)
  case (3 proved k i xs g ys e its)
  then show ?case by (auto simp: Let_def)
qed auto

lemma analyze_results:
  "\<forall>a\<in>fst ` set cs. map_of results a \<noteq> None \<Longrightarrow>
   analyze results cs = Inr (filter (\<lambda>(a, c). map_of results a = Some True) cs)"
  by (induction cs) (auto simp: analyze_def bind_res_def split: sum.splits)

text \<open>
  C14. Optimizing a file removes exactly the checks whose jumps were proved to be unreachable: the other lines
  remain as they were, and the assertions that were inserted are gone.
\<close>

theorem optimize_file_correct:
  assumes "split_char newline_char (strip content) = concat (map item_lines its)" "well_formed False its"
    and "\<forall>l\<in>set (concat (map item_lines its)). \<not> occurs_in false_assertion l"
    and "\<forall>a\<in>fst ` set (expected_checks 1 its). map_of results a \<noteq> None" "expected_checks 1 its \<noteq> []"
  shows "optimize_file results content =
    Inr (strip (unlines (concat (map item_lines (remaining (\<lambda>a. map_of results a = Some True) 1 its)) @ [[]])) @ [newline_char])"
proof -
  let ?out = "concat (map instrumented its)" and ?cs = "expected_checks 1 its"
  let ?proved = "\<lambda>a. map_of results a = Some True"
  let ?rest = "concat (map item_lines (remaining ?proved 1 its))"
  have "instrument_lines 1 no_check [] (concat (map item_lines its)) = (?out, ?cs)"
    using instrument_items [OF assms(2), of 1 "[]" no_check] by (simp add: idle_def no_check_def valid_begin_def)
  then have i: "instrument content = (unlines ?out, ?cs)" by (simp add: instrument_def assms(1))
  have "\<forall>l\<in>set ?out. newline_char \<notin> set l"
    using instrumented_lines split_lines [of _ newline_char "strip content"] assertion_one_line
    unfolding assms(1) by fastforce
  then have "split_char newline_char (unlines ?out) = ?out @ [[]]" by (rule split_unlines)
  moreover have "kept_lines (removal ?proved ?cs) 1 (?out @ [[]]) = ?rest @ [[]]"
    using kept_items [of 1 "removal ?proved ?cs" ?proved its] removal_beyond [of 1 its "1 + length ?out" ?proved]
    by (simp add: kept_append)
  moreover have "\<not> occurs_in false_assertion (unlines (?rest @ [[]]))"
  proof
    assume "occurs_in false_assertion (unlines (?rest @ [[]]))"
    then have "\<exists>l\<in>set (?rest @ [[]]). occurs_in false_assertion l"
      by (rule occurs_unlines) (simp_all add: false_assertion_def)
    then obtain l where "l \<in> set (?rest @ [[]])" "occurs_in false_assertion l" by blast
    then show False using assms(3) remaining_subset [of ?proved 1 its] by (auto simp: false_assertion_def)
  qed
  ultimately have "remove_checks (unlines ?out) (filter (\<lambda>(a, c). ?proved a) ?cs) (map fst ?cs) =
      Inr (strip (unlines (?rest @ [[]])) @ [newline_char])"
    by (simp add: remove_checks_def removal_def assert_res_def)
  then show ?thesis
    using analyze_results [OF assms(4)] assms(5) by (simp add: optimize_file_def i)
qed

definition sample_items :: "item list" where
  "sample_items =
     [Line ''   X := Y;'',
      Guarded ''   if not Ok then'' [''      Next := S_Final;''] ''      goto Finalize;'' [] ''   end if;'',
      Line ''   if A then'',
      Guarded ''      if B then'' [] ''         goto Finalize;'' [] ''      end if;'',
      Line ''   end if;'']"

text \<open>A line break after every line; the text starts with a line that is not blank.\<close>

definition sample_code :: string where
  "sample_code = unlines ([''procedure P is'', ''begin''] @ concat (map item_lines sample_items) @ [''end P;''])"

theorem optimize_file_correct_witness:
  "optimize_file [(6, True), (11, False)] sample_code =
     Inr (unlines
       [''procedure P is'', ''begin'', ''   X := Y;'', ''   if A then'', ''      if B then'', ''         goto Finalize;'',
        ''      end if;'', ''   end if;'', ''end P;''])"
proof -
  let ?its = "[Line ''procedure P is'', Line ''begin''] @ sample_items @ [Line ''end P;'']"
  have l: "split_char newline_char (strip sample_code) = concat (map item_lines ?its)"
    by code_simp
  have w: "well_formed False ?its"
    by code_simp
  have n: "\<forall>l\<in>set (concat (map item_lines ?its)). \<not> occurs_in false_assertion l"
    by code_simp
  have r: "\<forall>a\<in>fst ` set (expected_checks 1 ?its). map_of [(6, True), (11, False)] a \<noteq> None" "expected_checks 1 ?its \<noteq> []"
    by code_simp+
  have t: "strip (unlines (concat (map item_lines
      (remaining (\<lambda>a. map_of [(6, True), (11, False)] a = Some True) 1 ?its)) @ [[]])) @ [newline_char] =
    unlines
       [''procedure P is'', ''begin'', ''   X := Y;'', ''   if A then'', ''      if B then'', ''         goto Finalize;'',
        ''      end if;'', ''   end if;'', ''end P;'']"
    by code_simp
  show ?thesis using optimize_file_correct [OF l w n r] unfolding t .
qed

section \<open>Other code\<close>

text \<open>
  An alternative between the jump and the end of the condition leaves an assertion that is not removed; the lines of
  later assertions are miscounted.
\<close>

lemma alternative_remains:
  "optimize_file [] (unlines [''if A then'', ''   goto F;'', ''else'', ''   X := 1;'', ''end if;''])
   = Inr (unlines [''if A then'', ''   pragma Assert (False);'', ''   goto F;'', ''else'', ''   X := 1;'', ''end if;''])"
  "optimize_file [(2, False), (8, False)]
     (unlines [''if A then'', ''   goto F;'', ''else'', ''   X := 1;'', ''end if;'', ''if B then'', ''   goto F;'', ''end if;''])
   = Inl (KeyError ''7'')"
  by code_simp+

text \<open>
  A jump that follows a condition inside of another one is taken for a part of the inner condition: the
  end of the outer condition is removed with it.
\<close>

lemma unbalanced_removal:
  "optimize_file [(5, True)]
     (unlines [''if A then'', ''   if B then'', ''      X := 1;'', ''   end if;'', ''   goto F;'', ''end if;'', ''Y := 2;''])
   = Inr (unlines [''if A then'', ''Y := 2;''])"
  by code_simp

end
